(* ===== verification/Vauldy_Prelude.thy ===== *)
theory Vauldy_Prelude
  imports Main "HOL-Library.AList" "HOL-Library.Word" "HOL-Library.Char_ord"
    "HOL-Library.List_Lexorder" "HOL-Library.Signed_Division" "HOL-Library.Sublist"
begin

text \<open>
  Shared vocabulary of the development: Go maps as association lists, Go strings as byte
  lists with \<open>strings.TrimSpace\<close>, points in time, truncated division, and the generic
  lemmas on updates of association lists and of tables that the components use.

  A Go map is an association list whose keys are distinct (\<open>gmap_ok\<close>); its order stands
  for the order in which a \<open>range\<close> loop visits it, which Go leaves unspecified: every order
  is the order of some list, and the theorems hold for all of them. A map that was never
  allocated is the empty list, as reads from it see it.
\<close>

named_theorems gmap_simps \<open>lookups after updates of a Go map\<close>
named_theorems table_simps \<open>selections from a table after a statement\<close>
named_theorems sched_defs \<open>definitions the scheduler proofs unfold\<close>

section \<open>Go maps\<close>

type_synonym ('k, 'v) gmap = "('k \<times> 'v) list"

definition gmap_ok :: "('k, 'v) gmap \<Rightarrow> bool" where
  "gmap_ok m \<longleftrightarrow> distinct (map fst m)"

definition gget :: "('k, 'v) gmap \<Rightarrow> 'k \<Rightarrow> 'v option" where
  "gget m k = map_of m k"

definition gput :: "'k \<Rightarrow> 'v \<Rightarrow> ('k, 'v) gmap \<Rightarrow> ('k, 'v) gmap" where
  "gput k v m = AList.update k v m"

definition gdel :: "'k \<Rightarrow> ('k, 'v) gmap \<Rightarrow> ('k, 'v) gmap" where
  "gdel k m = AList.delete k m"

text \<open>\<open>m[k]\<close> read as a single value: the zero value when the key is absent.\<close>

definition gget0 :: "('k, int) gmap \<Rightarrow> 'k \<Rightarrow> int" where
  "gget0 m k = (case gget m k of None \<Rightarrow> 0 | Some v \<Rightarrow> v)"

text \<open>\<open>m[k] += d\<close>\<close>

definition gadd :: "'k \<Rightarrow> int \<Rightarrow> ('k, int) gmap \<Rightarrow> ('k, int) gmap" where
  "gadd k d m = gput k (gget0 m k + d) m"

text \<open>\<open>for k, v := range src { dst[k] = v }\<close>\<close>

definition gputs :: "('k, 'v) gmap \<Rightarrow> ('k, 'v) gmap \<Rightarrow> ('k, 'v) gmap" where
  "gputs src dst = foldl (\<lambda>m (k, v). gput k v m) dst src"

lemma gget_Nil [gmap_simps, simp]: "gget [] k = None"
  by (simp add: gget_def)

lemma gget_Cons [gmap_simps]: "gget ((k, v) # m) k' = (if k = k' then Some v else gget m k')"
  by (auto simp: gget_def)

lemma gget_gput [gmap_simps, simp]: "gget (gput k v m) k' = (if k' = k then Some v else gget m k')"
  by (simp add: gget_def gput_def update_conv')

lemma gget_gdel [gmap_simps, simp]: "gget (gdel k m) k' = (if k' = k then None else gget m k')"
  by (simp add: gget_def gdel_def delete_conv')

lemma gget0_gput [gmap_simps, simp]: "gget0 (gput k v m) k' = (if k' = k then v else gget0 m k')"
  by (simp add: gget0_def)

lemma gget0_gdel [gmap_simps, simp]: "gget0 (gdel k m) k' = (if k' = k then 0 else gget0 m k')"
  by (simp add: gget0_def)

lemma gget0_gadd [gmap_simps, simp]: "gget0 (gadd k d m) k' = gget0 m k' + (if k' = k then d else 0)"
  by (simp add: gadd_def)

lemma gget0_Nil [gmap_simps, simp]: "gget0 [] k = 0"
  by (simp add: gget0_def)

lemma gget_SomeD: "gget m k = Some v \<Longrightarrow> (k, v) \<in> set m"
  by (simp add: gget_def map_of_SomeD)

lemma gget_Some_iff: "gmap_ok m \<Longrightarrow> gget m k = Some v \<longleftrightarrow> (k, v) \<in> set m"
  by (simp add: gget_def gmap_ok_def)

lemma gget_None_iff: "gget m k = None \<longleftrightarrow> k \<notin> fst ` set m"
  by (simp add: gget_def map_of_eq_None_iff)

lemma gmap_ok_Nil [simp]: "gmap_ok []"
  by (simp add: gmap_ok_def)

lemma gmap_ok_gput [simp]: "gmap_ok m \<Longrightarrow> gmap_ok (gput k v m)"
  by (simp add: gmap_ok_def gput_def distinct_update)

lemma gmap_ok_gdel [simp]: "gmap_ok m \<Longrightarrow> gmap_ok (gdel k m)"
  by (simp add: gmap_ok_def gdel_def distinct_delete)

lemma gmap_ok_gadd [simp]: "gmap_ok m \<Longrightarrow> gmap_ok (gadd k d m)"
  by (simp add: gadd_def)

lemma set_gput: "set (gput k v m) \<subseteq> insert (k, v) (set m)"
  by (induction m) (auto simp: gput_def)

lemma foldl_gput_other:
  "k \<notin> fst ` set src \<Longrightarrow> gget (foldl (\<lambda>m (k, v). gput k v m) dst src) k = gget dst k"
  by (induction src arbitrary: dst) auto

lemma gget_gputs:
  "gmap_ok src \<Longrightarrow>
   gget (gputs src dst) k = (case gget src k of Some v \<Rightarrow> Some v | None \<Rightarrow> gget dst k)"
  unfolding gputs_def
proof (induction src arbitrary: dst)
  case (Cons kv src)
  obtain k0 v0 where kv: "kv = (k0, v0)" by (cases kv)
  from Cons.prems kv have ok: "gmap_ok src" and new: "k0 \<notin> fst ` set src"
    by (auto simp: gmap_ok_def)
  from new have "gget src k0 = None" by (simp add: gget_None_iff)
  with Cons.IH [OF ok, of "gput k0 v0 dst"] show ?case
    by (auto simp: kv gget_Cons split: option.splits)
qed simp

lemma gmap_ok_gputs: "gmap_ok dst \<Longrightarrow> gmap_ok (gputs src dst)"
  unfolding gputs_def by (induction src arbitrary: dst) auto

text \<open>The entries a filtering loop keeps, and the entries a loop computes per key.\<close>

lemma gmap_ok_Cons: "gmap_ok ((k, v) # m) \<longleftrightarrow> gget m k = None \<and> gmap_ok m"
  by (simp add: gmap_ok_def gget_None_iff)

lemma gmap_ok_filter [simp]: "gmap_ok m \<Longrightarrow> gmap_ok (filter P m)"
  by (simp add: gmap_ok_def distinct_map_filter)

lemma gget_filter:
  "gmap_ok m \<Longrightarrow> gget (filter (\<lambda>(k, v). P k v) m) t =
   (case gget m t of Some v \<Rightarrow> if P t v then Some v else None | None \<Rightarrow> None)"
  by (induction m) (auto simp: gget_Cons gmap_ok_Cons split: option.splits if_splits)

lemma gget_map_filter:
  "gget (List.map_filter (\<lambda>(n, d). map_option (Pair n) (f n)) m) t =
   (if gget m t = None then None else f t)"
proof (induction m)
  case (Cons nd m)
  then show ?case
    by (cases nd; cases "f (fst nd)"; cases "fst nd = t")
      (auto simp: List.map_filter_simps gget_Cons)
qed (simp add: List.map_filter_simps)

lemma gmap_ok_map_filter:
  "gmap_ok m \<Longrightarrow> gmap_ok (List.map_filter (\<lambda>(n, d). map_option (Pair n) (f n)) m)"
proof (induction m)
  case (Cons nd m)
  then show ?case
    by (cases nd; cases "f (fst nd)")
      (auto simp: List.map_filter_simps gmap_ok_Cons gget_map_filter)
qed (simp add: List.map_filter_simps)

section \<open>First error of a loop\<close>

text \<open>\<open>for x := range xs { if e := f(x); e != nil { return e } }\<close>\<close>

fun first_error :: "('a \<Rightarrow> 'e option) \<Rightarrow> 'a list \<Rightarrow> 'e option" where
  "first_error f [] = None"
| "first_error f (x # xs) = (case f x of Some e \<Rightarrow> Some e | None \<Rightarrow> first_error f xs)"

text \<open>Consecutive checks, each returning at the first error.\<close>

abbreviation first_some :: "'e option list \<Rightarrow> 'e option" where
  "first_some \<equiv> first_error (\<lambda>e. e)"

lemma first_error_None_iff: "first_error f xs = None \<longleftrightarrow> (\<forall>x \<in> set xs. f x = None)"
  by (induction xs) (auto split: option.splits)

lemma first_error_SomeD: "first_error f xs = Some e \<Longrightarrow> \<exists>x \<in> set xs. f x = Some e"
  by (induction xs) (auto split: option.splits)

lemma find_set: "find P xs = Some x \<Longrightarrow> x \<in> set xs \<and> P x"
  by (auto simp: find_Some_iff)

section \<open>Results\<close>

text \<open>
  A Go function that returns a value and an error is a sum: \<open>Inl\<close> the error, \<open>Inr\<close> the value.
  \<open>and_then\<close> is the early return on an error.
\<close>

fun and_then :: "'e + 'a \<Rightarrow> ('a \<Rightarrow> 'e + 'b) \<Rightarrow> 'e + 'b" where
  "and_then (Inl e) k = Inl e"
| "and_then (Inr x) k = k x"

lemma and_then_Inr_iff: "and_then m k = Inr y \<longleftrightarrow> (\<exists>x. m = Inr x \<and> k x = Inr y)"
  by (cases m) auto

lemma and_then_Inl_iff: "and_then m k = Inl e \<longleftrightarrow> m = Inl e \<or> (\<exists>x. m = Inr x \<and> k x = Inl e)"
  by (cases m) auto

section \<open>Go strings\<close>

text \<open>
  A Go string is a sequence of bytes, here a \<open>string\<close> of 8-bit characters.
  \<open>strings.TrimSpace\<close> removes the runes of \<open>unicode.IsSpace\<close> at both ends; they are
  listed with their UTF-8 encodings.
\<close>

definition space_runes :: "string list" where
  "space_runes =
    [[CHR 0x09], [CHR 0x0A], [CHR 0x0B], [CHR 0x0C], [CHR 0x0D], [CHR 0x20],
     [CHR 0xC2, CHR 0x85], [CHR 0xC2, CHR 0xA0], [CHR 0xE1, CHR 0x9A, CHR 0x80],
     [CHR 0xE2, CHR 0x80, CHR 0x80], [CHR 0xE2, CHR 0x80, CHR 0x81],
     [CHR 0xE2, CHR 0x80, CHR 0x82], [CHR 0xE2, CHR 0x80, CHR 0x83],
     [CHR 0xE2, CHR 0x80, CHR 0x84], [CHR 0xE2, CHR 0x80, CHR 0x85],
     [CHR 0xE2, CHR 0x80, CHR 0x86], [CHR 0xE2, CHR 0x80, CHR 0x87],
     [CHR 0xE2, CHR 0x80, CHR 0x88], [CHR 0xE2, CHR 0x80, CHR 0x89],
     [CHR 0xE2, CHR 0x80, CHR 0x8A], [CHR 0xE2, CHR 0x80, CHR 0xA8],
     [CHR 0xE2, CHR 0x80, CHR 0xA9], [CHR 0xE2, CHR 0x80, CHR 0xAF],
     [CHR 0xE2, CHR 0x81, CHR 0x9F], [CHR 0xE3, CHR 0x80, CHR 0x80]]"

function strip_runes :: "string list \<Rightarrow> string \<Rightarrow> string" where
  "strip_runes rs s =
     (case find (\<lambda>r. r \<noteq> [] \<and> prefix r s) rs of
        None \<Rightarrow> s
      | Some r \<Rightarrow> strip_runes rs (drop (length r) s))"
  by pat_completeness auto
termination
proof (relation "measure (\<lambda>(rs, s). length s)")
  fix rs s r assume "find (\<lambda>r. r \<noteq> [] \<and> prefix r s) rs = Some r"
  then have "r \<noteq> [] \<and> prefix r s" by (auto simp: find_Some_iff)
  then show "((rs, drop (length r) s), rs, s) \<in> measure (\<lambda>(rs, s). length s)"
    by (cases r) (auto dest: prefix_length_le)
qed simp

declare strip_runes.simps [simp del]

definition TrimSpace :: "string \<Rightarrow> string" where
  "TrimSpace s = rev (strip_runes (map rev space_runes) (rev (strip_runes space_runes s)))"

lemma strip_runes_Nil [simp]: "strip_runes rs [] = []"
  by (subst strip_runes.simps) (auto simp: find_Some_iff split: option.splits)

lemma TrimSpace_Nil [simp]: "TrimSpace [] = []"
  by (simp add: TrimSpace_def)

lemma strip_runes_suffix: "suffix (strip_runes rs s) s"
proof (induction rs s rule: strip_runes.induct)
  case (1 rs s)
  show ?case
  proof (cases "find (\<lambda>r. r \<noteq> [] \<and> prefix r s) rs")
    case None
    then show ?thesis by (subst strip_runes.simps) simp
  next
    case (Some r)
    with 1 have "suffix (strip_runes rs (drop (length r) s)) (drop (length r) s)" by blast
    with Some show ?thesis
      by (subst strip_runes.simps) (auto intro: suffix_order.trans suffix_drop)
  qed
qed

section \<open>Time and integer division\<close>

text \<open>
  A \<open>time.Time\<close> is the number of nanoseconds since the zero time; a \<open>time.Duration\<close> is a
  number of nanoseconds. \<open>t.Sub(u)\<close> saturates at the limits of int64.
\<close>

type_synonym time = int
type_synonym duration = int

definition second :: duration where "second = 1000000000"

definition max_i64 :: int where "max_i64 = 9223372036854775807"
definition min_i64 :: int where "min_i64 = -9223372036854775808"

text \<open>The nearest value of the int64 range.\<close>

definition clamp64 :: "int \<Rightarrow> int" where
  "clamp64 x = (if x > max_i64 then max_i64 else if x < min_i64 then min_i64 else x)"

definition time_sub :: "time \<Rightarrow> time \<Rightarrow> duration" where
  "time_sub t u = clamp64 (t - u)"

lemma clamp64_range: "min_i64 \<le> clamp64 x \<and> clamp64 x \<le> max_i64"
  by (simp add: clamp64_def min_i64_def max_i64_def)

lemma clamp64_id [simp]: "min_i64 \<le> x \<Longrightarrow> x \<le> max_i64 \<Longrightarrow> clamp64 x = x"
  by (simp add: clamp64_def)

lemma clamp64_mono: "x \<le> y \<Longrightarrow> clamp64 x \<le> clamp64 y"
  by (auto simp: clamp64_def min_i64_def max_i64_def)

text \<open>Go, C and SQLite divide integers towards zero.\<close>

lemma sdiv_nonneg: "0 \<le> (a::int) \<Longrightarrow> 0 < b \<Longrightarrow> a sdiv b = a div b"
  by (simp add: signed_divide_int_def sgn_if)

section \<open>Tables\<close>

text \<open>
  A table is the list of its rows in row-id order. \<open>UPDATE t SET f WHERE p\<close> maps \<open>f\<close> over
  the rows that satisfy \<open>p\<close>; the number of affected rows is the number of those.
\<close>

definition sql_update :: "('r \<Rightarrow> bool) \<Rightarrow> ('r \<Rightarrow> 'r) \<Rightarrow> 'r list \<Rightarrow> 'r list" where
  "sql_update p f rows = map (\<lambda>r. if p r then f r else r) rows"

definition sql_affected :: "('r \<Rightarrow> bool) \<Rightarrow> 'r list \<Rightarrow> nat" where
  "sql_affected p rows = length (filter p rows)"

lemma set_sql_update [table_simps]:
  "set (sql_update p f rows) = {r \<in> set rows. \<not> p r} \<union> f ` {r \<in> set rows. p r}"
  by (auto simp: sql_update_def)

lemma length_sql_update [table_simps, simp]: "length (sql_update p f rows) = length rows"
  by (simp add: sql_update_def)

lemma map_sql_update_id [table_simps]:
  "(\<And>r. g (f r) = g r) \<Longrightarrow> map g (sql_update p f rows) = map g rows"
  by (simp add: sql_update_def)

lemma sql_affected_0 [table_simps]: "sql_affected p rows = 0 \<longleftrightarrow> (\<forall>r\<in>set rows. \<not> p r)"
  by (auto simp: sql_affected_def filter_empty_conv)

lemma filter_sql_update:
  "(\<And>r. p r \<Longrightarrow> \<not> q r \<and> \<not> q (f r)) \<Longrightarrow>
   filter q (sql_update p f rows) = filter q rows"
  unfolding sql_update_def by (induction rows) auto

lemma sql_update_unaffected: "sql_affected p rows = 0 \<Longrightarrow> sql_update p f rows = rows"
  by (auto simp: sql_affected_0 sql_update_def intro: map_idI)

end
