(* ===== verification/Sched_Types.thy ===== *)
theory Sched_Types
  imports Vauldy_Prelude
begin

text \<open>
  The vocabulary of the resource scheduler: \<open>internal/scheduler/types.go\<close> (resource kinds,
  requests, descriptors, error values) and \<open>internal/scheduler/defaults.go\<close> (the compiled
  defaults, the registry its \<open>init\<close> builds from them, the lookups of a default limit and the
  validation of a resource request).  The properties are C-numbered in the manifest; the ones
  here state that \<open>init\<close> does not panic and that the registry agrees with the table.
\<close>

section \<open>types.go\<close>

type_synonym ResourceKind = string

abbreviation CPU :: ResourceKind where "CPU \<equiv> ''cpu''"
abbreviation GPU :: ResourceKind where "GPU \<equiv> ''gpu''"
abbreviation DiskRead :: ResourceKind where "DiskRead \<equiv> ''disk_read''"
abbreviation DiskWrite :: ResourceKind where "DiskWrite \<equiv> ''disk_write''"
abbreviation Network :: ResourceKind where "Network \<equiv> ''network''"
abbreviation ExternalProcess :: ResourceKind where "ExternalProcess \<equiv> ''external_process''"

definition AllResourceKinds :: "ResourceKind list" where
  "AllResourceKinds = [CPU, GPU, DiskRead, DiskWrite, Network, ExternalProcess]"

type_synonym ResourceRequest = "(ResourceKind, int) gmap"

record Descriptor =
  d_TaskType :: string
  d_Family :: string
  d_ProfileVersion :: int
  d_Resources :: ResourceRequest
  d_Provider :: string

text \<open>
  The errors of the package, as values.  \<open>ValidationErrorE\<close> carries its messages as
  structured reasons (see \<open>Sched_Policy\<close>); the other strings of \<open>fmt.Errorf\<close> are kept as
  constructors, one per call.
\<close>

datatype request_error =
    UnknownResourceKind ResourceKind
  | NegativeResourceRequest int ResourceKind

section \<open>defaults.go\<close>

record CompiledDefaults =
  cd_TaskType :: string
  cd_Family :: string
  cd_DefaultConcurrency :: int
  cd_Resources :: ResourceRequest
  cd_Provider :: string
  cd_ProfileVersion :: int

definition cdef :: "string \<Rightarrow> string \<Rightarrow> int \<Rightarrow> ResourceRequest \<Rightarrow> CompiledDefaults" where
  "cdef t f n rs = \<lparr>cd_TaskType = t, cd_Family = f, cd_DefaultConcurrency = n,
     cd_Resources = rs, cd_Provider = [], cd_ProfileVersion = 1\<rparr>"

abbreviation rs_cpu_dr :: ResourceRequest where
  "rs_cpu_dr \<equiv> [(CPU, 1), (DiskRead, 1)]"
abbreviation rs_cpu_net :: ResourceRequest where
  "rs_cpu_net \<equiv> [(CPU, 1), (Network, 1)]"
abbreviation rs_cpu_dr_dw :: ResourceRequest where
  "rs_cpu_dr_dw \<equiv> [(CPU, 1), (DiskRead, 1), (DiskWrite, 1)]"
abbreviation rs_cpu_dr_dw_ext :: ResourceRequest where
  "rs_cpu_dr_dw_ext \<equiv> [(CPU, 1), (DiskRead, 1), (DiskWrite, 1), (ExternalProcess, 1)]"

definition compiledDefaults :: "CompiledDefaults list" where
  "compiledDefaults =
    [cdef ''ingest'' ''ingest'' 3 rs_cpu_dr_dw,
     cdef ''metadata'' ''ingest'' 3 [(CPU, 1), (DiskRead, 1), (ExternalProcess, 1)],
     cdef ''scan'' ''scan'' 1 rs_cpu_dr,
     cdef ''scrape'' ''scrape'' 6 rs_cpu_net,
     cdef ''poster'' ''post_ingest'' 3 rs_cpu_dr_dw_ext,
     cdef ''poster_repair'' ''post_ingest'' 3 rs_cpu_dr_dw_ext,
     cdef ''thumbnail'' ''post_ingest'' 3 rs_cpu_dr_dw_ext,
     cdef ''preview'' ''preview'' 2 rs_cpu_dr_dw_ext,
     cdef ''subtitle'' ''subtitle'' 2 rs_cpu_dr_dw_ext,
     cdef ''subtitle_recognize'' ''subtitle'' 1 rs_cpu_dr_dw,
     cdef ''atrack'' ''subtitle'' 2 rs_cpu_dr_dw_ext,
     cdef ''keyframe'' ''keyframe'' 3 rs_cpu_dr_dw_ext,
     cdef ''encrypt'' ''encryption'' 1 rs_cpu_dr_dw,
     cdef ''prepare'' ''prepare'' 1 rs_cpu_dr_dw_ext,
     cdef ''ai_analysis'' ''ai'' 3 rs_cpu_net,
     cdef ''retirement'' ''retirement'' 1 rs_cpu_dr_dw,
     cdef ''lyric_recognize'' ''lyric_recognize'' 2 rs_cpu_dr_dw,
     cdef ''audio_analysis'' ''audio_analysis'' 2 rs_cpu_dr_dw,
     cdef ''photo_classify'' ''photo_classify'' 1 rs_cpu_dr,
     cdef ''photo_geocode'' ''photo_geocode'' 2 [(CPU, 1), (DiskRead, 1), (Network, 1)],
     cdef ''photo_face'' ''photo_face'' 1 rs_cpu_dr_dw,
     cdef ''image_ocr'' ''image_ocr'' 1 rs_cpu_dr_dw,
     cdef ''document_convert'' ''document_convert'' 2 rs_cpu_dr_dw_ext,
     cdef ''document_fulltext'' ''document_fulltext'' 1 rs_cpu_dr_dw_ext,
     cdef ''person_scrape'' ''person_scrape'' 2 rs_cpu_net,
     cdef ''artwork_cover'' ''artwork_cover'' 2 rs_cpu_dr_dw_ext,
     cdef ''doc_convert'' ''doc_convert'' 2 rs_cpu_dr_dw_ext,
     cdef ''lyric'' ''lyric_recognize'' 2 rs_cpu_dr_dw]"

text \<open>The panics of \<open>init\<close>, one constructor per \<open>panic\<close> call.\<close>

datatype init_panic =
    EmptyTaskType
  | EmptyFamily string
  | NegativeConcurrency string int
  | InvalidProfileVersion string int
  | UnknownKind string ResourceKind
  | NegativeRequest string ResourceKind
  | DuplicateDefault string

fun init_resources :: "string \<Rightarrow> ResourceRequest \<Rightarrow> init_panic option" where
  "init_resources t [] = None"
| "init_resources t ((rk, count) # rest) =
     (if rk \<notin> set AllResourceKinds then Some (UnknownKind t rk)
      else if count < 0 then Some (NegativeRequest t rk)
      else init_resources t rest)"

definition descriptor_of :: "CompiledDefaults \<Rightarrow> Descriptor" where
  "descriptor_of cd = \<lparr>d_TaskType = cd_TaskType cd, d_Family = cd_Family cd,
     d_ProfileVersion = cd_ProfileVersion cd, d_Resources = cd_Resources cd,
     d_Provider = cd_Provider cd\<rparr>"

fun registry_init ::
  "CompiledDefaults list \<Rightarrow> (string, Descriptor) gmap \<Rightarrow> init_panic + (string, Descriptor) gmap" where
  "registry_init [] reg = Inr reg"
| "registry_init (cd # cds) reg =
     (if cd_TaskType cd = [] then Inl EmptyTaskType
      else if cd_Family cd = [] then Inl (EmptyFamily (cd_TaskType cd))
      else if cd_DefaultConcurrency cd < 0
        then Inl (NegativeConcurrency (cd_TaskType cd) (cd_DefaultConcurrency cd))
      else if cd_ProfileVersion cd < 1
        then Inl (InvalidProfileVersion (cd_TaskType cd) (cd_ProfileVersion cd))
      else case init_resources (cd_TaskType cd) (cd_Resources cd) of
          Some e \<Rightarrow> Inl e
        | None \<Rightarrow>
            if gget reg (cd_TaskType cd) \<noteq> None then Inl (DuplicateDefault (cd_TaskType cd))
            else registry_init cds (gput (cd_TaskType cd) (descriptor_of cd) reg))"

text \<open>The package variable \<open>Registry\<close> after \<open>init\<close>: a panic would leave no program to run.\<close>

definition Registry :: "(string, Descriptor) gmap" where
  "Registry = (case registry_init compiledDefaults [] of Inl _ \<Rightarrow> [] | Inr reg \<Rightarrow> reg)"

definition DefaultConcurrency :: "string \<Rightarrow> int option" where
  "DefaultConcurrency t =
     map_option cd_DefaultConcurrency (find (\<lambda>cd. cd_TaskType cd = t) compiledDefaults)"

definition FamilyDefaultConcurrency :: "string \<Rightarrow> int option" where
  "FamilyDefaultConcurrency f =
     map_option cd_DefaultConcurrency (find (\<lambda>cd. cd_Family cd = f) compiledDefaults)"

fun ValidateResourceRequest :: "ResourceRequest \<Rightarrow> request_error option" where
  "ValidateResourceRequest [] = None"
| "ValidateResourceRequest ((rk, count) # rest) =
     (if rk \<notin> set AllResourceKinds then Some (UnknownResourceKind rk)
      else if count < 0 then Some (NegativeResourceRequest count rk)
      else ValidateResourceRequest rest)"

section \<open>Lemmas\<close>

lemma ValidateResourceRequest_None_iff:
  "ValidateResourceRequest req = None \<longleftrightarrow>
   (\<forall>(rk, count) \<in> set req. rk \<in> set AllResourceKinds \<and> 0 \<le> count)"
  by (induction req rule: ValidateResourceRequest.induct) auto

lemma init_resources_None_iff:
  "init_resources t rs = None \<longleftrightarrow>
   (\<forall>(rk, count) \<in> set rs. rk \<in> set AllResourceKinds \<and> 0 \<le> count)"
  by (induction t rs rule: init_resources.induct) auto

text \<open>What \<open>init\<close> requires of one entry of the table.\<close>

definition cd_ok :: "CompiledDefaults \<Rightarrow> bool" where
  "cd_ok cd \<longleftrightarrow> cd_TaskType cd \<noteq> [] \<and> cd_Family cd \<noteq> [] \<and> 0 \<le> cd_DefaultConcurrency cd \<and>
     1 \<le> cd_ProfileVersion cd \<and> init_resources (cd_TaskType cd) (cd_Resources cd) = None"

text \<open>
  \<open>init\<close> accepts exactly the tables of acceptable entries with distinct task types (its
  second argument holds the entries accepted so far), and then maps each task type to the
  descriptor of its entry.
\<close>

lemma registry_init_Inr:
  assumes "\<forall>cd \<in> set cds. cd_ok cd" "distinct (map cd_TaskType cds)"
    "\<forall>cd \<in> set cds. gget reg (cd_TaskType cd) = None"
  shows "\<exists>reg'. registry_init cds reg = Inr reg' \<and> (gmap_ok reg \<longrightarrow> gmap_ok reg') \<and>
    (\<forall>t. gget reg' t = (case find (\<lambda>cd. cd_TaskType cd = t) cds of
        None \<Rightarrow> gget reg t | Some cd \<Rightarrow> Some (descriptor_of cd)))"
  using assms
proof (induction cds arbitrary: reg)
  case (Cons cd cds)
  let ?reg = "gput (cd_TaskType cd) (descriptor_of cd) reg"
  have step: "registry_init (cd # cds) reg = registry_init cds ?reg"
    using Cons.prems by (auto simp: cd_ok_def)
  have "\<forall>cd' \<in> set cds. gget ?reg (cd_TaskType cd') = None"
    using Cons.prems by (auto simp: image_iff)
  then obtain reg' where IH: "registry_init cds ?reg = Inr reg'"
    "gmap_ok ?reg \<longrightarrow> gmap_ok reg'"
    "\<forall>t. gget reg' t = (case find (\<lambda>cd. cd_TaskType cd = t) cds of
        None \<Rightarrow> gget ?reg t | Some cd \<Rightarrow> Some (descriptor_of cd))"
    using Cons.IH [of ?reg] Cons.prems by auto
  have "find (\<lambda>cd'. cd_TaskType cd' = cd_TaskType cd) cds = None"
    using Cons.prems(2) by (auto simp: find_None_iff) (metis imageI)
  with IH show ?case
    unfolding step by (auto split: option.splits)
qed simp

lemma compiledDefaults_ok:
  "\<forall>cd \<in> set compiledDefaults. cd_ok cd" "distinct (map cd_TaskType compiledDefaults)"
  by code_simp+

lemma Registry_spec:
  "registry_init compiledDefaults [] = Inr Registry \<and> gmap_ok Registry \<and>
   (\<forall>t. gget Registry t =
      map_option descriptor_of (find (\<lambda>cd. cd_TaskType cd = t) compiledDefaults))"
proof -
  obtain reg where "registry_init compiledDefaults [] = Inr reg" "gmap_ok reg"
    "\<forall>t. gget reg t = (case find (\<lambda>cd. cd_TaskType cd = t) compiledDefaults of
        None \<Rightarrow> gget [] t | Some cd \<Rightarrow> Some (descriptor_of cd))"
    using registry_init_Inr [OF compiledDefaults_ok, of "[]"] by auto
  moreover from this have "Registry = reg" by (simp add: Registry_def)
  ultimately show ?thesis by (simp split: option.splits)
qed

lemmas Registry_init = Registry_spec [THEN conjunct1]
lemmas gmap_ok_Registry [simp] = Registry_spec [THEN conjunct2, THEN conjunct1]
lemmas gget_Registry_find = Registry_spec [THEN conjunct2, THEN conjunct2, rule_format]

lemma Registry_in_iff_Default:
  "gget Registry t = None \<longleftrightarrow> DefaultConcurrency t = None"
  by (simp add: gget_Registry_find DefaultConcurrency_def)

lemma DefaultConcurrency_nonneg: "DefaultConcurrency t = Some n \<Longrightarrow> 0 \<le> n"
  using compiledDefaults_ok(1) by (auto simp: DefaultConcurrency_def cd_ok_def dest!: find_set)

lemma Registry_resources:
  assumes "gget Registry t = Some d" "(rk, n) \<in> set (d_Resources d)"
  shows "rk \<in> set AllResourceKinds" "0 \<le> n"
proof -
  obtain cd where "find (\<lambda>cd. cd_TaskType cd = t) compiledDefaults = Some cd"
    and d: "d = descriptor_of cd"
    using assms(1) by (auto simp: gget_Registry_find)
  then have "cd_ok cd" using compiledDefaults_ok(1) by (auto dest: find_set)
  with assms(2) d show "rk \<in> set AllResourceKinds" "0 \<le> n"
    by (auto simp: cd_ok_def descriptor_of_def init_resources_None_iff)
qed

lemma Registry_resources_ok: "gget Registry t = Some d \<Longrightarrow> gmap_ok (d_Resources d)"
proof -
  assume "gget Registry t = Some d"
  then obtain cd where "find (\<lambda>cd. cd_TaskType cd = t) compiledDefaults = Some cd"
    and d: "d = descriptor_of cd"
    by (auto simp: gget_Registry_find)
  moreover have "\<forall>cd \<in> set compiledDefaults. gmap_ok (cd_Resources cd)" by code_simp
  ultimately show ?thesis by (auto simp: descriptor_of_def dest!: find_set)
qed

text \<open>No registered task type names a provider, so provider budgets never bind at present.\<close>

lemma Registry_no_provider: "gget Registry t = Some d \<Longrightarrow> d_Provider d = []"
proof -
  assume "gget Registry t = Some d"
  then obtain cd where "find (\<lambda>cd. cd_TaskType cd = t) compiledDefaults = Some cd"
    and d: "d = descriptor_of cd"
    by (auto simp: gget_Registry_find)
  moreover have "\<forall>cd \<in> set compiledDefaults. cd_Provider cd = []" by code_simp
  ultimately show ?thesis by (auto simp: descriptor_of_def dest!: find_set)
qed

end
