(* ===== verification/Sched_Policy.thy ===== *)
theory Sched_Policy
  imports Sched_Types
begin

text \<open>
  The effective scheduling policy: \<open>internal/scheduler/policy.go\<close> (compiled defaults, YAML and
  database overrides in increasing precedence, and \<open>Validate\<close>) and the pure part of
  \<open>internal/scheduler/service.go\<close> that rebuilds a policy from a persisted revision or from a
  runtime override request.  Methods with a pointer receiver return the updated policy.

  Limits and capacities are Go \<open>int\<close> values that are only compared and added within the range
  of one configuration; they are \<open>int\<close> here.
\<close>

section \<open>policy.go\<close>

record Policy =
  TypeConcurrency :: "(string, int) gmap"
  ResourceCapacity :: "(ResourceKind, int) gmap"
  ProviderCapacity :: "(string, int) gmap"
  AgingIntervalSec :: int
  AgingStep :: int
  RunNowAmount :: int
  RunNowTTLSec :: int
  Provenance :: "(string, string) gmap"
  YAMLConcurrency :: "(string, int) gmap"
  Overrides :: "(string, int) gmap"

text \<open>The YAML section; a pointer field is absent when it is \<open>None\<close>.\<close>

record SchedulerYAMLConfig =
  y_TypeConcurrency :: "(string, int) gmap"
  y_ResourceCapacity :: "(string, int) gmap"
  y_ProviderCapacity :: "(string, int) gmap"
  y_AgingIntervalSec :: "int option"
  y_AgingStep :: "int option"
  y_RunNowAmount :: "int option"
  y_RunNowTTLSec :: "int option"

text \<open>The loop that records the source of every key of a map.\<close>

definition mark_keys ::
  "string \<Rightarrow> string \<Rightarrow> (string, 'v) gmap \<Rightarrow> (string, string) gmap \<Rightarrow> (string, string) gmap" where
  "mark_keys pfx source m prov = foldl (\<lambda>prov (k, v). gput (pfx @ k) source prov) prov m"

definition PolicyDefaults :: Policy where
  "PolicyDefaults =
     (let named = List.map_filter
            (\<lambda>(name, desc). map_option (Pair name) (DefaultConcurrency name)) Registry
      in \<lparr>TypeConcurrency = gputs named [], ResourceCapacity = [], ProviderCapacity = [],
          AgingIntervalSec = 300, AgingStep = 1, RunNowAmount = 100, RunNowTTLSec = 600,
          Provenance = mark_keys ''concurrency.'' ''default'' named [],
          YAMLConcurrency = [], Overrides = []\<rparr>)"

text \<open>\<open>if cfg.X != nil { p.X = *cfg.X; p.Provenance[key] = "yaml" }\<close>\<close>

definition set_priority ::
  "((int \<Rightarrow> int) \<Rightarrow> Policy \<Rightarrow> Policy) \<Rightarrow> string \<Rightarrow> string \<Rightarrow> int option \<Rightarrow> Policy \<Rightarrow> Policy" where
  "set_priority upd key source v p =
     (case v of None \<Rightarrow> p
      | Some n \<Rightarrow> (upd (\<lambda>_. n) p)\<lparr>Provenance := gput key source (Provenance p)\<rparr>)"

definition MergeYAML :: "SchedulerYAMLConfig \<Rightarrow> Policy \<Rightarrow> Policy" where
  "MergeYAML cfg p0 =
     (let p1 = p0\<lparr>TypeConcurrency := gputs (y_TypeConcurrency cfg) (TypeConcurrency p0),
                  YAMLConcurrency := gputs (y_TypeConcurrency cfg) (YAMLConcurrency p0),
                  Provenance := mark_keys ''concurrency.'' ''yaml'' (y_TypeConcurrency cfg)
                                  (Provenance p0)\<rparr>;
          p2 = p1\<lparr>ResourceCapacity := gputs (y_ResourceCapacity cfg) (ResourceCapacity p1),
                  Provenance := mark_keys ''resource.'' ''yaml'' (y_ResourceCapacity cfg)
                                  (Provenance p1)\<rparr>;
          p3 = p2\<lparr>ProviderCapacity := gputs (y_ProviderCapacity cfg) (ProviderCapacity p2),
                  Provenance := mark_keys ''provider.'' ''yaml'' (y_ProviderCapacity cfg)
                                  (Provenance p2)\<rparr>;
          p4 = set_priority AgingIntervalSec_update ''priority.aging_interval_sec'' ''yaml''
                 (y_AgingIntervalSec cfg) p3;
          p5 = set_priority AgingStep_update ''priority.aging_step'' ''yaml''
                 (y_AgingStep cfg) p4;
          p6 = set_priority RunNowAmount_update ''priority.run_now_amount'' ''yaml''
                 (y_RunNowAmount cfg) p5
      in set_priority RunNowTTLSec_update ''priority.run_now_ttl_sec'' ''yaml''
           (y_RunNowTTLSec cfg) p6)"

definition MergeOverrides :: "(string, int) gmap \<Rightarrow> Policy \<Rightarrow> Policy" where
  "MergeOverrides overrides p =
     p\<lparr>TypeConcurrency := gputs overrides (TypeConcurrency p),
       Overrides := gputs overrides (Overrides p),
       Provenance := mark_keys ''concurrency.'' ''override'' overrides (Provenance p)\<rparr>"

definition ClearOverride :: "string \<Rightarrow> Policy \<Rightarrow> Policy" where
  "ClearOverride taskType p0 =
     (let p = p0\<lparr>Overrides := gdel taskType (Overrides p0)\<rparr>;
          key = ''concurrency.'' @ taskType
      in case gget (YAMLConcurrency p) taskType of
           Some yamlVal \<Rightarrow>
             p\<lparr>TypeConcurrency := gput taskType yamlVal (TypeConcurrency p),
               Provenance := gput key ''yaml'' (Provenance p)\<rparr>
         | None \<Rightarrow>
             (case DefaultConcurrency taskType of
                Some def \<Rightarrow>
                  p\<lparr>TypeConcurrency := gput taskType def (TypeConcurrency p),
                    Provenance := gput key ''default'' (Provenance p)\<rparr>
              | None \<Rightarrow>
                  p\<lparr>TypeConcurrency := gdel taskType (TypeConcurrency p),
                    Provenance := gdel key (Provenance p)\<rparr>))"

datatype policy_error =
    NoConcurrencyLimit string
  | NegativeTypeConcurrency string int
  | UnknownConcurrencyType string
  | UnknownCapacityKind ResourceKind
  | NegativeResourceCapacity ResourceKind int
  | NegativeProviderCapacity string int
  | AgingIntervalNotPositive int
  | AgingStepNotPositive int
  | RunNowAmountNotPositive int
  | RunNowTTLNotPositive int

definition Validate :: "Policy \<Rightarrow> policy_error option" where
  "Validate p = first_some
     [first_error (\<lambda>(name, desc). case gget (TypeConcurrency p) name of
          None \<Rightarrow> Some (NoConcurrencyLimit name)
        | Some limit \<Rightarrow> if limit < 0 then Some (NegativeTypeConcurrency name limit) else None)
        Registry,
      first_error (\<lambda>(name, n). if gget Registry name = None
          then Some (UnknownConcurrencyType name) else None) (TypeConcurrency p),
      first_error (\<lambda>(rk, cap). if rk \<notin> set AllResourceKinds then Some (UnknownCapacityKind rk)
          else if cap < 0 then Some (NegativeResourceCapacity rk cap) else None)
        (ResourceCapacity p),
      first_error (\<lambda>(pk, cap). if cap < 0 then Some (NegativeProviderCapacity pk cap) else None)
        (ProviderCapacity p),
      if AgingIntervalSec p \<le> 0 then Some (AgingIntervalNotPositive (AgingIntervalSec p)) else None,
      if AgingStep p \<le> 0 then Some (AgingStepNotPositive (AgingStep p)) else None,
      if RunNowAmount p \<le> 0 then Some (RunNowAmountNotPositive (RunNowAmount p)) else None,
      if RunNowTTLSec p \<le> 0 then Some (RunNowTTLNotPositive (RunNowTTLSec p)) else None]"

section \<open>service.go: policies from persisted revisions\<close>

record persistedPolicyJSON =
  j_TypeConcurrency :: "(string, int) gmap"
  j_ResourceCapacity :: "(string, int) gmap"
  j_ProviderCapacity :: "(string, int) gmap"
  j_AgingIntervalSec :: int
  j_AgingStep :: int
  j_RunNowAmount :: int
  j_RunNowTTLSec :: int
  j_Overrides :: "(string, int) gmap"

text \<open>The entries a loop with \<open>continue\<close> keeps.\<close>

definition known_limits :: "(string, int) gmap \<Rightarrow> (string, int) gmap" where
  "known_limits m = filter (\<lambda>(typ, val). gget Registry typ \<noteq> None \<and> \<not> val < 0) m"

definition known_caps :: "(string, int) gmap \<Rightarrow> (string, int) gmap" where
  "known_caps m = filter (\<lambda>(rk, cap). rk \<in> set AllResourceKinds \<and> \<not> cap < 0) m"

definition nonneg_caps :: "(string, int) gmap \<Rightarrow> (string, int) gmap" where
  "nonneg_caps m = filter (\<lambda>(pk, cap). \<not> cap < 0) m"

definition policyFromRevisionJSON :: "persistedPolicyJSON \<Rightarrow> Policy" where
  "policyFromRevisionJSON j =
     (let p0 = PolicyDefaults;
          p1 = p0\<lparr>TypeConcurrency := gputs (known_limits (j_TypeConcurrency j)) (TypeConcurrency p0),
                  ResourceCapacity := gputs (known_caps (j_ResourceCapacity j)) [],
                  ProviderCapacity := j_ProviderCapacity j\<rparr>;
          p2 = p1\<lparr>AgingIntervalSec := (if j_AgingIntervalSec j > 0 then j_AgingIntervalSec j
                                       else AgingIntervalSec p1),
                  AgingStep := (if j_AgingStep j > 0 then j_AgingStep j else AgingStep p1),
                  RunNowAmount := (if j_RunNowAmount j > 0 then j_RunNowAmount j
                                   else RunNowAmount p1),
                  RunNowTTLSec := (if j_RunNowTTLSec j > 0 then j_RunNowTTLSec j
                                   else RunNowTTLSec p1),
                  Overrides := j_Overrides j\<rparr>
      in p2\<lparr>Provenance := mark_keys ''concurrency.'' ''override''
              (filter (\<lambda>(typ, val). gget Registry typ \<noteq> None) (Overrides p2)) (Provenance p2)\<rparr>)"

text \<open>One layered priority value, with the closure \<open>layerPriority\<close>.\<close>

definition layer_priority ::
  "((int \<Rightarrow> int) \<Rightarrow> Policy \<Rightarrow> Policy) \<Rightarrow> string \<Rightarrow> int \<Rightarrow> int \<Rightarrow> Policy \<Rightarrow> Policy" where
  "layer_priority upd key val baseVal p =
     (if val > 0 then
        (let p' = upd (\<lambda>_. val) p
         in if val > 0 \<and> val \<noteq> baseVal
            then p'\<lparr>Provenance := gput key ''override'' (Provenance p')\<rparr> else p')
      else p)"

definition rebuildEffective :: "Policy \<Rightarrow> persistedPolicyJSON \<Rightarrow> Policy" where
  "rebuildEffective base j =
     (let lims = known_limits (j_Overrides j);
          p1 = base\<lparr>Overrides := j_Overrides j,
                    TypeConcurrency := gputs lims (TypeConcurrency base),
                    Provenance := mark_keys ''concurrency.'' ''override'' lims (Provenance base)\<rparr>;
          caps = known_caps (j_ResourceCapacity j);
          p2 = p1\<lparr>ResourceCapacity := gputs caps (ResourceCapacity p1),
                  Provenance := mark_keys ''resource.'' ''override''
                    (filter (\<lambda>(rk, cap). gget (ResourceCapacity base) rk \<noteq> Some cap) caps)
                    (Provenance p1)\<rparr>;
          pcaps = nonneg_caps (j_ProviderCapacity j);
          p3 = p2\<lparr>ProviderCapacity := gputs pcaps (ProviderCapacity p2),
                  Provenance := mark_keys ''provider.'' ''override''
                    (filter (\<lambda>(pk, cap). gget (ProviderCapacity base) pk \<noteq> Some cap) pcaps)
                    (Provenance p2)\<rparr>;
          p4 = layer_priority AgingIntervalSec_update ''priority.aging_interval_sec''
                 (j_AgingIntervalSec j) (AgingIntervalSec base) p3;
          p5 = layer_priority AgingStep_update ''priority.aging_step''
                 (j_AgingStep j) (AgingStep base) p4;
          p6 = layer_priority RunNowAmount_update ''priority.run_now_amount''
                 (j_RunNowAmount j) (RunNowAmount base) p5
      in layer_priority RunNowTTLSec_update ''priority.run_now_ttl_sec''
           (j_RunNowTTLSec j) (RunNowTTLSec base) p6)"

definition EncodePolicyJSON :: "Policy \<Rightarrow> persistedPolicyJSON" where
  "EncodePolicyJSON p =
     \<lparr>j_TypeConcurrency = TypeConcurrency p,
      j_ResourceCapacity = gputs (ResourceCapacity p) [],
      j_ProviderCapacity = ProviderCapacity p,
      j_AgingIntervalSec = AgingIntervalSec p, j_AgingStep = AgingStep p,
      j_RunNowAmount = RunNowAmount p, j_RunNowTTLSec = RunNowTTLSec p,
      j_Overrides = Overrides p\<rparr>"

section \<open>service.go: policies from runtime override requests\<close>

record RuntimeOverrideRequest =
  r_ExpectedRevision :: int
  r_Replace :: bool
  r_Concurrency :: "(string, int) gmap"
  r_ClearConcurrency :: "string list"
  r_ResourceCapacity :: "(string, int) gmap option"
  r_ProviderCapacity :: "(string, int) gmap option"
  r_AgingIntervalSec :: "int option"
  r_AgingStep :: "int option"
  r_RunNowAmount :: "int option"
  r_RunNowTTLSec :: "int option"
  r_Author :: string
  r_Reason :: string

definition normalizeRuntimeOverrideRequest ::
  "RuntimeOverrideRequest \<Rightarrow> RuntimeOverrideRequest" where
  "normalizeRuntimeOverrideRequest req =
     (let author = TrimSpace (r_Author req); reason = TrimSpace (r_Reason req)
      in req\<lparr>r_Author := (if author = [] then ''system'' else author),
             r_Reason := (if reason = [] then ''runtime override'' else reason)\<rparr>)"

definition applyConcurrencyOverridesLayer :: "Policy \<Rightarrow> (string, int) gmap \<Rightarrow> Policy" where
  "applyConcurrencyOverridesLayer p overrides =
     (let lims = known_limits overrides
      in p\<lparr>Overrides := overrides,
           TypeConcurrency := gputs lims (TypeConcurrency p),
           Provenance := mark_keys ''concurrency.'' ''override'' lims (Provenance p)\<rparr>)"

text \<open>The new override layer: PUT replaces, PATCH merges and clears; unknown types are dropped.\<close>

definition override_layer :: "Policy \<Rightarrow> RuntimeOverrideRequest \<Rightarrow> (string, int) gmap" where
  "override_layer current req =
     (let merged = (if r_Replace req then gputs (r_Concurrency req) []
                    else fold gdel (r_ClearConcurrency req)
                           (gputs (r_Concurrency req) (gputs (Overrides current) [])))
      in filter (\<lambda>(k, v). gget Registry k \<noteq> None) merged)"

datatype override_error =
    OvUnknownType string
  | OvNegativeConcurrency string int
  | OvUnknownResource string
  | OvNegativeResource string int
  | OvNegativeProvider string int
  | OvPolicy policy_error

definition override_errors :: "RuntimeOverrideRequest \<Rightarrow> override_error list" where
  "override_errors req =
     List.map_filter (\<lambda>(k, v). if gget Registry k = None then Some (OvUnknownType k)
         else if v < 0 then Some (OvNegativeConcurrency k v) else None) (r_Concurrency req) @
     (case r_ResourceCapacity req of None \<Rightarrow> [] | Some m \<Rightarrow>
       List.map_filter (\<lambda>(rk, cap). if rk \<notin> set AllResourceKinds then Some (OvUnknownResource rk)
         else if cap < 0 then Some (OvNegativeResource rk cap) else None) m) @
     (case r_ProviderCapacity req of None \<Rightarrow> [] | Some m \<Rightarrow>
       List.map_filter (\<lambda>(pk, cap). if cap < 0 then Some (OvNegativeProvider pk cap) else None) m)"

definition override_policy :: "Policy \<Rightarrow> Policy \<Rightarrow> RuntimeOverrideRequest \<Rightarrow> Policy" where
  "override_policy base current req =
     (let p1 = applyConcurrencyOverridesLayer base (override_layer current req);
          p2 = (case r_ResourceCapacity req of None \<Rightarrow> p1 | Some m \<Rightarrow>
                  p1\<lparr>ResourceCapacity := gputs (known_caps m) [],
                     Provenance := mark_keys ''resource.'' ''override'' (known_caps m)
                       (Provenance p1)\<rparr>);
          p3 = (case r_ProviderCapacity req of None \<Rightarrow> p2 | Some m \<Rightarrow>
                  p2\<lparr>ProviderCapacity := gputs (nonneg_caps m) [],
                     Provenance := mark_keys ''provider.'' ''override'' (nonneg_caps m)
                       (Provenance p2)\<rparr>);
          p4 = set_priority AgingIntervalSec_update ''priority.aging_interval_sec'' ''override''
                 (r_AgingIntervalSec req) p3;
          p5 = set_priority AgingStep_update ''priority.aging_step'' ''override''
                 (r_AgingStep req) p4;
          p6 = set_priority RunNowAmount_update ''priority.run_now_amount'' ''override''
                 (r_RunNowAmount req) p5
      in set_priority RunNowTTLSec_update ''priority.run_now_ttl_sec'' ''override''
           (r_RunNowTTLSec req) p6)"

section \<open>Lemmas\<close>

lemma gget_mark_keys [simp]:
  "gget (mark_keys pfx source m prov) key =
   (if \<exists>k \<in> fst ` set m. key = pfx @ k then Some source else gget prov key)"
  unfolding mark_keys_def by (induction m arbitrary: prov) auto

lemma PolicyDefaults_fields [simp]:
  "gget (TypeConcurrency PolicyDefaults) t = DefaultConcurrency t"
  "gmap_ok (TypeConcurrency PolicyDefaults)"
  "ResourceCapacity PolicyDefaults = []" "ProviderCapacity PolicyDefaults = []"
  "YAMLConcurrency PolicyDefaults = []" "Overrides PolicyDefaults = []"
  "AgingIntervalSec PolicyDefaults = 300" "AgingStep PolicyDefaults = 1"
  "RunNowAmount PolicyDefaults = 100" "RunNowTTLSec PolicyDefaults = 600"
  by (simp_all add: PolicyDefaults_def Let_def gget_gputs gmap_ok_gputs gmap_ok_map_filter
      gget_map_filter Registry_in_iff_Default split: option.splits)

lemma set_priority_frame [simp]:
  "set_priority AgingIntervalSec_update key src v p =
     p\<lparr>AgingIntervalSec := (case v of None \<Rightarrow> AgingIntervalSec p | Some n \<Rightarrow> n),
       Provenance := (case v of None \<Rightarrow> Provenance p | Some n \<Rightarrow> gput key src (Provenance p))\<rparr>"
  "set_priority AgingStep_update key src v p =
     p\<lparr>AgingStep := (case v of None \<Rightarrow> AgingStep p | Some n \<Rightarrow> n),
       Provenance := (case v of None \<Rightarrow> Provenance p | Some n \<Rightarrow> gput key src (Provenance p))\<rparr>"
  "set_priority RunNowAmount_update key src v p =
     p\<lparr>RunNowAmount := (case v of None \<Rightarrow> RunNowAmount p | Some n \<Rightarrow> n),
       Provenance := (case v of None \<Rightarrow> Provenance p | Some n \<Rightarrow> gput key src (Provenance p))\<rparr>"
  "set_priority RunNowTTLSec_update key src v p =
     p\<lparr>RunNowTTLSec := (case v of None \<Rightarrow> RunNowTTLSec p | Some n \<Rightarrow> n),
       Provenance := (case v of None \<Rightarrow> Provenance p | Some n \<Rightarrow> gput key src (Provenance p))\<rparr>"
  by (auto simp: set_priority_def split: option.splits)

lemma gmap_all_keys: "(\<forall>x \<in> set m. P (fst x)) \<longleftrightarrow> (\<forall>k. gget m k \<noteq> None \<longrightarrow> P k)"
  by (auto simp: gget_None_iff)

lemma Validate_None_iff:
  assumes "gmap_ok (TypeConcurrency p)"
  shows "Validate p = None \<longleftrightarrow>
    (\<forall>t. gget Registry t \<noteq> None \<longleftrightarrow> gget (TypeConcurrency p) t \<noteq> None) \<and>
    (\<forall>t n. gget (TypeConcurrency p) t = Some n \<longrightarrow> 0 \<le> n) \<and>
    (\<forall>(rk, c) \<in> set (ResourceCapacity p). rk \<in> set AllResourceKinds \<and> 0 \<le> c) \<and>
    (\<forall>(pk, c) \<in> set (ProviderCapacity p). 0 \<le> c) \<and>
    0 < AgingIntervalSec p \<and> 0 < AgingStep p \<and> 0 < RunNowAmount p \<and> 0 < RunNowTTLSec p"
proof -
  have 1: "first_error (\<lambda>(name, desc). case gget (TypeConcurrency p) name of
          None \<Rightarrow> Some (NoConcurrencyLimit name)
        | Some limit \<Rightarrow> if limit < 0 then Some (NegativeTypeConcurrency name limit) else None)
      Registry = None \<longleftrightarrow>
    (\<forall>t. gget Registry t \<noteq> None \<longrightarrow> (\<exists>n. gget (TypeConcurrency p) t = Some n \<and> 0 \<le> n))"
    unfolding gmap_all_keys [symmetric, where P = "\<lambda>t. \<exists>n. gget (TypeConcurrency p) t = Some n \<and> 0 \<le> n"]
      first_error_None_iff
    by (intro ball_cong) (auto split: option.splits if_splits)
  have 2: "first_error (\<lambda>(name, n). if gget Registry name = None
          then Some (UnknownConcurrencyType name) else None) (TypeConcurrency p) = None \<longleftrightarrow>
    (\<forall>t. gget (TypeConcurrency p) t \<noteq> None \<longrightarrow> gget Registry t \<noteq> None)"
    unfolding gmap_all_keys [symmetric, where P = "\<lambda>t. gget Registry t \<noteq> None"]
      first_error_None_iff
    by (intro ball_cong) (auto split: if_splits)
  have 3: "first_error (\<lambda>(rk, cap). if rk \<notin> set AllResourceKinds then Some (UnknownCapacityKind rk)
          else if cap < 0 then Some (NegativeResourceCapacity rk cap) else None)
        (ResourceCapacity p) = None \<longleftrightarrow>
    (\<forall>(rk, c) \<in> set (ResourceCapacity p). rk \<in> set AllResourceKinds \<and> 0 \<le> c)"
    unfolding first_error_None_iff by (intro ball_cong) (auto split: if_splits)
  have 4: "first_error (\<lambda>(pk, cap). if cap < 0 then Some (NegativeProviderCapacity pk cap) else None)
        (ProviderCapacity p) = None \<longleftrightarrow> (\<forall>(pk, c) \<in> set (ProviderCapacity p). 0 \<le> c)"
    unfolding first_error_None_iff by (intro ball_cong) (auto split: if_splits)
  have first_some: "first_some [a, b, c, d, e, f, g, h] = None \<longleftrightarrow>
      a = None \<and> b = None \<and> c = None \<and> d = None \<and> e = None \<and> f = None \<and> g = None \<and> h = None"
    for a b c d e f g h :: "policy_error option"
    unfolding first_error_None_iff by simp
  show ?thesis
    unfolding Validate_def first_some 1 2 3 4 by (auto simp: not_le; metis option.inject option.distinct)
qed

lemma MergeYAML_fields [simp]:
  "TypeConcurrency (MergeYAML cfg p) = gputs (y_TypeConcurrency cfg) (TypeConcurrency p)"
  "YAMLConcurrency (MergeYAML cfg p) = gputs (y_TypeConcurrency cfg) (YAMLConcurrency p)"
  "ResourceCapacity (MergeYAML cfg p) = gputs (y_ResourceCapacity cfg) (ResourceCapacity p)"
  "ProviderCapacity (MergeYAML cfg p) = gputs (y_ProviderCapacity cfg) (ProviderCapacity p)"
  "Overrides (MergeYAML cfg p) = Overrides p"
  by (simp_all add: MergeYAML_def Let_def)

lemma MergeOverrides_fields [simp]:
  "TypeConcurrency (MergeOverrides ovr p) = gputs ovr (TypeConcurrency p)"
  "YAMLConcurrency (MergeOverrides ovr p) = YAMLConcurrency p"
  "Overrides (MergeOverrides ovr p) = gputs ovr (Overrides p)"
  by (simp_all add: MergeOverrides_def)

section \<open>Properties\<close>

text \<open>Layering precedence.  After start-up has merged the YAML section and the database
  overrides over the compiled defaults, the concurrency limit of a task type is the override
  if there is one, else the YAML value, else the compiled default.\<close>
theorem effective_concurrency:
  assumes "gmap_ok (y_TypeConcurrency cfg)" "gmap_ok ovr"
  shows "gget (TypeConcurrency (MergeOverrides ovr (MergeYAML cfg PolicyDefaults))) t =
    (case gget ovr t of Some v \<Rightarrow> Some v | None \<Rightarrow>
       (case gget (y_TypeConcurrency cfg) t of Some v \<Rightarrow> Some v | None \<Rightarrow> DefaultConcurrency t))"
  using assms by (simp add: gget_gputs split: option.splits)

theorem effective_concurrency_witness:
  "gget (TypeConcurrency (MergeOverrides [(''scan'', 7)] (MergeYAML
      \<lparr>y_TypeConcurrency = [(''scan'', 4), (''poster'', 5)], y_ResourceCapacity = [],
       y_ProviderCapacity = [], y_AgingIntervalSec = None, y_AgingStep = None,
       y_RunNowAmount = None, y_RunNowTTLSec = None\<rparr> PolicyDefaults))) ''poster'' = Some 5"
  by (subst effective_concurrency) (simp_all add: gmap_ok_def gget_def)

text \<open>C32: clearing an override undoes it.  \<open>ClearOverride t\<close> gives every task type the limit
  it would have if the overrides had been merged without \<open>t\<close>, and removes exactly \<open>t\<close> from
  the override layer.\<close>
theorem ClearOverride_restores:
  assumes "gmap_ok (y_TypeConcurrency cfg)" "gmap_ok ovr"
  defines "p \<equiv> MergeOverrides ovr (MergeYAML cfg PolicyDefaults)"
  shows "gget (TypeConcurrency (ClearOverride t p)) u =
      gget (TypeConcurrency (MergeOverrides (gdel t ovr) (MergeYAML cfg PolicyDefaults))) u \<and>
    gget (Overrides (ClearOverride t p)) u = (if u = t then None else gget ovr u)"
  using assms
  by (auto simp: ClearOverride_def Let_def gget_gputs split: option.splits)

theorem ClearOverride_restores_witness:
  "gget (TypeConcurrency (ClearOverride ''scan'' (MergeOverrides [(''scan'', 7)] (MergeYAML
      \<lparr>y_TypeConcurrency = [(''scan'', 4)], y_ResourceCapacity = [],
       y_ProviderCapacity = [], y_AgingIntervalSec = None, y_AgingStep = None,
       y_RunNowAmount = None, y_RunNowTTLSec = None\<rparr> PolicyDefaults)))) ''scan'' = Some 4"
  by (subst ClearOverride_restores [THEN conjunct1])
    (simp_all add: gmap_ok_def gget_gputs gget_Cons gdel_def)

lemma gget_gputs_None: "gget (gputs src dst) k = None \<longleftrightarrow> gget src k = None \<and> gget dst k = None"
  unfolding gputs_def
proof (induction src arbitrary: dst)
  case (Cons kv src)
  then show ?case by (cases kv) (simp add: gget_Cons)
qed simp

lemma set_gputs: "set (gputs src dst) \<subseteq> set src \<union> set dst"
  unfolding gputs_def
proof (induction src arbitrary: dst)
  case (Cons kv src)
  then show ?case using set_gput [of "fst kv" "snd kv" dst] by (cases kv) fastforce
qed simp

lemma override_policy_fields [simp]:
  "TypeConcurrency (override_policy base current req) =
     gputs (known_limits (override_layer current req)) (TypeConcurrency base)"
  "Overrides (override_policy base current req) = override_layer current req"
  "ResourceCapacity (override_policy base current req) =
     (case r_ResourceCapacity req of None \<Rightarrow> ResourceCapacity base
      | Some m \<Rightarrow> gputs (known_caps m) [])"
  "ProviderCapacity (override_policy base current req) =
     (case r_ProviderCapacity req of None \<Rightarrow> ProviderCapacity base
      | Some m \<Rightarrow> gputs (nonneg_caps m) [])"
  "AgingIntervalSec (override_policy base current req) =
     (case r_AgingIntervalSec req of None \<Rightarrow> AgingIntervalSec base | Some n \<Rightarrow> n)"
  "AgingStep (override_policy base current req) =
     (case r_AgingStep req of None \<Rightarrow> AgingStep base | Some n \<Rightarrow> n)"
  "RunNowAmount (override_policy base current req) =
     (case r_RunNowAmount req of None \<Rightarrow> RunNowAmount base | Some n \<Rightarrow> n)"
  "RunNowTTLSec (override_policy base current req) =
     (case r_RunNowTTLSec req of None \<Rightarrow> RunNowTTLSec base | Some n \<Rightarrow> n)"
  by (simp_all add: override_policy_def applyConcurrencyOverridesLayer_def Let_def
      split: option.splits)

lemma layer_priority_frame [simp]:
  "layer_priority AgingIntervalSec_update key val b p =
     p\<lparr>AgingIntervalSec := (if val > 0 then val else AgingIntervalSec p),
       Provenance := (if val > 0 \<and> val \<noteq> b then gput key ''override'' (Provenance p)
                      else Provenance p)\<rparr>"
  "layer_priority AgingStep_update key val b p =
     p\<lparr>AgingStep := (if val > 0 then val else AgingStep p),
       Provenance := (if val > 0 \<and> val \<noteq> b then gput key ''override'' (Provenance p)
                      else Provenance p)\<rparr>"
  "layer_priority RunNowAmount_update key val b p =
     p\<lparr>RunNowAmount := (if val > 0 then val else RunNowAmount p),
       Provenance := (if val > 0 \<and> val \<noteq> b then gput key ''override'' (Provenance p)
                      else Provenance p)\<rparr>"
  "layer_priority RunNowTTLSec_update key val b p =
     p\<lparr>RunNowTTLSec := (if val > 0 then val else RunNowTTLSec p),
       Provenance := (if val > 0 \<and> val \<noteq> b then gput key ''override'' (Provenance p)
                      else Provenance p)\<rparr>"
  by (simp_all add: layer_priority_def Let_def)

lemma rebuildEffective_fields [simp]:
  "TypeConcurrency (rebuildEffective base j) =
     gputs (known_limits (j_Overrides j)) (TypeConcurrency base)"
  "Overrides (rebuildEffective base j) = j_Overrides j"
  "ResourceCapacity (rebuildEffective base j) =
     gputs (known_caps (j_ResourceCapacity j)) (ResourceCapacity base)"
  "ProviderCapacity (rebuildEffective base j) =
     gputs (nonneg_caps (j_ProviderCapacity j)) (ProviderCapacity base)"
  "AgingIntervalSec (rebuildEffective base j) =
     (if j_AgingIntervalSec j > 0 then j_AgingIntervalSec j else AgingIntervalSec base)"
  "AgingStep (rebuildEffective base j) =
     (if j_AgingStep j > 0 then j_AgingStep j else AgingStep base)"
  "RunNowAmount (rebuildEffective base j) =
     (if j_RunNowAmount j > 0 then j_RunNowAmount j else RunNowAmount base)"
  "RunNowTTLSec (rebuildEffective base j) =
     (if j_RunNowTTLSec j > 0 then j_RunNowTTLSec j else RunNowTTLSec base)"
  by (simp_all add: rebuildEffective_def Let_def)

lemma EncodePolicyJSON_fields [simp]:
  "j_Overrides (EncodePolicyJSON p) = Overrides p"
  "j_ResourceCapacity (EncodePolicyJSON p) = gputs (ResourceCapacity p) []"
  "j_ProviderCapacity (EncodePolicyJSON p) = ProviderCapacity p"
  "j_AgingIntervalSec (EncodePolicyJSON p) = AgingIntervalSec p"
  "j_AgingStep (EncodePolicyJSON p) = AgingStep p"
  "j_RunNowAmount (EncodePolicyJSON p) = RunNowAmount p"
  "j_RunNowTTLSec (EncodePolicyJSON p) = RunNowTTLSec p"
  by (simp_all add: EncodePolicyJSON_def)

lemma gput_same: "gmap_ok m \<Longrightarrow> gget m k = Some v \<Longrightarrow> gput k v m = m"
  unfolding gput_def gget_def gmap_ok_def by (induction m) (auto dest: map_of_SomeD)

definition example_request :: RuntimeOverrideRequest where
  "example_request =
     \<lparr>r_ExpectedRevision = -1, r_Replace = False, r_Concurrency = [(''scan'', 2)],
      r_ClearConcurrency = [''poster''], r_ResourceCapacity = None,
      r_ProviderCapacity = None, r_AgingIntervalSec = Some 60, r_AgingStep = None,
      r_RunNowAmount = None, r_RunNowTTLSec = None, r_Author = ''ops'', r_Reason = ''test''\<rparr>"

definition example_base :: Policy where
  "example_base = PolicyDefaults\<lparr>ResourceCapacity := [(''cpu'', 4)]\<rparr>"

lemma Validate_PolicyDefaults: "Validate PolicyDefaults = None"
  by (simp add: Validate_None_iff Registry_in_iff_Default DefaultConcurrency_nonneg)

lemma example_base_ok:
  "Validate example_base = None" "gmap_ok (TypeConcurrency example_base)"
  "gmap_ok (ResourceCapacity example_base)" "gmap_ok (ProviderCapacity example_base)"
  "gmap_ok (Overrides example_base)" "gmap_ok (r_Concurrency example_request)"
  by (simp_all add: example_base_def example_request_def Validate_None_iff gmap_ok_Cons
      Registry_in_iff_Default DefaultConcurrency_nonneg AllResourceKinds_def)

text \<open>The final validation of a runtime override can only fail on its priority settings.
  If the base policy is valid and the priority settings that the request carries are positive,
  then the policy that \<open>ApplyRuntimeOverride\<close> computes passes \<open>Validate\<close>, whatever limits,
  capacities and cleared types the request names.\<close>
lemma override_policy_valid:
  assumes "gmap_ok (TypeConcurrency base)" and valid: "Validate base = None"
    and "\<forall>n \<in> set_option (r_AgingIntervalSec req). 0 < n"
    and "\<forall>n \<in> set_option (r_AgingStep req). 0 < n"
    and "\<forall>n \<in> set_option (r_RunNowAmount req). 0 < n"
    and "\<forall>n \<in> set_option (r_RunNowTTLSec req). 0 < n"
  shows "Validate (override_policy base current req) = None"
proof -
  let ?p = "override_policy base current req"
  let ?lims = "known_limits (override_layer current req)"
  have lims: "\<forall>(k, v) \<in> set ?lims. gget Registry k \<noteq> None \<and> 0 \<le> v"
    by (auto simp: known_limits_def)
  note base = valid [unfolded Validate_None_iff [OF assms(1)]]
  have ok: "gmap_ok (TypeConcurrency ?p)" using assms(1) by (simp add: gmap_ok_gputs)
  have "gget ?lims t \<noteq> None \<Longrightarrow> gget Registry t \<noteq> None" for t
    using lims by (auto dest: gget_SomeD)
  then have dom: "\<forall>t. gget Registry t \<noteq> None \<longleftrightarrow> gget (TypeConcurrency ?p) t \<noteq> None"
    using base [THEN conjunct1] by (metis gget_gputs_None override_policy_fields(1))
  have nonneg: "\<forall>t n. gget (TypeConcurrency ?p) t = Some n \<longrightarrow> 0 \<le> n"
  proof (intro allI impI)
    fix t n assume "gget (TypeConcurrency ?p) t = Some n"
    from gget_SomeD [OF this] set_gputs [of ?lims "TypeConcurrency base"]
    have "(t, n) \<in> set ?lims \<or> gget (TypeConcurrency base) t = Some n"
      by (auto simp: gget_Some_iff [OF assms(1)])
    then show "0 \<le> n" using lims base [THEN conjunct2, THEN conjunct1] by blast
  qed
  have rc: "\<forall>(rk, c) \<in> set (ResourceCapacity ?p). rk \<in> set AllResourceKinds \<and> 0 \<le> c"
    using base set_gputs [of "known_caps (the (r_ResourceCapacity req))" "[]"]
    by (cases "r_ResourceCapacity req") (fastforce simp: known_caps_def)+
  have pc: "\<forall>(pk, c) \<in> set (ProviderCapacity ?p). 0 \<le> c"
    using base set_gputs [of "nonneg_caps (the (r_ProviderCapacity req))" "[]"]
    by (cases "r_ProviderCapacity req") (fastforce simp: nonneg_caps_def)+
  have prio: "0 < AgingIntervalSec ?p" "0 < AgingStep ?p" "0 < RunNowAmount ?p"
    "0 < RunNowTTLSec ?p"
    using base assms(3-6) by (auto split: option.splits)
  from dom nonneg rc pc prio show ?thesis
    by (simp only: Validate_None_iff [OF ok] simp_thms)
qed

text \<open>Rebuilding the policy from the payload of an override gives the policy that was installed.\<close>

lemma reload_agrees:
  assumes "gmap_ok (TypeConcurrency base)" "gmap_ok (ResourceCapacity base)"
    "gmap_ok (ProviderCapacity base)" "gmap_ok (Overrides current)" "gmap_ok (r_Concurrency req)"
    and valid: "Validate (override_policy base current req) = None"
  defines "p \<equiv> override_policy base current req"
    and "q \<equiv> rebuildEffective base (EncodePolicyJSON (override_policy base current req))"
  shows "TypeConcurrency q = TypeConcurrency p \<and> Overrides q = Overrides p \<and>
    AgingIntervalSec q = AgingIntervalSec p \<and> AgingStep q = AgingStep p \<and>
    RunNowAmount q = RunNowAmount p \<and> RunNowTTLSec q = RunNowTTLSec p \<and>
    (r_ResourceCapacity req = None \<longrightarrow>
      (\<forall>rk. gget (ResourceCapacity q) rk = gget (ResourceCapacity p) rk)) \<and>
    (r_ProviderCapacity req = None \<longrightarrow>
      (\<forall>pk. gget (ProviderCapacity q) pk = gget (ProviderCapacity p) pk))"
proof -
  have tc: "gmap_ok (TypeConcurrency p)"
    using assms(1) by (simp add: p_def gmap_ok_gputs)
  have pos: "0 < AgingIntervalSec p" "0 < AgingStep p" "0 < RunNowAmount p" "0 < RunNowTTLSec p"
    using valid Validate_None_iff [OF tc] by (simp_all only: p_def simp_thms)
  have caps: "gmap_ok (known_caps (gputs (ResourceCapacity base) []))"
    by (simp add: known_caps_def gmap_ok_gputs)
  show ?thesis
    using pos assms(2,3) caps unfolding p_def q_def
    by (auto simp: gget_gputs known_caps_def nonneg_caps_def gget_filter gmap_ok_gputs
        split: option.splits if_splits)
qed

text \<open>With resource capacities in the request, memory and a restart differ.  A capacity of the
  base policy that the request's map leaves out is gone from the policy installed in memory,
  and is back after the policy is rebuilt from the stored revision.\<close>
theorem reload_restores_dropped_capacity:
  assumes "gmap_ok m" "r_ResourceCapacity req = Some m"
    and "gget m rk = None" "gget (ResourceCapacity base) rk = Some c"
  shows "gget (ResourceCapacity (override_policy base current req)) rk = None \<and>
    gget (ResourceCapacity
      (rebuildEffective base (EncodePolicyJSON (override_policy base current req)))) rk = Some c"
  using assms
  by (simp add: gget_gputs known_caps_def gget_filter gmap_ok_gputs)

theorem reload_restores_dropped_capacity_witness:
  "gget (ResourceCapacity (rebuildEffective example_base (EncodePolicyJSON (override_policy
      example_base example_base
      (example_request\<lparr>r_ResourceCapacity := Some [(''gpu'', 1)]\<rparr>))))) ''cpu'' = Some 4"
  by (rule reload_restores_dropped_capacity [THEN conjunct2, of "[(''gpu'', 1)]"])
    (simp_all add: example_request_def example_base_def gmap_ok_def gget_def)

text \<open>\<open>cmd/server\<close>: the policy the server starts with.\<close>

definition buildSchedulerPolicyFromDefaults ::
  "SchedulerYAMLConfig \<Rightarrow> policy_error + Policy" where
  "buildSchedulerPolicyFromDefaults cfg =
     (let p = MergeYAML cfg PolicyDefaults
      in case Validate p of Some e \<Rightarrow> Inl e | None \<Rightarrow> Inr p)"

end
