(* ===== verification/Sched_Int64.thy ===== *)
theory Sched_Int64
  imports Vauldy_Prelude
begin

text \<open>
  The int64 arithmetic of \<open>internal/scheduler/order.go\<close>: \<open>saturatingAdd\<close>, \<open>saturatingMul\<close> and
  \<open>saturatingDiv\<close>.  An int64 is a \<open>64 word\<close> read with \<open>sint\<close>; \<open>+\<close> and \<open>*\<close> wrap, as in Go.  The
  locale \<open>saturating\<close> is the contract the priority computation relies on: an operation that
  computes the clamped exact result.  It is interpreted for the addition and the
  multiplication of the code.
\<close>

section \<open>Saturating arithmetic\<close>

type_synonym int64 = "64 word"

definition MaxInt64 :: int64 where "MaxInt64 = 0x7FFFFFFFFFFFFFFF"
definition MinInt64 :: int64 where "MinInt64 = 0x8000000000000000"

text \<open>Go's \<open>/\<close> on int64: towards zero, wrapping in the one case that overflows.\<close>

definition go_div :: "int64 \<Rightarrow> int64 \<Rightarrow> int64" where
  "go_div a b = word_of_int (sint a sdiv sint b)"

definition saturatingAdd :: "int64 \<Rightarrow> int64 \<Rightarrow> int64" where
  "saturatingAdd a b =
     (if 0 <s b \<and> MaxInt64 - b <s a then MaxInt64
      else if b <s 0 \<and> a <s MinInt64 - b then MinInt64
      else a + b)"

definition saturatingMul :: "int64 \<Rightarrow> int64 \<Rightarrow> int64" where
  "saturatingMul a b =
     (if a = 0 \<or> b = 0 then 0
      else if a = -1 \<and> b = MinInt64 \<or> b = -1 \<and> a = MinInt64 then MaxInt64
      else if 0 <s a then
        (if 0 <s b \<and> go_div MaxInt64 b <s a then MaxInt64
         else if b <s 0 \<and> b <s go_div MinInt64 a then MinInt64
         else a * b)
      else
        (if 0 <s b \<and> a <s go_div MinInt64 b then MinInt64
         else if b <s 0 \<and> a <s go_div MaxInt64 b then MaxInt64
         else a * b))"

definition saturatingDiv :: "int64 \<Rightarrow> int64 \<Rightarrow> int64" where
  "saturatingDiv a b = (if b \<le>s 0 then 0 else go_div a b)"

lemma sint_MaxInt64 [simp]: "sint MaxInt64 = max_i64"
  by (simp add: MaxInt64_def max_i64_def)

lemma sint_MinInt64 [simp]: "sint MinInt64 = min_i64"
  by (simp add: MinInt64_def min_i64_def)

lemma sint64_range: "min_i64 \<le> sint (a :: int64)" "sint (a :: int64) \<le> max_i64"
  using sint_ge [of a] sint_lt [of a] by (simp_all add: min_i64_def max_i64_def)

lemma sint_word_of_int64:
  "min_i64 \<le> x \<Longrightarrow> x \<le> max_i64 \<Longrightarrow> sint (word_of_int x :: int64) = x"
  by (simp add: min_i64_def max_i64_def signed_take_bit_int_eq_self sint_sbintrunc')

lemma word64_eq_iff: "a = (b :: int64) \<longleftrightarrow> sint a = sint b"
  by (auto intro: signed_word_eqI)

lemmas int64_order = word_sless_alt word_sle_eq

lemma sint_add64:
  "min_i64 \<le> sint a + sint b \<Longrightarrow> sint a + sint b \<le> max_i64 \<Longrightarrow>
   sint (a + b :: int64) = sint a + sint b"
  using sint_word_of_int64 [of "sint a + sint b"] by (simp add: wi_hom_syms)

lemma sint_sub64:
  "min_i64 \<le> sint a - sint b \<Longrightarrow> sint a - sint b \<le> max_i64 \<Longrightarrow>
   sint (a - b :: int64) = sint a - sint b"
  using sint_word_of_int64 [of "sint a - sint b"] by (simp add: wi_hom_syms)

lemma sint_mul64:
  "min_i64 \<le> sint a * sint b \<Longrightarrow> sint a * sint b \<le> max_i64 \<Longrightarrow>
   sint (a * b :: int64) = sint a * sint b"
  using sint_word_of_int64 [of "sint a * sint b"] by (simp add: wi_hom_syms)

lemma sint_saturatingAdd: "sint (saturatingAdd a b) = clamp64 (sint a + sint b)"
proof -
  note r = sint64_range [of a] sint64_range [of b]
  have sub1: "0 < sint b \<Longrightarrow> sint (MaxInt64 - b) = max_i64 - sint b"
    using r by (subst sint_sub64) (auto simp: min_i64_def max_i64_def)
  have sub2: "sint b < 0 \<Longrightarrow> sint (MinInt64 - b) = min_i64 - sint b"
    using r by (subst sint_sub64) (auto simp: min_i64_def max_i64_def)
  show ?thesis
    using r sub1 sub2 sint_add64 [of a b]
    by (auto simp: saturatingAdd_def int64_order clamp64_def min_i64_def max_i64_def)
qed

lemma le_int_div_iff: "0 < (b::int) \<Longrightarrow> a \<le> m div b \<longleftrightarrow> a * b \<le> m"
proof
  assume b: "0 < b" and "a \<le> m div b"
  then have "a * b \<le> (m div b) * b" by (intro mult_right_mono) auto
  also have "\<dots> \<le> m" using b by (simp add: minus_mod_eq_div_mult [symmetric])
  finally show "a * b \<le> m" .
next
  assume b: "0 < b" and "a * b \<le> m"
  then have "(a * b) div b \<le> m div b" by (intro zdiv_mono1) auto
  with b show "a \<le> m div b" by simp
qed

lemma int_div_less_iff: "0 < (b::int) \<Longrightarrow> m div b < a \<longleftrightarrow> m < a * b"
  using le_int_div_iff [of b a m] by linarith

text \<open>The four overflow tests of \<open>saturatingMul\<close>, as tests on the exact product.\<close>

lemma sint_go_div:
  "\<not> (sint a = min_i64 \<and> sint b = -1) \<Longrightarrow> sint (go_div a b) = sint a sdiv sint b"
  unfolding go_div_def
proof (rule sint_word_of_int64)
  note r = sint64_range [of a] sint64_range [of b]
  have le: "\<bar>sint a\<bar> div \<bar>sint b\<bar> \<le> \<bar>sint a\<bar>"
    using zdiv_mono2 [of "\<bar>sint a\<bar>" 1 "\<bar>sint b\<bar>"] by (cases "sint b = 0") auto
  have nn: "0 \<le> \<bar>sint a\<bar> div \<bar>sint b\<bar>"
    by (cases "sint b = 0") (auto simp: pos_imp_zdiv_nonneg_iff)
  assume no: "\<not> (sint a = min_i64 \<and> sint b = -1)"
  have lt: "\<bar>sint a\<bar> div \<bar>sint b\<bar> \<le> max_i64" if "sint a < 0" "sint b < 0"
  proof (cases "sint b = -1")
    case True
    with no r that show ?thesis by (auto simp: min_i64_def max_i64_def)
  next
    case False
    with that have "2 \<le> \<bar>sint b\<bar>" by auto
    then have "\<bar>sint a\<bar> div \<bar>sint b\<bar> \<le> \<bar>sint a\<bar> div 2"
      by (intro zdiv_mono2) auto
    then show ?thesis using r by (auto simp: min_i64_def max_i64_def)
  qed
  show "min_i64 \<le> sint a sdiv sint b" "sint a sdiv sint b \<le> max_i64"
    using le nn lt r
    by (auto simp: signed_divide_int_def sgn_if min_i64_def max_i64_def split: if_splits)
qed

lemma mul_tests:
  fixes x y :: int
  shows "0 < x \<Longrightarrow> 0 < y \<Longrightarrow> max_i64 sdiv y < x \<longleftrightarrow> max_i64 < x * y"
    and "0 < x \<Longrightarrow> y < 0 \<Longrightarrow> y < min_i64 sdiv x \<longleftrightarrow> x * y < min_i64"
    and "x < 0 \<Longrightarrow> 0 < y \<Longrightarrow> x < min_i64 sdiv y \<longleftrightarrow> x * y < min_i64"
    and "x < 0 \<Longrightarrow> y < 0 \<Longrightarrow> x < max_i64 sdiv y \<longleftrightarrow> max_i64 < x * y"
proof -
  have m: "0 < max_i64" "min_i64 < 0" by (simp_all add: max_i64_def min_i64_def)
  show "0 < x \<Longrightarrow> 0 < y \<Longrightarrow> max_i64 sdiv y < x \<longleftrightarrow> max_i64 < x * y"
    using m by (simp add: sdiv_nonneg int_div_less_iff)
  show "0 < x \<Longrightarrow> y < 0 \<Longrightarrow> y < min_i64 sdiv x \<longleftrightarrow> x * y < min_i64"
    using m int_div_less_iff [of x "- min_i64" "- y"]
    by (auto simp: signed_divide_int_def algebra_simps)
  show "x < 0 \<Longrightarrow> 0 < y \<Longrightarrow> x < min_i64 sdiv y \<longleftrightarrow> x * y < min_i64"
    using m int_div_less_iff [of y "- min_i64" "- x"]
    by (auto simp: signed_divide_int_def algebra_simps)
  show "x < 0 \<Longrightarrow> y < 0 \<Longrightarrow> x < max_i64 sdiv y \<longleftrightarrow> max_i64 < x * y"
    using m int_div_less_iff [of "- y" max_i64 "- x"]
    by (auto simp: signed_divide_int_def algebra_simps)
qed

lemma sint_saturatingMul: "sint (saturatingMul a b) = clamp64 (sint a * sint b)"
proof -
  let ?x = "sint a" and ?y = "sint b"
  define p where "p = ?x * ?y"
  note tests = mul_tests [of ?x ?y, folded p_def]
  have z: "a = 0 \<longleftrightarrow> ?x = 0" "b = 0 \<longleftrightarrow> ?y = 0" by (simp_all add: word64_eq_iff)
  have one: "a = -1 \<longleftrightarrow> ?x = -1" "b = -1 \<longleftrightarrow> ?y = -1" by (simp_all add: word64_eq_iff)
  have mn: "a = MinInt64 \<longleftrightarrow> ?x = min_i64" "b = MinInt64 \<longleftrightarrow> ?y = min_i64"
    by (simp_all add: word64_eq_iff)
  have prod: "sint (a * b) = p" if "min_i64 \<le> p" "p \<le> max_i64"
    using that unfolding p_def by (rule sint_mul64)
  have d: "0 < ?y \<Longrightarrow> sint (go_div MaxInt64 b) = max_i64 sdiv ?y"
    "?x \<noteq> -1 \<Longrightarrow> sint (go_div MinInt64 a) = min_i64 sdiv ?x"
    "?y \<noteq> -1 \<Longrightarrow> sint (go_div MinInt64 b) = min_i64 sdiv ?y"
    "sint (go_div MaxInt64 b) = max_i64 sdiv ?y"
    by (auto simp: sint_go_div max_i64_def min_i64_def)
  consider "?x = 0 \<or> ?y = 0" | "?x = -1 \<and> ?y = min_i64 \<or> ?y = -1 \<and> ?x = min_i64"
    | "0 < ?x" "0 < ?y" | "0 < ?x" "?y < 0" | "?x < 0" "0 < ?y"
    | "?x < 0" "?y < 0" "\<not> (?x = -1 \<and> ?y = min_i64 \<or> ?y = -1 \<and> ?x = min_i64)"
    by linarith
  then show ?thesis
  proof cases
    case 1
    then show ?thesis
      by (auto simp: p_def saturatingMul_def z clamp64_def max_i64_def min_i64_def)
  next
    case 2
    then show ?thesis
      by (auto simp: p_def saturatingMul_def z one mn clamp64_def max_i64_def min_i64_def)
  next
    case 3
    then have "0 < p" by (simp add: p_def)
    with 3 prod d tests(1) show ?thesis
      by (auto simp: saturatingMul_def z one mn int64_order clamp64_def max_i64_def min_i64_def
          simp flip: p_def)
  next
    case 4
    then have "p < 0" by (simp add: p_def mult_pos_neg)
    with 4 prod d tests(2) show ?thesis
      by (auto simp: saturatingMul_def z one mn int64_order clamp64_def max_i64_def min_i64_def
          simp flip: p_def)
  next
    case 5
    then have "p < 0" by (simp add: p_def mult_neg_pos)
    with 5 prod d tests(3) show ?thesis
      by (auto simp: saturatingMul_def z one mn int64_order clamp64_def max_i64_def min_i64_def
          simp flip: p_def)
  next
    case 6
    then have "0 < p" by (simp add: p_def mult_neg_neg)
    with 6 prod d tests(4) show ?thesis
      by (auto simp: saturatingMul_def z one mn int64_order clamp64_def max_i64_def min_i64_def
          simp flip: p_def)
  qed
qed

lemma sint_saturatingDiv:
  "sint (saturatingDiv a b) = (if sint b \<le> 0 then 0 else sint a sdiv sint b)"
  using sint_go_div [of a b] by (auto simp: saturatingDiv_def int64_order)

section \<open>The saturation contract\<close>

locale saturating =
  fixes sat :: "int64 \<Rightarrow> int64 \<Rightarrow> int64" and exact :: "int \<Rightarrow> int \<Rightarrow> int"
  assumes sint_sat: "sint (sat a b) = clamp64 (exact (sint a) (sint b))"
begin

lemma sat_exact:
  "min_i64 \<le> exact (sint a) (sint b) \<Longrightarrow> exact (sint a) (sint b) \<le> max_i64 \<Longrightarrow>
   sint (sat a b) = exact (sint a) (sint b)"
  by (simp add: sint_sat)

lemma sat_mono:
  "exact (sint a) (sint b) \<le> exact (sint c) (sint d) \<Longrightarrow> sat a b \<le>s sat c d"
  by (simp add: word_sle_eq sint_sat clamp64_mono)

lemma sat_comm:
  "(\<And>x y. exact x y = exact y x) \<Longrightarrow> sat a b = sat b a"
  by (simp add: word64_eq_iff sint_sat)

end

interpretation sat_add: saturating saturatingAdd "(+)"
  by unfold_locales (rule sint_saturatingAdd)

interpretation sat_mul: saturating saturatingMul "(*)"
  by unfold_locales (rule sint_saturatingMul)

end
