(* ===== verification/Sched_Order.thy ===== *)
theory Sched_Order
  imports Sched_Policy Sched_Int64 "HOL-Library.Multiset"
begin

text \<open>
  \<open>internal/scheduler/order.go\<close>: the effective priority of a waiting row, the stable tie
  break, the SQL expressions that compute the same priority inside SQLite, and the library
  round robin.  The locale \<open>round_robin\<close> is the contract between picking and committing: a
  commit moves the cursor just past the bucket that was served.
\<close>

section \<open>Effective priority\<close>

record CandidateOrder =
  co_Priority :: int64
  co_AvailableAt :: time
  co_CreatedAt :: time
  co_ID :: int64

definition nonNegativeWaitAge :: "time \<Rightarrow> time \<Rightarrow> time \<Rightarrow> int64" where
  "nonNegativeWaitAge now availableAt fallback =
     (if availableAt = 0 then 0
      else if availableAt > now then 0
      else let d = time_sub now availableAt
           in if d < 0 then 0
              else let secs = word_of_int (d sdiv second) in if secs <s 0 then 0 else secs)"

definition EffectivePriority ::
  "Policy \<Rightarrow> int64 \<Rightarrow> int64 \<Rightarrow> time \<Rightarrow> time option \<Rightarrow> time \<Rightarrow> int64" where
  "EffectivePriority policy basePriority rowPriority availableAt runNowExpires now =
     (let age = nonNegativeWaitAge now availableAt now;
          aging = saturatingDiv age (word_of_int (AgingIntervalSec policy));
          agingBoost = saturatingMul aging (word_of_int (AgingStep policy));
          runNowBoost = (case runNowExpires of None \<Rightarrow> 0
            | Some t \<Rightarrow> if t > now then word_of_int (RunNowAmount policy) else 0)
      in saturatingAdd (saturatingAdd (saturatingAdd basePriority rowPriority) agingBoost)
           runNowBoost)"

text \<open>Negative: \<open>a\<close> is served first; positive: \<open>b\<close> is; zero: equal in all four fields.\<close>

definition StableCompare :: "CandidateOrder \<Rightarrow> CandidateOrder \<Rightarrow> int" where
  "StableCompare a b =
     (if co_Priority a \<noteq> co_Priority b then
        (if co_Priority b <s co_Priority a then -1 else 1)
      else if co_AvailableAt a \<noteq> co_AvailableAt b then
        (if co_AvailableAt a < co_AvailableAt b then -1 else 1)
      else if co_CreatedAt a \<noteq> co_CreatedAt b then
        (if co_CreatedAt a < co_CreatedAt b then -1 else 1)
      else if co_ID a <s co_ID b then -1
      else if co_ID b <s co_ID a then 1
      else 0)"

section \<open>Library fairness\<close>

record LibraryCandidate =
  lc_LibraryID :: "int option"
  lc_Priority :: int64
  lc_AvailableAt :: time
  lc_CreatedAt :: time
  lc_ID :: int64
  lc_Removed :: bool
  lc_Superseded :: bool

definition NullLibrarySentinel :: int where "NullLibrarySentinel = -1"

record LibraryFairnessCursor =
  fc_TaskType :: string
  fc_LastServedLibrary :: "int option"

text \<open>The \<open>libKey\<close> of a row: \<open>None\<close> is the bucket of the rows without a library.\<close>

abbreviation keyOf :: "LibraryCandidate \<Rightarrow> int option" where "keyOf \<equiv> lc_LibraryID"

text \<open>The indices of the best row of each bucket, in window order.\<close>

fun eligible_rows :: "nat \<Rightarrow> int option list \<Rightarrow> LibraryCandidate list \<Rightarrow> nat list" where
  "eligible_rows i seen [] = []"
| "eligible_rows i seen (c # cs) =
     (if lc_Removed c \<or> lc_Superseded c then eligible_rows (Suc i) seen cs
      else if keyOf c \<in> set seen then eligible_rows (Suc i) seen cs
      else i # eligible_rows (Suc i) (keyOf c # seen) cs)"

text \<open>The key the cursor points at, when it was ever set.\<close>

definition last_key :: "LibraryFairnessCursor option \<Rightarrow> int option option" where
  "last_key cursor =
     (case cursor of None \<Rightarrow> None
      | Some c \<Rightarrow>
          (case fc_LastServedLibrary c of None \<Rightarrow> None
           | Some v \<Rightarrow> if v = NullLibrarySentinel then Some None else Some (Some v)))"

fun start_position :: "int option \<Rightarrow> nat \<Rightarrow> nat \<Rightarrow> int option list \<Rightarrow> nat" where
  "start_position k n pos [] = 0"
| "start_position k n pos (k' # ks) =
     (if k' = k then (pos + 1) mod n else start_position k n (Suc pos) ks)"

definition pick_start :: "LibraryFairnessCursor option \<Rightarrow> int option list \<Rightarrow> nat" where
  "pick_start cursor keys =
     (case last_key cursor of None \<Rightarrow> 0 | Some k \<Rightarrow> start_position k (length keys) 0 keys)"

definition LibraryFairnessPick ::
  "LibraryFairnessCursor option \<Rightarrow> LibraryCandidate list \<Rightarrow> int \<Rightarrow> nat option" where
  "LibraryFairnessPick cursor window maxLookahead =
     (if window = [] \<or> maxLookahead \<le> 0 then None
      else let eligible = eligible_rows 0 [] window
           in if eligible = [] then None
              else Some (eligible ! pick_start cursor (map (\<lambda>i. keyOf (window ! i)) eligible)))"

definition LibraryFairnessCommit ::
  "LibraryFairnessCursor \<Rightarrow> LibraryCandidate \<Rightarrow> LibraryFairnessCursor" where
  "LibraryFairnessCommit cursor candidate =
     (case lc_LibraryID candidate of
        None \<Rightarrow> cursor\<lparr>fc_LastServedLibrary := Some NullLibrarySentinel\<rparr>
      | Some v \<Rightarrow> cursor\<lparr>fc_LastServedLibrary := Some v\<rparr>)"

text \<open>One turn of a claimer: pick a row, and commit the pick.\<close>

definition serve ::
  "LibraryCandidate list \<Rightarrow> LibraryFairnessCursor \<Rightarrow> nat option \<times> LibraryFairnessCursor" where
  "serve window cursor =
     (case LibraryFairnessPick (Some cursor) window (int (length window)) of
        None \<Rightarrow> (None, cursor)
      | Some i \<Rightarrow> (Some i, LibraryFairnessCommit cursor (window ! i)))"

fun serve_times :: "nat \<Rightarrow> LibraryCandidate list \<Rightarrow> LibraryFairnessCursor \<Rightarrow> nat option list" where
  "serve_times 0 window cursor = []"
| "serve_times (Suc n) window cursor =
     (let (r, cursor') = serve window cursor in r # serve_times n window cursor')"

section \<open>Priority inside SQLite\<close>

text \<open>
  The expressions the code assembles with \<open>Sprintf\<close>, as syntax trees; \<open>CASE WHEN .. WHEN ..
  ELSE .. END\<close> is nested \<open>XWhen\<close>.  \<open>XWaitDays now e\<close> is \<open>CAST((julianday(now) - julianday(e)) *
  86400 AS INTEGER)\<close>, whose floating-point arithmetic is SQLite's: a parameter of the
  evaluation.  Timestamps are numbers of seconds, the resolution of their text form.
\<close>

datatype sqlx =
    XInt int
  | XCol string
  | XAdd sqlx sqlx
  | XSub sqlx sqlx
  | XMul sqlx sqlx
  | XDiv sqlx sqlx
  | XGt sqlx sqlx
  | XEq sqlx sqlx
  | XLt sqlx sqlx
  | XAnd sqlx sqlx
  | XNotNull sqlx
  | XWhen sqlx sqlx sqlx
  | XCoalesce sqlx sqlx
  | XCast sqlx
  | XMax sqlx sqlx
  | XWaitDays time sqlx

text \<open>
  \<open>VReal\<close> is the floating-point value SQLite produces when an integer operation overflows;
  its digits are not modelled, so an evaluation that meets one has no exact result.
\<close>

datatype sqlv = VNull | VReal | VInt int

definition sql_int :: "int \<Rightarrow> sqlv" where
  "sql_int x = (if min_i64 \<le> x \<and> x \<le> max_i64 then VInt x else VReal)"

fun sql_arith :: "(int \<Rightarrow> int \<Rightarrow> int) \<Rightarrow> sqlv \<Rightarrow> sqlv \<Rightarrow> sqlv" where
  "sql_arith f (VInt x) (VInt y) = sql_int (f x y)"
| "sql_arith f VNull _ = VNull"
| "sql_arith f _ VNull = VNull"
| "sql_arith f _ _ = VReal"

fun sql_divide :: "sqlv \<Rightarrow> sqlv \<Rightarrow> sqlv" where
  "sql_divide (VInt x) (VInt y) = (if y = 0 then VNull else sql_int (x sdiv y))"
| "sql_divide VNull _ = VNull"
| "sql_divide _ VNull = VNull"
| "sql_divide _ _ = VReal"

definition sql_bool :: "bool \<Rightarrow> sqlv" where "sql_bool b = VInt (if b then 1 else 0)"

fun sql_compare :: "(int \<Rightarrow> int \<Rightarrow> bool) \<Rightarrow> sqlv \<Rightarrow> sqlv \<Rightarrow> sqlv" where
  "sql_compare f (VInt x) (VInt y) = sql_bool (f x y)"
| "sql_compare f VNull _ = VNull"
| "sql_compare f _ VNull = VNull"
| "sql_compare f _ _ = VReal"

definition sql_true :: "sqlv \<Rightarrow> bool" where
  "sql_true v = (case v of VInt x \<Rightarrow> x \<noteq> 0 | _ \<Rightarrow> False)"

fun sql_eval :: "(time \<Rightarrow> sqlv \<Rightarrow> sqlv) \<Rightarrow> (string \<Rightarrow> sqlv) \<Rightarrow> sqlx \<Rightarrow> sqlv" where
  "sql_eval jd row (XInt n) = VInt n"
| "sql_eval jd row (XCol c) = row c"
| "sql_eval jd row (XAdd a b) = sql_arith (+) (sql_eval jd row a) (sql_eval jd row b)"
| "sql_eval jd row (XSub a b) = sql_arith (-) (sql_eval jd row a) (sql_eval jd row b)"
| "sql_eval jd row (XMul a b) = sql_arith (*) (sql_eval jd row a) (sql_eval jd row b)"
| "sql_eval jd row (XDiv a b) = sql_divide (sql_eval jd row a) (sql_eval jd row b)"
| "sql_eval jd row (XGt a b) = sql_compare (>) (sql_eval jd row a) (sql_eval jd row b)"
| "sql_eval jd row (XEq a b) = sql_compare (=) (sql_eval jd row a) (sql_eval jd row b)"
| "sql_eval jd row (XLt a b) = sql_compare (<) (sql_eval jd row a) (sql_eval jd row b)"
| "sql_eval jd row (XAnd a b) =
     sql_bool (sql_true (sql_eval jd row a) \<and> sql_true (sql_eval jd row b))"
| "sql_eval jd row (XNotNull a) = sql_bool (sql_eval jd row a \<noteq> VNull)"
| "sql_eval jd row (XWhen c t e) =
     (if sql_true (sql_eval jd row c) then sql_eval jd row t else sql_eval jd row e)"
| "sql_eval jd row (XCoalesce a b) =
     (if sql_eval jd row a = VNull then sql_eval jd row b else sql_eval jd row a)"
| "sql_eval jd row (XCast a) = sql_eval jd row a"
| "sql_eval jd row (XMax a b) =
     (case (sql_eval jd row a, sql_eval jd row b) of
        (VInt x, VInt y) \<Rightarrow> VInt (max x y) | (VNull, _) \<Rightarrow> VNull | (_, VNull) \<Rightarrow> VNull
      | _ \<Rightarrow> VReal)"
| "sql_eval jd row (XWaitDays now e) = jd now (sql_eval jd row e)"

abbreviation XMaxI :: sqlx where "XMaxI \<equiv> XInt 9223372036854775807"
abbreviation XMinI :: sqlx where "XMinI \<equiv> XSub (XInt (-9223372036854775807)) (XInt 1)"

definition saturatingAddSQL :: "sqlx \<Rightarrow> sqlx \<Rightarrow> sqlx" where
  "saturatingAddSQL a b =
     XWhen (XAnd (XGt b (XInt 0)) (XGt a (XSub XMaxI b))) XMaxI
       (XWhen (XAnd (XLt b (XInt 0)) (XLt a (XSub XMinI b))) XMinI
         (XCast (XAdd a b)))"

definition saturatingMulSQL :: "sqlx \<Rightarrow> int \<Rightarrow> sqlx" where
  "saturatingMulSQL a b =
     (if b = 0 then XInt 0
      else if b > 0 then
        XWhen (XGt a (XDiv XMaxI (XInt b))) XMaxI
          (XWhen (XLt a (XDiv XMinI (XInt b))) XMinI
            (XCast (XMul a (XInt b))))
      else if b = min_i64 then
        XWhen (XGt a (XInt 1)) XMinI
          (XWhen (XLt a (XInt (-1))) XMaxI
            (XWhen (XEq a (XInt (-1))) XMaxI (XCast (XMul a XMinI))))
      else
        XWhen (XGt a (XDiv XMinI (XInt b))) XMinI
          (XWhen (XLt a (XDiv XMaxI (XInt b))) XMaxI
            (XCast (XMul a (XInt b)))))"

definition RunNowBoostSQL :: "string \<Rightarrow> Policy \<Rightarrow> time \<Rightarrow> sqlx" where
  "RunNowBoostSQL alias policy now =
     (let col = XCol (alias @ ''.run_now_expires'')
      in XWhen (XAnd (XNotNull col) (XGt col (XInt (now div second))))
           (XInt (RunNowAmount policy)) (XInt 0))"

definition WaitAgeSQL :: "string \<Rightarrow> time \<Rightarrow> sqlx" where
  "WaitAgeSQL alias now =
     XMax (XInt 0)
       (XWaitDays (now div second)
         (XCoalesce (XCol (alias @ ''.available_at'')) (XCol (alias @ ''.created_at''))))"

definition AgingBoostSQL :: "string \<Rightarrow> Policy \<Rightarrow> time \<Rightarrow> sqlx" where
  "AgingBoostSQL alias policy now =
     (if AgingIntervalSec policy \<le> 0 then XInt 0
      else saturatingMulSQL (XDiv (WaitAgeSQL alias now) (XInt (AgingIntervalSec policy)))
             (AgingStep policy))"

definition EffectivePrioritySQL :: "string \<Rightarrow> Policy \<Rightarrow> time \<Rightarrow> sqlx" where
  "EffectivePrioritySQL alias policy now =
     saturatingAddSQL
       (saturatingAddSQL
         (saturatingAddSQL (XCoalesce (XCol (alias @ ''.base_priority'')) (XInt 0))
           (XCoalesce (XCol (alias @ ''.priority'')) (XInt 0)))
         (AgingBoostSQL alias policy now))
       (RunNowBoostSQL alias policy now)"

section \<open>Lemmas on the priority\<close>

lemma sint_nonNegativeWaitAge:
  "sint (nonNegativeWaitAge now availableAt fb) =
   (if availableAt = 0 \<or> availableAt > now then 0 else time_sub now availableAt div second)"
proof (cases "availableAt = 0 \<or> availableAt > now")
  case False
  let ?d = "time_sub now availableAt"
  from False have d: "0 \<le> ?d" "?d \<le> max_i64"
    by (auto simp: time_sub_def clamp64_def min_i64_def max_i64_def)
  then have q: "0 \<le> ?d div second" "?d div second \<le> max_i64"
    by (auto simp: second_def max_i64_def)
  then have w: "sint (word_of_int (?d div second) :: int64) = ?d div second"
    by (intro sint_word_of_int64) (auto simp: min_i64_def)
  have "?d sdiv second = ?d div second" using d by (simp add: sdiv_nonneg second_def)
  with False d q w show ?thesis
    by (simp add: nonNegativeWaitAge_def Let_def int64_order del: signed_of_int)
qed (auto simp: nonNegativeWaitAge_def)

text \<open>The policy settings fit an int64, as every Go \<open>int\<close> does.\<close>

definition priority_range :: "Policy \<Rightarrow> bool" where
  "priority_range p \<longleftrightarrow> AgingIntervalSec p \<le> max_i64 \<and> AgingStep p \<le> max_i64 \<and>
     RunNowAmount p \<le> max_i64 \<and>
     min_i64 \<le> AgingIntervalSec p \<and> min_i64 \<le> AgingStep p \<and> min_i64 \<le> RunNowAmount p"

text \<open>The priority formula on exact integers, clamped after every operation.\<close>

definition priority_spec :: "Policy \<Rightarrow> int \<Rightarrow> int \<Rightarrow> int \<Rightarrow> bool \<Rightarrow> int" where
  "priority_spec p base row age boosted =
     clamp64 (clamp64 (clamp64 (base + row) +
       clamp64 ((if AgingIntervalSec p \<le> 0 then 0 else age div AgingIntervalSec p) * AgingStep p)) +
       (if boosted then RunNowAmount p else 0))"

lemma sint_EffectivePriority:
  assumes "priority_range p"
  shows "sint (EffectivePriority p base row avail runNow now) =
    priority_spec p (sint base) (sint row) (sint (nonNegativeWaitAge now avail now))
      (\<exists>t. runNow = Some t \<and> t > now)"
proof -
  let ?age = "nonNegativeWaitAge now avail now"
  have of: "sint (word_of_int x :: int64) = x" if "min_i64 \<le> x" "x \<le> max_i64" for x
    using that by (rule sint_word_of_int64)
  have nn: "0 \<le> sint ?age"
    unfolding sint_nonNegativeWaitAge
    by (auto simp: time_sub_def clamp64_def second_def min_i64_def max_i64_def)
  show ?thesis
    using assms nn
    by (auto simp: EffectivePriority_def priority_spec_def Let_def sint_saturatingAdd
        sint_saturatingMul sint_saturatingDiv priority_range_def of sdiv_nonneg
        simp del: signed_of_int split: option.splits)
qed

lemma priority_spec_mono:
  assumes "0 \<le> AgingStep p" "age \<le> age'"
  shows "priority_spec p base row age b \<le> priority_spec p base row age' b"
proof -
  have "(if AgingIntervalSec p \<le> 0 then 0 else age div AgingIntervalSec p) * AgingStep p \<le>
      (if AgingIntervalSec p \<le> 0 then 0 else age' div AgingIntervalSec p) * AgingStep p"
    using assms by (auto intro!: mult_right_mono zdiv_mono1)
  then show ?thesis unfolding priority_spec_def by (intro clamp64_mono add_mono order.refl)
qed

lemma nonNegativeWaitAge_mono:
  "now \<le> now' \<Longrightarrow>
   sint (nonNegativeWaitAge now avail fb) \<le> sint (nonNegativeWaitAge now' avail fb')"
  unfolding sint_nonNegativeWaitAge
  by (auto simp: second_def time_sub_def intro!: zdiv_mono1 clamp64_mono)
    (auto simp: clamp64_def min_i64_def max_i64_def)

section \<open>Lemmas on the SQL expressions\<close>

lemma clamp64_cases:
  "clamp64 x = (if x < min_i64 then min_i64 else if x > max_i64 then max_i64 else x)"
  by (auto simp: clamp64_def min_i64_def max_i64_def)

definition in64 :: "int \<Rightarrow> bool" where "in64 x \<longleftrightarrow> min_i64 \<le> x \<and> x \<le> max_i64"

lemma in64_clamp [simp]: "in64 (clamp64 x)"
  using clamp64_range by (simp add: in64_def)

lemma sql_eval_saturatingAddSQL:
  assumes "sql_eval jd row a = VInt x" "sql_eval jd row b = VInt y" "in64 x" "in64 y"
  shows "sql_eval jd row (saturatingAddSQL a b) = VInt (clamp64 (x + y))"
  using assms
  by (auto simp: saturatingAddSQL_def sql_int_def sql_bool_def sql_true_def clamp64_def in64_def
      max_i64_def min_i64_def)

lemma sql_eval_saturatingMulSQL:
  assumes "sql_eval jd row a = VInt x" "0 \<le> x" "in64 x" "0 \<le> b" "in64 b"
  shows "sql_eval jd row (saturatingMulSQL a b) = VInt (clamp64 (x * b))"
proof (cases "b = 0")
  case True
  then show ?thesis by (simp add: saturatingMulSQL_def clamp64_def max_i64_def min_i64_def)
next
  case False
  with assms have b: "0 < b" by simp
  then have q: "max_i64 sdiv b = max_i64 div b" by (simp add: sdiv_nonneg max_i64_def)
  have "0 \<le> max_i64 div b" "max_i64 div b \<le> max_i64"
    using b zdiv_mono2 [of max_i64 1 b] by (auto simp: max_i64_def pos_imp_zdiv_nonneg_iff)
  moreover have "min_i64 sdiv b \<le> 0" "min_i64 \<le> min_i64 sdiv b"
    using b zdiv_mono2 [of "- min_i64" 1 b]
    by (auto simp: signed_divide_int_def min_i64_def pos_imp_zdiv_nonneg_iff)
  moreover have "- 9223372036854775808 \<le> x * b"
    using assms by (intro order.trans [OF _ mult_nonneg_nonneg]) auto
  ultimately show ?thesis
    using assms b q int_div_less_iff [OF b, of max_i64 x]
    by (auto simp: saturatingMulSQL_def sql_int_def sql_bool_def sql_true_def clamp64_def in64_def
        max_i64_def min_i64_def)
qed

lemma sql_eval_AgingBoostSQL:
  assumes "priority_range p" "0 \<le> AgingStep p" "sql_eval jd row (WaitAgeSQL alias now) = VInt w"
    "0 \<le> w" "in64 w"
  shows "sql_eval jd row (AgingBoostSQL alias p now) =
    VInt (clamp64 ((if AgingIntervalSec p \<le> 0 then 0 else w div AgingIntervalSec p) * AgingStep p))"
proof (cases "AgingIntervalSec p \<le> 0")
  case False
  let ?i = "AgingIntervalSec p"
  have q: "0 \<le> w div ?i" "w div ?i \<le> w" "w sdiv ?i = w div ?i"
    using False assms(4) zdiv_mono2 [of w 1 ?i]
    by (auto simp: pos_imp_zdiv_nonneg_iff sdiv_nonneg)
  then have "in64 (w div ?i)" using assms(5) by (auto simp: in64_def min_i64_def)
  with q False have "sql_eval jd row (XDiv (WaitAgeSQL alias now) (XInt ?i)) = VInt (w div ?i)"
    by (simp add: assms(3) sql_int_def in64_def)
  then show ?thesis
    using False q \<open>in64 (w div ?i)\<close> assms(1,2)
    by (simp add: AgingBoostSQL_def sql_eval_saturatingMulSQL priority_range_def in64_def)
qed (simp add: AgingBoostSQL_def clamp64_def max_i64_def min_i64_def)

text \<open>A column that holds an integer or NULL, and its \<open>COALESCE(c, 0)\<close>.\<close>

definition int_or_null :: "sqlv \<Rightarrow> int \<Rightarrow> bool" where
  "int_or_null v x \<longleftrightarrow> v = VInt x \<or> v = VNull \<and> x = 0"

lemma sql_eval_coalesce0:
  "int_or_null (row c) x \<Longrightarrow> sql_eval jd row (XCoalesce (XCol c) (XInt 0)) = VInt x"
  by (auto simp: int_or_null_def)

lemma sql_eval_RunNowBoostSQL:
  assumes "row (alias @ ''.run_now_expires'') =
    (case runNow of None \<Rightarrow> VNull | Some t \<Rightarrow> VInt (t div second))"
    and "\<forall>t. runNow = Some t \<longrightarrow> second dvd t" and "second dvd now"
  shows "sql_eval jd row (RunNowBoostSQL alias p now) =
    VInt (if \<exists>t. runNow = Some t \<and> t > now then RunNowAmount p else 0)"
proof -
  have "now div second < t div second \<longleftrightarrow> now < t" if "runNow = Some t" for t
  proof -
    obtain k l where "t = second * k" "now = second * l"
      using assms(2,3) \<open>runNow = Some t\<close> by (auto elim!: dvdE)
    then show ?thesis by (simp add: second_def)
  qed
  with assms(1) show ?thesis
    by (auto simp: RunNowBoostSQL_def Let_def sql_true_def sql_bool_def split: option.splits)
qed

section \<open>Properties of the priority\<close>


text \<open>Aging never demotes.  As time passes, and no run-now boost expires in between, the
  effective priority of a waiting row never decreases, also where it saturates.\<close>
theorem EffectivePriority_aging_mono:
  assumes "priority_range p" "0 \<le> AgingStep p" "now \<le> now'"
    and "\<forall>t. runNow = Some t \<longrightarrow> (now < t \<longleftrightarrow> now' < t)"
  shows "EffectivePriority p base row avail runNow now \<le>s
    EffectivePriority p base row avail runNow now'"
proof -
  have "(\<exists>t. runNow = Some t \<and> t > now) = (\<exists>t. runNow = Some t \<and> t > now')"
    using assms(4) by auto
  then show ?thesis
    unfolding word_sle_eq sint_EffectivePriority [OF assms(1)]
    using priority_spec_mono [OF assms(2) nonNegativeWaitAge_mono [OF assms(3)]] by simp
qed

theorem EffectivePriority_aging_mono_witness:
  "EffectivePriority PolicyDefaults 100 5 second None (second * 400) \<le>s
   EffectivePriority PolicyDefaults 100 5 second None (second * 4000)"
  by (rule EffectivePriority_aging_mono)
    (simp_all add: priority_range_def max_i64_def min_i64_def second_def)



section \<open>The stable order\<close>

text \<open>The tie break is a strict total order up to equal rows.  \<open>StableCompare\<close> is
  antisymmetric, transitive, and zero only on rows equal in all four fields, so sorting with it
  is deterministic.\<close>
theorem StableCompare_total_order:
  "StableCompare a b = - StableCompare b a \<and>
   (StableCompare a b = 0 \<longleftrightarrow> co_Priority a = co_Priority b \<and> co_AvailableAt a = co_AvailableAt b \<and>
      co_CreatedAt a = co_CreatedAt b \<and> co_ID a = co_ID b) \<and>
   (StableCompare a b < 0 \<and> StableCompare b c < 0 \<longrightarrow> StableCompare a c < 0)"
proof -
  have [simp]: "x <s y \<longleftrightarrow> sint x < sint y" "x = y \<longleftrightarrow> sint x = sint y" for x y :: int64
    by (simp_all add: int64_order word64_eq_iff)
  have "StableCompare a b = - StableCompare b a" by (simp add: StableCompare_def)
  moreover have "StableCompare a b = 0 \<longleftrightarrow> co_Priority a = co_Priority b \<and>
      co_AvailableAt a = co_AvailableAt b \<and> co_CreatedAt a = co_CreatedAt b \<and> co_ID a = co_ID b"
    by (simp add: StableCompare_def)
  moreover have "StableCompare a b < 0 \<and> StableCompare b c < 0 \<longrightarrow> StableCompare a c < 0"
    by (simp add: StableCompare_def split: if_splits)
  ultimately show ?thesis by blast
qed

theorem StableCompare_total_order_witness:
  "StableCompare \<lparr>co_Priority = 5, co_AvailableAt = 1, co_CreatedAt = 1, co_ID = 9\<rparr>
     \<lparr>co_Priority = -5, co_AvailableAt = 1, co_CreatedAt = 1, co_ID = 7\<rparr> < 0"
proof -
  let ?r = "\<lambda>p i. \<lparr>co_Priority = p, co_AvailableAt = 1, co_CreatedAt = 1, co_ID = i\<rparr>"
  have "StableCompare (?r 5 9) (?r 0 8) < 0" "StableCompare (?r 0 8) (?r (-5) 7) < 0"
    by code_simp+
  with StableCompare_total_order [of "?r 5 9" "?r 0 8" "?r (-5) 7"] show ?thesis by blast
qed

section \<open>Round robin\<close>

locale round_robin =
  fixes fair :: "'w \<Rightarrow> bool"
    and buckets :: "'w \<Rightarrow> nat"
    and start :: "'w \<Rightarrow> 'c \<Rightarrow> nat"
    and commit :: "'w \<Rightarrow> 'c \<Rightarrow> nat \<Rightarrow> 'c"
  assumes start_lt: "fair w \<Longrightarrow> start w c < buckets w"
    and start_commit: "fair w \<Longrightarrow> j < buckets w \<Longrightarrow> start w (commit w c j) = Suc j mod buckets w"
begin

fun turns :: "nat \<Rightarrow> 'w \<Rightarrow> 'c \<Rightarrow> nat list" where
  "turns 0 w c = []"
| "turns (Suc k) w c = start w c # turns k w (commit w c (start w c))"

lemma turns_eq: "fair w \<Longrightarrow> turns k w c = map (\<lambda>i. (start w c + i) mod buckets w) [0..<k]"
proof (induction k arbitrary: c)
  case (Suc k)
  then have "turns k w (commit w c (start w c)) =
      map (\<lambda>i. (start w c + Suc i) mod buckets w) [0..<k]"
    by (simp add: start_lt start_commit mod_add_left_eq)
  with Suc.prems show ?case
    by (simp add: start_lt upt_conv_Cons map_Suc_upt [symmetric] comp_def del: upt_Suc)
qed simp

lemma turns_round: "fair w \<Longrightarrow> turns (buckets w) w c = rotate (start w c) [0..<buckets w]"
  by (rule nth_equalityI) (auto simp: turns_eq nth_rotate start_lt)

lemma turns_once: "fair w \<Longrightarrow> mset (turns (buckets w) w c) = mset [0..<buckets w]"
  unfolding turns_round by (metis distinct_rotate distinct_upt set_eq_iff_mset_eq_distinct set_rotate)

end

text \<open>
  The window of the code: it has a live row, and no library has the id that the cursor stores
  for the rows without a library.
\<close>

definition fair_window :: "LibraryCandidate list \<Rightarrow> bool" where
  "fair_window w \<longleftrightarrow> eligible_rows 0 [] w \<noteq> [] \<and>
     (\<forall>c\<in>set w. lc_LibraryID c \<noteq> Some NullLibrarySentinel)"

abbreviation live :: "LibraryCandidate \<Rightarrow> bool" where
  "live c \<equiv> \<not> lc_Removed c \<and> \<not> lc_Superseded c"

text \<open>The first live row of each bucket.\<close>

definition bucket_heads :: "LibraryCandidate list \<Rightarrow> nat set" where
  "bucket_heads w =
     {i. i < length w \<and> live (w ! i) \<and> (\<forall>j<i. live (w ! j) \<longrightarrow> keyOf (w ! j) \<noteq> keyOf (w ! i))}"

lemma set_eligible_rows:
  "set (eligible_rows i seen w) =
   {i + k |k. k < length w \<and> live (w ! k) \<and> keyOf (w ! k) \<notin> set seen \<and>
      (\<forall>j<k. live (w ! j) \<longrightarrow> keyOf (w ! j) \<noteq> keyOf (w ! k))}" (is "_ = ?R i seen w")
proof (induction i seen w rule: eligible_rows.induct)
  case (2 i seen c cs)
  have "?R i seen (c # cs) =
      (if live c \<and> keyOf c \<notin> set seen then {i} else {}) \<union>
      ?R (Suc i) (if live c then keyOf c # seen else seen) cs"
    (is "?A = ?B \<union> ?C")
  proof (rule set_eqI)
    fix x
    show "x \<in> ?A \<longleftrightarrow> x \<in> ?B \<union> ?C"
    proof (cases "x = i")
      case True
      then show ?thesis by (auto split: if_splits)
    next
      case False
      have "x \<in> ?A \<longleftrightarrow> (\<exists>k. x = i + Suc k \<and> k < length cs \<and> live (cs ! k) \<and>
          keyOf (cs ! k) \<notin> set seen \<and>
          (\<forall>j<Suc k. live ((c # cs) ! j) \<longrightarrow> keyOf ((c # cs) ! j) \<noteq> keyOf (cs ! k)))"
        using False by (auto simp: gr0_conv_Suc less_Suc_eq_0_disj)
      also have "\<dots> \<longleftrightarrow> x \<in> ?B \<union> ?C"
        using False by (auto simp: All_less_Suc2 split: if_splits)
      finally show ?thesis .
    qed
  qed
  moreover have "?R (Suc i) (keyOf c # seen) cs = ?R (Suc i) seen cs" if "keyOf c \<in> set seen"
    using that by (auto simp: insert_absorb)
  ultimately show ?case using 2 by (auto split: if_splits)
qed simp

lemma distinct_eligible_rows: "distinct (eligible_rows i seen w)"
  by (induction i seen w rule: eligible_rows.induct) (auto simp: set_eligible_rows)

lemma mset_eligible_rows: "mset (eligible_rows 0 [] w) = mset_set (bucket_heads w)"
proof -
  have "set (eligible_rows 0 [] w) = bucket_heads w"
    by (auto simp: set_eligible_rows bucket_heads_def)
  then show ?thesis by (metis distinct_eligible_rows mset_set_set)
qed

abbreviation bucket_keys :: "LibraryCandidate list \<Rightarrow> int option list" where
  "bucket_keys w \<equiv> map (\<lambda>i. keyOf (w ! i)) (eligible_rows 0 [] w)"

lemma distinct_bucket_keys: "distinct (bucket_keys w)"
proof -
  have "inj_on (\<lambda>i. keyOf (w ! i)) (bucket_heads w)"
    by (rule linorder_inj_onI') (auto simp: bucket_heads_def)
  then show ?thesis
    by (simp add: distinct_map distinct_eligible_rows set_eligible_rows bucket_heads_def)
qed

lemma start_position_lt: "n > 0 \<Longrightarrow> start_position k n pos ks < n"
  by (induction ks arbitrary: pos) auto

lemma start_position_nth:
  "distinct ks \<Longrightarrow> j < length ks \<Longrightarrow> start_position (ks ! j) n pos ks = Suc (pos + j) mod n"
proof (induction ks arbitrary: j pos)
  case (Cons k ks)
  then show ?case by (cases j) auto
qed simp

lemma last_key_commit:
  "lc_LibraryID c \<noteq> Some NullLibrarySentinel \<Longrightarrow>
   last_key (Some (LibraryFairnessCommit cur c)) = Some (keyOf c)"
  by (auto simp: last_key_def LibraryFairnessCommit_def split: option.splits)

definition turn_start :: "LibraryCandidate list \<Rightarrow> LibraryFairnessCursor \<Rightarrow> nat" where
  "turn_start w cur = pick_start (Some cur) (bucket_keys w)"

definition turn_commit ::
  "LibraryCandidate list \<Rightarrow> LibraryFairnessCursor \<Rightarrow> nat \<Rightarrow> LibraryFairnessCursor" where
  "turn_commit w cur j = LibraryFairnessCommit cur (w ! (eligible_rows 0 [] w ! j))"

interpretation fairness: round_robin fair_window "\<lambda>w. length (eligible_rows 0 [] w)"
  turn_start turn_commit
proof
  fix w cur
  assume "fair_window w"
  then show "turn_start w cur < length (eligible_rows 0 [] w)"
    by (auto simp: turn_start_def pick_start_def fair_window_def
        intro!: start_position_lt split: option.splits)
next
  fix w j cur
  let ?e = "eligible_rows 0 [] w"
  assume w: "fair_window w" and j: "j < length ?e"
  then have "?e ! j < length w" using set_eligible_rows [of 0 "[]" w] nth_mem [OF j] by auto
  with w have "last_key (Some (turn_commit w cur j)) = Some (bucket_keys w ! j)"
    using j by (simp add: turn_commit_def last_key_commit fair_window_def)
  then show "turn_start w (turn_commit w cur j) = Suc j mod length ?e"
    using j start_position_nth [OF distinct_bucket_keys, of j w "length ?e" 0]
    by (simp add: turn_start_def pick_start_def)
qed

lemma serve_fair:
  assumes "fair_window w"
  shows "serve w cur = (Some (eligible_rows 0 [] w ! turn_start w cur),
                        turn_commit w cur (turn_start w cur))"
proof -
  from assms have "w \<noteq> []" by (auto simp: fair_window_def)
  with assms show ?thesis
    by (simp add: serve_def LibraryFairnessPick_def fair_window_def turn_commit_def turn_start_def
        Let_def)
qed

lemma serve_times_turns:
  "fair_window w \<Longrightarrow>
   serve_times k w cur = map (\<lambda>j. Some (eligible_rows 0 [] w ! j)) (fairness.turns k w cur)"
  by (induction k arbitrary: cur) (auto simp: serve_fair)

text \<open>C11: library fairness.  Over as many turns as the window has libraries with live rows, the
  claimer picks the first live row of every library exactly once, wherever the cursor stood
  before: no library is starved and none is served twice in a round.\<close>
theorem fairness_round_serves_each_once:
  assumes "fair_window w"
  shows "mset (serve_times (length (eligible_rows 0 [] w)) w cur) =
    image_mset Some (mset_set (bucket_heads w))"
proof -
  let ?e = "eligible_rows 0 [] w"
  have "mset (serve_times (length ?e) w cur) = image_mset (\<lambda>j. Some (?e ! j)) (mset [0..<length ?e])"
    using fairness.turns_once [OF assms, of cur] by (simp add: serve_times_turns [OF assms])
  also have "\<dots> = image_mset Some (mset (map (\<lambda>j. ?e ! j) [0..<length ?e]))"
    by (simp add: image_mset.compositionality comp_def del: map_nth)
  also have "\<dots> = image_mset Some (mset_set (bucket_heads w))"
    by (simp only: map_nth mset_eligible_rows)
  finally show ?thesis .
qed

definition example_row :: "int option \<Rightarrow> LibraryCandidate" where
  "example_row l = \<lparr>lc_LibraryID = l, lc_Priority = 0, lc_AvailableAt = 1, lc_CreatedAt = 1,
     lc_ID = 1, lc_Removed = False, lc_Superseded = False\<rparr>"

definition example_window :: "LibraryCandidate list" where
  "example_window = [example_row (Some 4), example_row (Some 4), example_row None, example_row (Some 2)]"

theorem fairness_round_serves_each_once_witness:
  "mset (serve_times 3 example_window \<lparr>fc_TaskType = ''tmdb'', fc_LastServedLibrary = Some 4\<rparr>) =
   image_mset Some (mset_set (bucket_heads example_window))"
proof -
  have e: "eligible_rows 0 [] example_window = [0, 2, 3]" by code_simp
  then have "fair_window example_window"
    by (simp add: fair_window_def) (simp add: example_window_def example_row_def NullLibrarySentinel_def)
  from fairness_round_serves_each_once [OF this] e show ?thesis by (simp add: numeral_3_eq_3)
qed

end
