(* ===== verification/Sched_Store.thy ===== *)
theory Sched_Store
  imports Sched_Policy "HOL-Library.Multiset"
begin

text \<open>
  \<open>internal/scheduler/store.go\<close> and \<open>release.go\<close>: the persisted scheduler tables and the
  statements that change them, with the constraints of their schema.  Rows are kept in the order
  of their ids, which AUTOINCREMENT never reuses.  A call that returns an error has rolled its
  statements back, so only a successful call returns a new database.  The text of a policy
  revision is kept as what reading it gives; \<open>now\<close> is the clock, which \<open>CURRENT_TIMESTAMP\<close>
  reads at the resolution of a second.
\<close>

section \<open>Tables\<close>

text \<open>A JSON text: malformed, well-formed but not a policy object, or a policy object.\<close>

datatype policy_text = Malformed | NotAPolicy | PolicyText persistedPolicyJSON

record PolicyRevision =
  pr_ID :: int
  pr_SchemaVersion :: int
  pr_ParentRevisionID :: "int option"
  pr_PolicyJSON :: policy_text
  pr_Author :: string
  pr_Reason :: string
  pr_ValidationHash :: string
  pr_IsActive :: bool
  pr_CreatedAt :: time
  pr_ActivatedAt :: "time option"

record ControlState =
  cs_TaskType :: string
  cs_State :: string
  cs_Revision :: int
  cs_UpdatedAt :: time

record FairnessCursor =
  fn_TaskType :: string
  fn_LastLibraryID :: "int option"
  fn_Initialized :: bool
  fn_Revision :: int
  fn_UpdatedAt :: time

datatype reservation_status = Active | Released

record Reservation =
  rv_ID :: int
  rv_ExecutionID :: string
  rv_TaskType :: string
  rv_ReservedUnits :: int
  rv_PolicyRevisionID :: int
  rv_Status :: reservation_status
  rv_LeaseUntil :: "time option"
  rv_ReleasedAt :: "time option"
  rv_ReleaseReason :: string
  rv_ReleasedBy :: string
  rv_CreatedAt :: time
  rv_UpdatedAt :: time

text \<open>The detail of an audit row is a JSON text: \<open>None\<close> when malformed.\<close>

record AuditEntry =
  ae_ID :: int
  ae_EventType :: string
  ae_Actor :: string
  ae_DetailJSON :: "string option"
  ae_CreatedAt :: time

record SchedDB =
  db_revisions :: "PolicyRevision list"
  db_controls :: "ControlState list"
  db_fairness :: "FairnessCursor list"
  db_reservations :: "Reservation list"
  db_audits :: "AuditEntry list"
  db_revision_seq :: int
  db_reservation_seq :: int
  db_audit_seq :: int

datatype store_error =
    ConstraintFailed
  | NoRows
  | ActivationConflict int "int option"
  | RevisionConflictError int int
  | ReservationNotActive string

definition CURRENT_TIMESTAMP :: "time \<Rightarrow> time" where
  "CURRENT_TIMESTAMP now = now div second * second"

text \<open>\<open>length(s) > 0\<close> in SQLite counts the characters before the first NUL.\<close>

definition sql_nonempty :: "string \<Rightarrow> bool" where
  "sql_nonempty s \<longleftrightarrow> takeWhile (\<lambda>c. c \<noteq> CHR 0x00) s \<noteq> []"

section \<open>Policy revisions\<close>

definition insert_revision ::
  "time \<Rightarrow> int \<Rightarrow> int option \<Rightarrow> policy_text \<Rightarrow> string \<Rightarrow> string \<Rightarrow> string \<Rightarrow> SchedDB \<Rightarrow>
   store_error + int \<times> SchedDB" where
  "insert_revision now ver parent json author reason hash db =
     (if ver > 0 \<and> json \<noteq> Malformed \<and> sql_nonempty author \<and> sql_nonempty reason \<and>
         (case parent of None \<Rightarrow> True | Some q \<Rightarrow> \<exists>r \<in> set (db_revisions db). pr_ID r = q) then
        let newid = db_revision_seq db + 1;
            row = \<lparr>pr_ID = newid, pr_SchemaVersion = ver, pr_ParentRevisionID = parent,
                   pr_PolicyJSON = json, pr_Author = author, pr_Reason = reason,
                   pr_ValidationHash = hash, pr_IsActive = False,
                   pr_CreatedAt = CURRENT_TIMESTAMP now, pr_ActivatedAt = None\<rparr>
        in Inr (newid, db\<lparr>db_revisions := db_revisions db @ [row], db_revision_seq := newid\<rparr>)
      else Inl ConstraintFailed)"

definition GetPolicyRevision :: "SchedDB \<Rightarrow> int \<Rightarrow> store_error + PolicyRevision" where
  "GetPolicyRevision db n =
     (case find (\<lambda>r. pr_ID r = n) (db_revisions db) of None \<Rightarrow> Inl NoRows | Some r \<Rightarrow> Inr r)"

definition GetActivePolicyRevision :: "SchedDB \<Rightarrow> store_error + PolicyRevision" where
  "GetActivePolicyRevision db =
     (case find pr_IsActive (db_revisions db) of None \<Rightarrow> Inl NoRows | Some r \<Rightarrow> Inr r)"

definition ListPolicyRevisions :: "SchedDB \<Rightarrow> PolicyRevision list" where
  "ListPolicyRevisions db = sort_key pr_CreatedAt (db_revisions db)"

definition CreatePolicyRevision ::
  "time \<Rightarrow> int \<Rightarrow> int option \<Rightarrow> policy_text \<Rightarrow> string \<Rightarrow> string \<Rightarrow> string \<Rightarrow> SchedDB \<Rightarrow>
   store_error + PolicyRevision \<times> SchedDB" where
  "CreatePolicyRevision now ver parent json author reason hash db =
     and_then (insert_revision now ver parent json author reason hash db)
       (\<lambda>(n, db'). and_then (GetPolicyRevision db' n) (\<lambda>r. Inr (r, db')))"

definition active_id :: "SchedDB \<Rightarrow> int option" where
  "active_id db = map_option pr_ID (find pr_IsActive (db_revisions db))"

text \<open>The two updates that both activation paths run.\<close>

definition switch_active :: "time \<Rightarrow> int \<Rightarrow> SchedDB \<Rightarrow> SchedDB" where
  "switch_active now n db =
     (let cleared = sql_update pr_IsActive (\<lambda>r. r\<lparr>pr_IsActive := False\<rparr>) (db_revisions db)
      in db\<lparr>db_revisions := sql_update (\<lambda>r. pr_ID r = n)
             (\<lambda>r. r\<lparr>pr_IsActive := True, pr_ActivatedAt := Some (CURRENT_TIMESTAMP now)\<rparr>)
             cleared\<rparr>)"

definition ActivatePolicyRevision ::
  "time \<Rightarrow> int \<Rightarrow> int \<Rightarrow> SchedDB \<Rightarrow> store_error + SchedDB" where
  "ActivatePolicyRevision now revisionID expectedRevision db =
     (if (if expectedRevision = -1 then active_id db \<noteq> None
          else active_id db = None \<or> the (active_id db) \<noteq> expectedRevision)
      then Inl (ActivationConflict expectedRevision (active_id db))
      else Inr (switch_active now revisionID db))"

section \<open>Audit\<close>

definition insert_audit ::
  "time \<Rightarrow> string \<Rightarrow> string \<Rightarrow> string option \<Rightarrow> SchedDB \<Rightarrow> store_error + int \<times> SchedDB" where
  "insert_audit now event actor detail db =
     (if sql_nonempty event \<and> sql_nonempty actor \<and> detail \<noteq> None then
        let newid = db_audit_seq db + 1;
            row = \<lparr>ae_ID = newid, ae_EventType = event, ae_Actor = actor, ae_DetailJSON = detail,
                   ae_CreatedAt = CURRENT_TIMESTAMP now\<rparr>
        in Inr (newid, db\<lparr>db_audits := db_audits db @ [row], db_audit_seq := newid\<rparr>)
      else Inl ConstraintFailed)"

definition RecordAudit ::
  "time \<Rightarrow> string \<Rightarrow> string \<Rightarrow> string option \<Rightarrow> SchedDB \<Rightarrow>
   store_error + AuditEntry \<times> SchedDB" where
  "RecordAudit now event actor detail db =
     and_then (insert_audit now event actor detail db)
       (\<lambda>(n, db'). Inr (\<lparr>ae_ID = n, ae_EventType = event, ae_Actor = actor,
                          ae_DetailJSON = detail, ae_CreatedAt = now\<rparr>, db'))"

text \<open>A negative LIMIT means no limit in SQLite.\<close>

definition ListAudit :: "SchedDB \<Rightarrow> int \<Rightarrow> AuditEntry list" where
  "ListAudit db limit =
     (let rows = sort_key ae_CreatedAt (db_audits db)
      in if limit < 0 then rows else take (nat limit) rows)"

section \<open>Applying a policy\<close>

record ApplyPolicyRevisionParams =
  ap_SchemaVersion :: int
  ap_ParentRevisionID :: "int option"
  ap_PolicyJSON :: policy_text
  ap_Author :: string
  ap_Reason :: string
  ap_ValidationHash :: string
  ap_ExpectedRevision :: int
  ap_AuditEventType :: string
  ap_AuditDetailJSON :: "string option"

definition ApplyPolicyRevision ::
  "time \<Rightarrow> ApplyPolicyRevisionParams \<Rightarrow> SchedDB \<Rightarrow> store_error + PolicyRevision \<times> SchedDB" where
  "ApplyPolicyRevision now a db =
     (let current = (case active_id db of None \<Rightarrow> 0 | Some n \<Rightarrow> n)
      in if (if ap_ExpectedRevision a = -1 then active_id db \<noteq> None
             else active_id db = None \<or> the (active_id db) \<noteq> ap_ExpectedRevision a)
         then Inl (RevisionConflictError (ap_ExpectedRevision a) current)
         else
           and_then (insert_revision now (ap_SchemaVersion a) (ap_ParentRevisionID a)
                      (ap_PolicyJSON a) (ap_Author a) (ap_Reason a) (ap_ValidationHash a) db)
             (\<lambda>(newID, db1).
                and_then (insert_audit now (ap_AuditEventType a) (ap_Author a)
                           (ap_AuditDetailJSON a) (switch_active now newID db1))
                  (\<lambda>(_, db2). and_then (GetPolicyRevision db2 newID) (\<lambda>r. Inr (r, db2)))))"

section \<open>Control and fairness rows\<close>

definition GetControlState :: "SchedDB \<Rightarrow> string \<Rightarrow> store_error + ControlState" where
  "GetControlState db t =
     (case find (\<lambda>c. cs_TaskType c = t) (db_controls db) of None \<Rightarrow> Inl NoRows | Some c \<Rightarrow> Inr c)"

definition SetControlState ::
  "time \<Rightarrow> string \<Rightarrow> string \<Rightarrow> SchedDB \<Rightarrow> store_error + SchedDB" where
  "SetControlState now t state db =
     (if state \<notin> {''paused'', ''draining'', ''running''} then Inl ConstraintFailed
      else if \<exists>c \<in> set (db_controls db). cs_TaskType c = t then
        Inr (db\<lparr>db_controls := sql_update (\<lambda>c. cs_TaskType c = t)
               (\<lambda>c. c\<lparr>cs_State := state, cs_Revision := cs_Revision c + 1,
                       cs_UpdatedAt := CURRENT_TIMESTAMP now\<rparr>) (db_controls db)\<rparr>)
      else
        Inr (db\<lparr>db_controls := db_controls db @
               [\<lparr>cs_TaskType = t, cs_State = state, cs_Revision = 1,
                 cs_UpdatedAt = CURRENT_TIMESTAMP now\<rparr>]\<rparr>))"

definition GetFairnessCursor :: "SchedDB \<Rightarrow> string \<Rightarrow> store_error + FairnessCursor" where
  "GetFairnessCursor db t =
     (case find (\<lambda>c. fn_TaskType c = t) (db_fairness db) of None \<Rightarrow> Inl NoRows | Some c \<Rightarrow> Inr c)"

definition AdvanceFairnessCursor ::
  "time \<Rightarrow> string \<Rightarrow> int option \<Rightarrow> SchedDB \<Rightarrow> store_error + SchedDB" where
  "AdvanceFairnessCursor now t library db =
     (if \<not> sql_nonempty t then Inl ConstraintFailed
      else if \<exists>c \<in> set (db_fairness db). fn_TaskType c = t then
        Inr (db\<lparr>db_fairness := sql_update (\<lambda>c. fn_TaskType c = t)
               (\<lambda>c. c\<lparr>fn_LastLibraryID := library, fn_Initialized := True,
                       fn_Revision := fn_Revision c + 1,
                       fn_UpdatedAt := CURRENT_TIMESTAMP now\<rparr>) (db_fairness db)\<rparr>)
      else
        Inr (db\<lparr>db_fairness := db_fairness db @
               [\<lparr>fn_TaskType = t, fn_LastLibraryID = library, fn_Initialized = True,
                 fn_Revision = 1, fn_UpdatedAt = CURRENT_TIMESTAMP now\<rparr>]\<rparr>))"

section \<open>Reservations\<close>

definition insert_reservation ::
  "time \<Rightarrow> string \<Rightarrow> string \<Rightarrow> int \<Rightarrow> int \<Rightarrow> time \<Rightarrow> SchedDB \<Rightarrow> store_error + int \<times> SchedDB" where
  "insert_reservation now exec t units revID leaseUntil db =
     (if sql_nonempty exec \<and> sql_nonempty t \<and> units > 0 \<and>
         (\<forall>r \<in> set (db_reservations db). rv_ExecutionID r \<noteq> exec) \<and>
         (\<exists>r \<in> set (db_revisions db). pr_ID r = revID) then
        let newid = db_reservation_seq db + 1;
            row = \<lparr>rv_ID = newid, rv_ExecutionID = exec, rv_TaskType = t,
                   rv_ReservedUnits = units, rv_PolicyRevisionID = revID, rv_Status = Active,
                   rv_LeaseUntil = Some leaseUntil, rv_ReleasedAt = None, rv_ReleaseReason = [],
                   rv_ReleasedBy = [], rv_CreatedAt = CURRENT_TIMESTAMP now,
                   rv_UpdatedAt = CURRENT_TIMESTAMP now\<rparr>
        in Inr (newid, db\<lparr>db_reservations := db_reservations db @ [row],
                          db_reservation_seq := newid\<rparr>)
      else Inl ConstraintFailed)"

definition GetReservation :: "SchedDB \<Rightarrow> string \<Rightarrow> store_error + Reservation" where
  "GetReservation db exec =
     (case find (\<lambda>r. rv_ExecutionID r = exec) (db_reservations db) of
        None \<Rightarrow> Inl NoRows | Some r \<Rightarrow> Inr r)"

definition CreateReservation ::
  "time \<Rightarrow> string \<Rightarrow> string \<Rightarrow> int \<Rightarrow> int \<Rightarrow> time \<Rightarrow> SchedDB \<Rightarrow>
   store_error + Reservation \<times> SchedDB" where
  "CreateReservation now exec t units revID leaseUntil db =
     and_then (insert_reservation now exec t units revID leaseUntil db)
       (\<lambda>(_, db'). and_then (GetReservation db' exec) (\<lambda>r. Inr (r, db')))"

definition ListActiveReservations :: "SchedDB \<Rightarrow> Reservation list" where
  "ListActiveReservations db =
     sort_key rv_CreatedAt (filter (\<lambda>r. rv_Status r = Active) (db_reservations db))"

text \<open>The rows \<open>WHERE execution_id=? AND status='active'\<close>, and their release.\<close>

abbreviation holds :: "string \<Rightarrow> Reservation \<Rightarrow> bool" where
  "holds exec r \<equiv> rv_ExecutionID r = exec \<and> rv_Status r = Active"

definition released_row :: "time \<Rightarrow> string \<Rightarrow> string \<Rightarrow> Reservation \<Rightarrow> Reservation" where
  "released_row now reason releasedBy r =
     r\<lparr>rv_Status := Released, rv_ReleasedAt := Some (CURRENT_TIMESTAMP now),
       rv_ReleaseReason := reason, rv_ReleasedBy := releasedBy,
       rv_UpdatedAt := CURRENT_TIMESTAMP now\<rparr>"

definition ReleaseReservationTx ::
  "time \<Rightarrow> string \<Rightarrow> string \<Rightarrow> string \<Rightarrow> SchedDB \<Rightarrow> store_error + SchedDB" where
  "ReleaseReservationTx now exec reason releasedBy db =
     (let n = sql_affected (holds exec) (db_reservations db)
      in if n > 0 \<and> (reason = [] \<or> releasedBy = []) then Inl ConstraintFailed
         else if n = 0 then Inl (ReservationNotActive exec)
         else Inr (db\<lparr>db_reservations := sql_update (holds exec)
                       (released_row now reason releasedBy) (db_reservations db)\<rparr>))"

text \<open>\<open>Store.ReleaseReservation\<close> is the same statement outside a transaction.\<close>

definition ReleaseReservation ::
  "time \<Rightarrow> string \<Rightarrow> string \<Rightarrow> string \<Rightarrow> SchedDB \<Rightarrow> store_error + SchedDB" where
  "ReleaseReservation now exec reason releasedBy db =
     ReleaseReservationTx now exec reason releasedBy db"

definition renew_lease :: "time \<Rightarrow> string \<Rightarrow> time \<Rightarrow> SchedDB \<Rightarrow> SchedDB" where
  "renew_lease now exec renewUntil db =
     db\<lparr>db_reservations := sql_update (holds exec)
         (\<lambda>r. r\<lparr>rv_LeaseUntil := Some renewUntil, rv_UpdatedAt := CURRENT_TIMESTAMP now\<rparr>)
         (db_reservations db)\<rparr>"

definition effective_ttl :: "duration \<Rightarrow> duration" where
  "effective_ttl leaseTTL = (if leaseTTL \<le> 0 then 90 * second else leaseTTL)"

definition RenewReservationTx :: "time \<Rightarrow> string \<Rightarrow> duration \<Rightarrow> SchedDB \<Rightarrow> SchedDB" where
  "RenewReservationTx now exec leaseTTL db =
     (if TrimSpace exec = [] then db
      else renew_lease now exec (now + effective_ttl leaseTTL) db)"

definition RenewReservationDirect :: "time \<Rightarrow> string \<Rightarrow> duration \<Rightarrow> SchedDB \<Rightarrow> SchedDB" where
  "RenewReservationDirect now exec leaseTTL db =
     (if TrimSpace exec = [] then db else RenewReservationTx now exec leaseTTL db)"

definition ActiveReservationCountTx :: "SchedDB \<Rightarrow> string \<Rightarrow> nat" where
  "ActiveReservationCountTx db t =
     length (filter (\<lambda>r. rv_TaskType r = t \<and> rv_Status r = Active) (db_reservations db))"

section \<open>Invariant of the tables\<close>

definition revision_rows_ok :: "SchedDB \<Rightarrow> bool" where
  "revision_rows_ok db \<longleftrightarrow> 0 \<le> db_revision_seq db \<and> distinct (map pr_ID (db_revisions db)) \<and>
     (\<forall>r \<in> set (db_revisions db). 0 < pr_ID r \<and> pr_ID r \<le> db_revision_seq db) \<and>
     (\<forall>r \<in> set (db_revisions db). \<forall>s \<in> set (db_revisions db).
        pr_IsActive r \<and> pr_IsActive s \<longrightarrow> r = s) \<and>
     (\<forall>r \<in> set (db_revisions db). pr_PolicyJSON r \<noteq> Malformed)"

definition reservation_row_ok :: "SchedDB \<Rightarrow> Reservation \<Rightarrow> bool" where
  "reservation_row_ok db r \<longleftrightarrow> 0 < rv_ReservedUnits r \<and> rv_ExecutionID r \<noteq> [] \<and>
     rv_PolicyRevisionID r \<in> pr_ID ` set (db_revisions db) \<and> rv_ID r \<le> db_reservation_seq db \<and>
     (case rv_Status r of
        Active \<Rightarrow> rv_ReleasedAt r = None \<and> rv_ReleaseReason r = [] \<and> rv_ReleasedBy r = []
      | Released \<Rightarrow> rv_ReleasedAt r \<noteq> None \<and> rv_ReleaseReason r \<noteq> [] \<and> rv_ReleasedBy r \<noteq> [])"

definition reservation_rows_ok :: "SchedDB \<Rightarrow> bool" where
  "reservation_rows_ok db \<longleftrightarrow> distinct (map rv_ID (db_reservations db)) \<and>
     distinct (map rv_ExecutionID (db_reservations db)) \<and>
     (\<forall>r \<in> set (db_reservations db). reservation_row_ok db r)"

definition control_rows_ok :: "SchedDB \<Rightarrow> bool" where
  "control_rows_ok db \<longleftrightarrow> distinct (map cs_TaskType (db_controls db)) \<and>
     (\<forall>c \<in> set (db_controls db). 0 < cs_Revision c \<and>
        cs_State c \<in> {''paused'', ''draining'', ''running''})"

definition fairness_rows_ok :: "SchedDB \<Rightarrow> bool" where
  "fairness_rows_ok db \<longleftrightarrow> distinct (map fn_TaskType (db_fairness db)) \<and>
     (\<forall>c \<in> set (db_fairness db). 0 < fn_Revision c \<and> fn_Initialized c)"

definition store_ok :: "SchedDB \<Rightarrow> bool" where
  "store_ok db \<longleftrightarrow> revision_rows_ok db \<and> reservation_rows_ok db \<and> control_rows_ok db \<and>
     fairness_rows_ok db"

definition empty_db :: SchedDB where
  "empty_db = \<lparr>db_revisions = [], db_controls = [], db_fairness = [], db_reservations = [],
     db_audits = [], db_revision_seq = 0, db_reservation_seq = 0, db_audit_seq = 0\<rparr>"

lemma store_ok_empty: "store_ok empty_db"
  by (simp add: store_ok_def empty_db_def revision_rows_ok_def reservation_rows_ok_def
      control_rows_ok_def fairness_rows_ok_def)

lemma find_append_case:
  "find P (xs @ ys) = (case find P xs of None \<Rightarrow> find P ys | Some x \<Rightarrow> Some x)"
  by (induction xs) auto

text \<open>Each statement changes one table.\<close>

lemma insert_revision_ok:
  assumes "insert_revision now ver parent json author reason hash db = Inr (n, db')" "store_ok db"
  shows "store_ok db'" "n = db_revision_seq db + 1" "db_reservations db' = db_reservations db"
    "db_audits db' = db_audits db" "find (\<lambda>r. pr_ID r = n) (db_revisions db') \<noteq> None"
    "\<forall>r \<in> set (db_revisions db). pr_ID r \<noteq> n" "active_id db' = active_id db"
proof -
  have seq: "0 \<le> db_revision_seq db"
    "\<And>r. r \<in> set (db_revisions db) \<Longrightarrow> pr_ID r \<le> db_revision_seq db"
    using assms(2) by (auto simp: store_ok_def revision_rows_ok_def)
  define row where "row = \<lparr>pr_ID = db_revision_seq db + 1, pr_SchemaVersion = ver,
    pr_ParentRevisionID = parent, pr_PolicyJSON = json, pr_Author = author, pr_Reason = reason,
    pr_ValidationHash = hash, pr_IsActive = False, pr_CreatedAt = CURRENT_TIMESTAMP now,
    pr_ActivatedAt = None\<rparr>"
  have n: "n = db_revision_seq db + 1" and json: "json \<noteq> Malformed"
    and db': "db' = db\<lparr>db_revisions := db_revisions db @ [row], db_revision_seq := n\<rparr>"
    using assms(1)
    by (simp_all add: insert_revision_def Let_def row_def split: if_splits) (elim conjE, simp)
  have row: "pr_ID row = n" "\<not> pr_IsActive row" "pr_PolicyJSON row \<noteq> Malformed"
    using json by (simp_all add: row_def n)
  show "n = db_revision_seq db + 1" by (rule n)
  show "db_reservations db' = db_reservations db" "db_audits db' = db_audits db"
    by (simp_all add: db')
  show fresh: "\<forall>r \<in> set (db_revisions db). pr_ID r \<noteq> n" using seq n by fastforce
  show "find (\<lambda>r. pr_ID r = n) (db_revisions db') \<noteq> None"
    by (auto simp: db' row find_None_iff)
  show "active_id db' = active_id db"
    by (auto simp: db' row active_id_def find_append_case split: option.splits)
  have "revision_rows_ok db'"
    using assms(2) seq n row fresh
    by (auto simp: db' store_ok_def revision_rows_ok_def dest: seq(2))
  moreover have "reservation_rows_ok db'" "control_rows_ok db'" "fairness_rows_ok db'"
    using assms(2)
    by (auto simp: db' store_ok_def reservation_rows_ok_def reservation_row_ok_def
        control_rows_ok_def fairness_rows_ok_def)
  ultimately show "store_ok db'" by (simp add: store_ok_def)
qed

lemma switch_active_ok:
  assumes "store_ok db"
  shows "store_ok (switch_active now n db)"
    "db_reservations (switch_active now n db) = db_reservations db"
    "db_audits (switch_active now n db) = db_audits db"
    "pr_ID ` set (db_revisions (switch_active now n db)) = pr_ID ` set (db_revisions db)"
    "r \<in> set (db_revisions (switch_active now n db)) \<Longrightarrow> pr_IsActive r \<longleftrightarrow> pr_ID r = n"
proof -
  let ?db = "switch_active now n db"
  have ids: "map pr_ID (db_revisions ?db) = map pr_ID (db_revisions db)"
    by (simp add: switch_active_def map_sql_update_id)
  show set_ids: "pr_ID ` set (db_revisions ?db) = pr_ID ` set (db_revisions db)"
    using arg_cong [OF ids, of set] by simp
  have act: "pr_IsActive r \<longleftrightarrow> pr_ID r = n" if "r \<in> set (db_revisions ?db)" for r
    using that by (auto simp: switch_active_def sql_update_def)
  then show "r \<in> set (db_revisions ?db) \<Longrightarrow> pr_IsActive r \<longleftrightarrow> pr_ID r = n" .
  have rows: "revision_rows_ok db" using assms by (simp add: store_ok_def)
  have "distinct (map pr_ID (db_revisions ?db))" using rows by (simp add: ids revision_rows_ok_def)
  then have uniq: "r = s" if "r \<in> set (db_revisions ?db)" "s \<in> set (db_revisions ?db)"
    "pr_ID r = pr_ID s" for r s
    using that by (auto simp: distinct_map inj_on_def)
  have "\<forall>i \<in> pr_ID ` set (db_revisions ?db). 0 < i \<and> i \<le> db_revision_seq db"
    unfolding set_ids using rows by (auto simp: revision_rows_ok_def)
  then have bounds: "\<forall>r \<in> set (db_revisions ?db). 0 < pr_ID r \<and> pr_ID r \<le> db_revision_seq db"
    by blast
  have wf: "\<forall>r \<in> set (db_revisions ?db). pr_PolicyJSON r \<noteq> Malformed"
    using rows by (auto simp: switch_active_def sql_update_def revision_rows_ok_def split: if_splits)
  have "revision_rows_ok ?db"
    unfolding revision_rows_ok_def
    using bounds wf uniq act rows ids by (auto simp: revision_rows_ok_def switch_active_def)
  then show "store_ok ?db"
    using assms set_ids
    by (auto simp: store_ok_def switch_active_def reservation_rows_ok_def reservation_row_ok_def
        control_rows_ok_def fairness_rows_ok_def)
  show "db_reservations ?db = db_reservations db" "db_audits ?db = db_audits db"
    by (simp_all add: switch_active_def)
qed

lemma insert_audit_ok:
  assumes "insert_audit now event actor detail db = Inr (n, db')" "store_ok db"
  shows "store_ok db'" "db_reservations db' = db_reservations db"
    "db_revisions db' = db_revisions db"
    "db_audits db' = db_audits db @ [\<lparr>ae_ID = n, ae_EventType = event, ae_Actor = actor,
       ae_DetailJSON = detail, ae_CreatedAt = CURRENT_TIMESTAMP now\<rparr>]"
proof -
  let ?row = "\<lparr>ae_ID = n, ae_EventType = event, ae_Actor = actor, ae_DetailJSON = detail,
    ae_CreatedAt = CURRENT_TIMESTAMP now\<rparr>"
  have db': "db' = db\<lparr>db_audits := db_audits db @ [?row], db_audit_seq := n\<rparr>"
    using assms(1) by (simp add: insert_audit_def Let_def split: if_splits) (elim conjE, simp)
  show "db_reservations db' = db_reservations db" "db_revisions db' = db_revisions db"
    "db_audits db' = db_audits db @ [?row]"
    by (simp_all add: db')
  show "store_ok db'" using assms(2)
    by (simp add: db' store_ok_def revision_rows_ok_def reservation_rows_ok_def
        reservation_row_ok_def control_rows_ok_def fairness_rows_ok_def)
qed

lemma GetPolicyRevision_Inr:
  "GetPolicyRevision db n = Inr r \<longleftrightarrow> find (\<lambda>r. pr_ID r = n) (db_revisions db) = Some r"
  by (simp add: GetPolicyRevision_def split: option.splits)

lemma CreatePolicyRevision_ok:
  "CreatePolicyRevision now ver parent json author reason hash db = Inr (r, db') \<Longrightarrow>
   store_ok db \<Longrightarrow> store_ok db'"
  by (auto simp: CreatePolicyRevision_def and_then_Inr_iff dest: insert_revision_ok)

lemma ApplyPolicyRevision_ok:
  assumes "ApplyPolicyRevision now a db = Inr (r, db')" "store_ok db"
  shows "store_ok db'" "db_reservations db' = db_reservations db"
    "pr_ID r = db_revision_seq db + 1" "active_id db' = Some (pr_ID r)"
    "r \<in> set (db_revisions db')" "\<forall>s \<in> set (db_revisions db). pr_ID s \<noteq> pr_ID r"
    "map ae_EventType (db_audits db') = map ae_EventType (db_audits db) @ [ap_AuditEventType a]"
    "active_id db = (if ap_ExpectedRevision a = -1 then None else Some (ap_ExpectedRevision a))"
proof -
  from assms(1) obtain n db1 k db2 where
    ins: "insert_revision now (ap_SchemaVersion a) (ap_ParentRevisionID a) (ap_PolicyJSON a)
       (ap_Author a) (ap_Reason a) (ap_ValidationHash a) db = Inr (n, db1)"
    and aud: "insert_audit now (ap_AuditEventType a) (ap_Author a) (ap_AuditDetailJSON a)
       (switch_active now n db1) = Inr (k, db2)"
    and get: "GetPolicyRevision db2 n = Inr r" and db': "db' = db2"
    and exp: "active_id db = (if ap_ExpectedRevision a = -1 then None
       else Some (ap_ExpectedRevision a))"
    by (auto simp: ApplyPolicyRevision_def Let_def and_then_Inr_iff split: if_splits)
  note i = insert_revision_ok [OF ins assms(2)]
  note s = switch_active_ok [OF i(1), where now = now and n = n]
  note u = insert_audit_ok [OF aud s(1)]
  show "store_ok db'" using u(1) db' by simp
  show "db_reservations db' = db_reservations db" using db' u(2) s(2) i(3) by simp
  have r: "r \<in> set (db_revisions db2)" "pr_ID r = n"
    using get find_set by (fastforce simp: GetPolicyRevision_Inr)+
  then show "r \<in> set (db_revisions db')" "pr_ID r = db_revision_seq db + 1"
    using i(2) db' by simp_all
  show "\<forall>s \<in> set (db_revisions db). pr_ID s \<noteq> pr_ID r" using i(6) r(2) by simp
  show "map ae_EventType (db_audits db') = map ae_EventType (db_audits db) @ [ap_AuditEventType a]"
    using db' u(4) s(3) i(4) by simp
  show "active_id db = (if ap_ExpectedRevision a = -1 then None
      else Some (ap_ExpectedRevision a))" by (rule exp)
  have act: "pr_IsActive q \<longleftrightarrow> pr_ID q = n" if "q \<in> set (db_revisions db2)" for q
    using that s(5) u(3) by simp
  obtain q where q: "find pr_IsActive (db_revisions db2) = Some q"
    using r act by (cases "find pr_IsActive (db_revisions db2)") (auto simp: find_None_iff)
  with act [of q] find_set [OF q] r(2) show "active_id db' = Some (pr_ID r)"
    by (simp add: active_id_def db')
qed

lemma insert_revision_row:
  assumes "insert_revision now ver parent json author reason hash db = Inr (n, db')" "store_ok db"
  shows "\<forall>r \<in> set (db_revisions db'). pr_ID r = n \<longrightarrow> pr_PolicyJSON r = json"
proof -
  define row where "row = \<lparr>pr_ID = db_revision_seq db + 1, pr_SchemaVersion = ver,
    pr_ParentRevisionID = parent, pr_PolicyJSON = json, pr_Author = author, pr_Reason = reason,
    pr_ValidationHash = hash, pr_IsActive = False, pr_CreatedAt = CURRENT_TIMESTAMP now,
    pr_ActivatedAt = None\<rparr>"
  have "db' = db\<lparr>db_revisions := db_revisions db @ [row], db_revision_seq := n\<rparr>"
    using assms(1)
    by (simp add: insert_revision_def Let_def row_def split: if_splits) (elim conjE, simp)
  then have "set (db_revisions db') = insert row (set (db_revisions db))" by simp
  moreover have "pr_PolicyJSON row = json" by (simp add: row_def)
  ultimately show ?thesis using insert_revision_ok(6) [OF assms] by simp
qed

lemma switch_active_payload:
  assumes "q \<in> set (db_revisions (switch_active now n db))"
  shows "\<exists>r \<in> set (db_revisions db). pr_ID q = pr_ID r \<and> pr_PolicyJSON q = pr_PolicyJSON r"
proof -
  from assms obtain r where r: "r \<in> set (db_revisions db)"
    and "q = (\<lambda>r. if pr_ID r = n then r\<lparr>pr_IsActive := True,
        pr_ActivatedAt := Some (CURRENT_TIMESTAMP now)\<rparr> else r)
      (if pr_IsActive r then r\<lparr>pr_IsActive := False\<rparr> else r)"
    by (auto simp: switch_active_def sql_update_def simp del: PolicyRevision.simps)
  then have "pr_ID q = pr_ID r \<and> pr_PolicyJSON q = pr_PolicyJSON r" by simp
  with r show ?thesis by blast
qed

lemma ApplyPolicyRevision_payload:
  assumes "ApplyPolicyRevision now a db = Inr (r, db')" "store_ok db"
  shows "pr_PolicyJSON r = ap_PolicyJSON a"
proof -
  from assms(1) obtain n db1 k db2 where
    ins: "insert_revision now (ap_SchemaVersion a) (ap_ParentRevisionID a) (ap_PolicyJSON a)
       (ap_Author a) (ap_Reason a) (ap_ValidationHash a) db = Inr (n, db1)"
    and aud: "insert_audit now (ap_AuditEventType a) (ap_Author a) (ap_AuditDetailJSON a)
       (switch_active now n db1) = Inr (k, db2)"
    and get: "GetPolicyRevision db2 n = Inr r"
    by (auto simp: ApplyPolicyRevision_def Let_def and_then_Inr_iff split: if_splits)
  have "db_revisions db2 = db_revisions (switch_active now n db1)"
    using insert_audit_ok(3) [OF aud] switch_active_ok(1) insert_revision_ok(1) [OF ins assms(2)] by blast
  moreover have "r \<in> set (db_revisions db2)" "pr_ID r = n"
    using get find_set by (fastforce simp: GetPolicyRevision_Inr)+
  ultimately obtain q where "q \<in> set (db_revisions db1)" "pr_ID q = n" "pr_PolicyJSON r = pr_PolicyJSON q"
    using switch_active_payload [of r now n db1] by auto
  with insert_revision_row [OF ins assms(2)] show ?thesis by simp
qed

lemma ActivatePolicyRevision_ok:
  "ActivatePolicyRevision now n e db = Inr db' \<Longrightarrow> store_ok db \<Longrightarrow> store_ok db'"
  by (auto simp: ActivatePolicyRevision_def switch_active_ok split: if_splits)

lemma insert_reservation_row:
  assumes "insert_reservation now exec t units revid lease db = Inr (n, db')"
  shows "\<exists>row. db_reservations db' = db_reservations db @ [row] \<and> rv_ExecutionID row = exec \<and>
      rv_TaskType row = t \<and> rv_ReservedUnits row = units \<and> rv_Status row = Active \<and>
      rv_LeaseUntil row = Some lease"
    "\<forall>r \<in> set (db_reservations db). rv_ExecutionID r \<noteq> exec"
proof -
  define row where "row = \<lparr>rv_ID = db_reservation_seq db + 1, rv_ExecutionID = exec, rv_TaskType = t,
    rv_ReservedUnits = units, rv_PolicyRevisionID = revid, rv_Status = Active,
    rv_LeaseUntil = Some lease, rv_ReleasedAt = None, rv_ReleaseReason = [], rv_ReleasedBy = [],
    rv_CreatedAt = CURRENT_TIMESTAMP now, rv_UpdatedAt = CURRENT_TIMESTAMP now\<rparr>"
  have "db' = db\<lparr>db_reservations := db_reservations db @ [row], db_reservation_seq := n\<rparr>"
    and fresh: "\<forall>r \<in> set (db_reservations db). rv_ExecutionID r \<noteq> exec"
    using assms
    by (simp_all add: insert_reservation_def Let_def row_def split: if_splits) (elim conjE, simp)
  then show "\<exists>row. db_reservations db' = db_reservations db @ [row] \<and> rv_ExecutionID row = exec \<and>
      rv_TaskType row = t \<and> rv_ReservedUnits row = units \<and> rv_Status row = Active \<and>
      rv_LeaseUntil row = Some lease"
    by (intro exI [of _ row]) (simp add: row_def)
  show "\<forall>r \<in> set (db_reservations db). rv_ExecutionID r \<noteq> exec" by (rule fresh)
qed

lemma insert_reservation_ok:
  assumes "insert_reservation now exec t units revid lease db = Inr (n, db')" "store_ok db"
  shows "store_ok db'" "\<forall>r \<in> set (db_reservations db). rv_ExecutionID r \<noteq> exec"
    "db_reservations db' = db_reservations db @
       [\<lparr>rv_ID = n, rv_ExecutionID = exec, rv_TaskType = t, rv_ReservedUnits = units,
         rv_PolicyRevisionID = revid, rv_Status = Active, rv_LeaseUntil = Some lease,
         rv_ReleasedAt = None, rv_ReleaseReason = [], rv_ReleasedBy = [],
         rv_CreatedAt = CURRENT_TIMESTAMP now, rv_UpdatedAt = CURRENT_TIMESTAMP now\<rparr>]"
proof -
  let ?row = "\<lparr>rv_ID = n, rv_ExecutionID = exec, rv_TaskType = t, rv_ReservedUnits = units,
    rv_PolicyRevisionID = revid, rv_Status = Active, rv_LeaseUntil = Some lease,
    rv_ReleasedAt = None, rv_ReleaseReason = [], rv_ReleasedBy = [],
    rv_CreatedAt = CURRENT_TIMESTAMP now, rv_UpdatedAt = CURRENT_TIMESTAMP now\<rparr>"
  have c: "sql_nonempty exec" "0 < units" "\<forall>r \<in> set (db_reservations db). rv_ExecutionID r \<noteq> exec"
    "\<exists>r \<in> set (db_revisions db). pr_ID r = revid" and n: "n = db_reservation_seq db + 1"
    and db': "db' = db\<lparr>db_reservations := db_reservations db @ [?row], db_reservation_seq := n\<rparr>"
    using assms(1)
    by (simp_all add: insert_reservation_def Let_def split: if_splits) (elim conjE, simp)
  show "\<forall>r \<in> set (db_reservations db). rv_ExecutionID r \<noteq> exec" by (rule c)
  show "db_reservations db' = db_reservations db @ [?row]" by (simp add: db')
  have rows: "reservation_rows_ok db" using assms(2) by (simp add: store_ok_def)
  then have old: "reservation_row_ok db r" "rv_ID r \<le> db_reservation_seq db"
    if "r \<in> set (db_reservations db)" for r
    using that by (auto simp: reservation_rows_ok_def reservation_row_ok_def)
  have keep: "reservation_row_ok db' r" if "r \<in> set (db_reservations db)" for r
    using old [OF that] by (auto simp: reservation_row_ok_def db' n)
  have new: "reservation_row_ok db' ?row"
    using c by (auto simp: reservation_row_ok_def db' sql_nonempty_def)
  have "n \<notin> rv_ID ` set (db_reservations db)" using old(2) n by fastforce
  then have "reservation_rows_ok db'"
    using rows c(3) keep new by (auto simp: reservation_rows_ok_def db')
  then show "store_ok db'" using assms(2)
    by (simp add: store_ok_def db' revision_rows_ok_def control_rows_ok_def fairness_rows_ok_def)
qed

text \<open>Updates of reservation rows that keep ids and well-formedness.\<close>

lemma reservations_update_ok:
  assumes "store_ok db" "\<And>r. rv_ID (f r) = rv_ID r \<and> rv_ExecutionID (f r) = rv_ExecutionID r"
    "\<And>r. r \<in> set (db_reservations db) \<Longrightarrow> P r \<Longrightarrow> reservation_row_ok db (f r)"
  shows "store_ok (db\<lparr>db_reservations := sql_update P f (db_reservations db)\<rparr>)"
  using assms
  by (auto simp: store_ok_def revision_rows_ok_def reservation_rows_ok_def map_sql_update_id
      control_rows_ok_def fairness_rows_ok_def set_sql_update reservation_row_ok_def)

lemma release_update_ok:
  assumes "store_ok db" "reason \<noteq> []" "by \<noteq> []"
  shows "store_ok (db\<lparr>db_reservations := sql_update (holds exec) (released_row now reason by)
    (db_reservations db)\<rparr>)"
  using assms
  by (intro reservations_update_ok)
    (auto simp: released_row_def reservation_row_ok_def store_ok_def reservation_rows_ok_def)

lemma ReleaseReservationTx_ok:
  assumes "ReleaseReservationTx now exec reason by db = Inr db'" "store_ok db"
  shows "store_ok db'"
    "db' = db\<lparr>db_reservations := sql_update (holds exec) (released_row now reason by)
             (db_reservations db)\<rparr>"
    "\<exists>r \<in> set (db_reservations db). holds exec r"
proof -
  show db': "db' = db\<lparr>db_reservations := sql_update (holds exec) (released_row now reason by)
             (db_reservations db)\<rparr>"
    and "\<exists>r \<in> set (db_reservations db). holds exec r"
    using assms(1)
    by (auto simp: ReleaseReservationTx_def Let_def sql_affected_0 split: if_splits)
  then have "reason \<noteq> []" "by \<noteq> []"
    using assms(1)
    by (auto simp: ReleaseReservationTx_def Let_def sql_affected_0 split: if_splits)
  then show "store_ok db'"
    unfolding db' using assms(2) by (intro release_update_ok)
qed

lemma renew_lease_ok: "store_ok db \<Longrightarrow> store_ok (renew_lease now exec t db)"
  unfolding renew_lease_def
  by (intro reservations_update_ok)
    (auto simp: reservation_row_ok_def store_ok_def reservation_rows_ok_def split: reservation_status.splits)

lemma RenewReservationTx_ok: "store_ok db \<Longrightarrow> store_ok (RenewReservationTx now exec ttl db)"
  by (simp add: RenewReservationTx_def renew_lease_ok)

lemma distinct_map_sql_update:
  "(\<And>r. g (f r) = g r) \<Longrightarrow> distinct (map g (sql_update p f rows)) = distinct (map g rows)"
  by (simp add: map_sql_update_id)

lemma SetControlState_reservations:
  "SetControlState now t st db = Inr db' \<Longrightarrow> db_reservations db' = db_reservations db"
  by (auto simp: SetControlState_def split: if_splits)

lemma SetControlState_ok:
  assumes "SetControlState now t st db = Inr db'" "store_ok db"
  shows "store_ok db'" "db_reservations db' = db_reservations db"
proof -
  have "control_rows_ok db'"
    using assms
    by (auto simp: SetControlState_def store_ok_def control_rows_ok_def set_sql_update
        map_sql_update_id less_imp_le split: if_splits)
  then show "store_ok db'"
    using assms
    by (auto simp: SetControlState_def store_ok_def revision_rows_ok_def reservation_rows_ok_def
        reservation_row_ok_def fairness_rows_ok_def split: if_splits)
  show "db_reservations db' = db_reservations db"
    using assms(1) by (auto simp: SetControlState_def split: if_splits)
qed

lemma AdvanceFairnessCursor_ok:
  assumes "AdvanceFairnessCursor now t lib db = Inr db'" "store_ok db"
  shows "store_ok db'"
proof -
  have "fairness_rows_ok db'"
    using assms
    by (auto simp: AdvanceFairnessCursor_def store_ok_def fairness_rows_ok_def set_sql_update
        map_sql_update_id less_imp_le split: if_splits)
  then show "store_ok db'"
    using assms
    by (auto simp: AdvanceFairnessCursor_def store_ok_def revision_rows_ok_def
        reservation_rows_ok_def reservation_row_ok_def control_rows_ok_def split: if_splits)
qed

section \<open>Versioned rows\<close>

text \<open>
  The contract of the keyed upserts: writing a key stores the value and counts the writes of
  that key, and leaves every other key alone.
\<close>

locale versioned_rows =
  fixes row :: "'db \<Rightarrow> string \<Rightarrow> ('v \<times> int) option"
    and upsert :: "time \<Rightarrow> string \<Rightarrow> 'v \<Rightarrow> 'db \<Rightarrow> store_error + 'db"
  assumes upsert_same: "upsert now k v db = Inr db' \<Longrightarrow>
      row db' k = Some (v, 1 + (case row db k of None \<Rightarrow> 0 | Some (_, n) \<Rightarrow> n))"
    and upsert_other: "upsert now k v db = Inr db' \<Longrightarrow> k' \<noteq> k \<Longrightarrow> row db' k' = row db k'"
begin

definition version :: "'db \<Rightarrow> string \<Rightarrow> int" where
  "version db k = (case row db k of None \<Rightarrow> 0 | Some (_, n) \<Rightarrow> n)"

fun writes :: "(time \<times> string \<times> 'v) list \<Rightarrow> 'db \<Rightarrow> store_error + 'db" where
  "writes [] db = Inr db"
| "writes ((now, k, v) # ws) db = and_then (upsert now k v db) (writes ws)"

lemma version_upsert:
  "upsert now k v db = Inr db' \<Longrightarrow> version db' k' = version db k' + (if k' = k then 1 else 0)"
  by (auto simp: version_def upsert_same upsert_other)

lemma version_writes:
  "writes ws db = Inr db' \<Longrightarrow>
   version db' k = version db k + int (length (filter (\<lambda>(_, k', _). k' = k) ws))"
  by (induction ws arbitrary: db) (auto simp: and_then_Inr_iff version_upsert)

lemma row_last_write:
  "writes (ws @ [(now, k, v)]) db = Inr db' \<Longrightarrow> \<exists>n. row db' k = Some (v, n)"
  by (induction ws arbitrary: db) (auto simp: and_then_Inr_iff upsert_same)

lemma row_untouched:
  "writes ws db = Inr db' \<Longrightarrow> k \<notin> (fst \<circ> snd) ` set ws \<Longrightarrow> row db' k = row db k"
  by (induction ws arbitrary: db) (auto simp: and_then_Inr_iff upsert_other)

end

lemma find_sql_update:
  assumes "\<And>r. g (f r) = g r"
  shows "find (\<lambda>r. g r = k) (sql_update (\<lambda>r. g r = k0) f rows) =
    map_option (\<lambda>r. if k = k0 then f r else r) (find (\<lambda>r. g r = k) rows)"
  unfolding sql_update_def by (induction rows) (auto simp: assms)

lemma find_key_None: "\<forall>r \<in> set rows. g r \<noteq> k \<Longrightarrow> find (\<lambda>r. g r = k) rows = None"
  by (auto simp: find_None_iff)

lemma find_key_Some: "r \<in> set rows \<Longrightarrow> \<exists>r'. find (\<lambda>q. g q = g r) rows = Some r'"
  by (cases "find (\<lambda>q. g q = g r) rows") (auto simp: find_None_iff)

definition control_row :: "SchedDB \<Rightarrow> string \<Rightarrow> (string \<times> int) option" where
  "control_row db t = map_option (\<lambda>c. (cs_State c, cs_Revision c))
     (find (\<lambda>c. cs_TaskType c = t) (db_controls db))"

definition fairness_row :: "SchedDB \<Rightarrow> string \<Rightarrow> (int option \<times> int) option" where
  "fairness_row db t = map_option (\<lambda>c. (fn_LastLibraryID c, fn_Revision c))
     (find (\<lambda>c. fn_TaskType c = t) (db_fairness db))"

interpretation control: versioned_rows control_row SetControlState
proof
  fix now k v db db' k'
  assume u: "SetControlState now k v db = Inr db'"
  show "control_row db' k = Some (v, 1 + (case control_row db k of None \<Rightarrow> 0 | Some (_, n) \<Rightarrow> n))"
    using u
    by (auto simp: SetControlState_def control_row_def find_sql_update find_append_case
        dest!: find_key_Some [where g = cs_TaskType] find_key_None [where g = cs_TaskType]
        split: if_splits)
  assume "k' \<noteq> k"
  with u show "control_row db' k' = control_row db k'"
    by (auto simp: SetControlState_def control_row_def find_sql_update find_append_case
        option.map_ident split: if_splits option.splits)
qed

interpretation cursor: versioned_rows fairness_row AdvanceFairnessCursor
proof
  fix now k v db db' k'
  assume u: "AdvanceFairnessCursor now k v db = Inr db'"
  show "fairness_row db' k =
      Some (v, 1 + (case fairness_row db k of None \<Rightarrow> 0 | Some (_, n) \<Rightarrow> n))"
    using u
    by (auto simp: AdvanceFairnessCursor_def fairness_row_def find_sql_update find_append_case
        dest!: find_key_Some [where g = fn_TaskType] find_key_None [where g = fn_TaskType]
        split: if_splits)
  assume "k' \<noteq> k"
  with u show "fairness_row db' k' = fairness_row db k'"
    by (auto simp: AdvanceFairnessCursor_def fairness_row_def find_sql_update find_append_case
        option.map_ident split: if_splits option.splits)
qed

section \<open>Histories\<close>

text \<open>Every statement of the store; a failed one leaves the database as it was.\<close>

datatype store_op =
    OpCreateRevision int "int option" policy_text string string string
  | OpActivate int int
  | OpApply ApplyPolicyRevisionParams
  | OpSetControl string string
  | OpAdvance string "int option"
  | OpReserve string string int int time
  | OpRelease string string string
  | OpRenew string duration
  | OpAudit string string "string option"

definition on_success :: "SchedDB \<Rightarrow> store_error + SchedDB \<Rightarrow> SchedDB" where
  "on_success db r = (case r of Inl _ \<Rightarrow> db | Inr db' \<Rightarrow> db')"

fun store_step :: "time \<Rightarrow> store_op \<Rightarrow> SchedDB \<Rightarrow> SchedDB" where
  "store_step now (OpCreateRevision v q j a r h) db =
     on_success db (map_sum id snd (CreatePolicyRevision now v q j a r h db))"
| "store_step now (OpActivate n e) db = on_success db (ActivatePolicyRevision now n e db)"
| "store_step now (OpApply a) db = on_success db (map_sum id snd (ApplyPolicyRevision now a db))"
| "store_step now (OpSetControl t s) db = on_success db (SetControlState now t s db)"
| "store_step now (OpAdvance t l) db = on_success db (AdvanceFairnessCursor now t l db)"
| "store_step now (OpReserve x t u n l) db =
     on_success db (map_sum id snd (CreateReservation now x t u n l db))"
| "store_step now (OpRelease x r b) db = on_success db (ReleaseReservation now x r b db)"
| "store_step now (OpRenew x d) db = RenewReservationDirect now x d db"
| "store_step now (OpAudit e a d) db = on_success db (map_sum id snd (RecordAudit now e a d db))"

definition store_run :: "(time \<times> store_op) list \<Rightarrow> SchedDB \<Rightarrow> SchedDB" where
  "store_run ops db = fold (\<lambda>(now, op). store_step now op) ops db"

lemma on_success_ok:
  "store_ok db \<Longrightarrow> (\<And>db'. r = Inr db' \<Longrightarrow> store_ok db') \<Longrightarrow> store_ok (on_success db r)"
  by (auto simp: on_success_def split: sum.splits)

lemma on_success_snd_ok:
  "store_ok db \<Longrightarrow> (\<And>x db'. r = Inr (x, db') \<Longrightarrow> store_ok db') \<Longrightarrow>
   store_ok (on_success db (map_sum id snd r))"
  by (cases r) (auto simp: on_success_def)

lemma store_step_ok:
  assumes "store_ok db"
  shows "store_ok (store_step now op db)"
proof (cases op)
  case (OpReserve x t u n l)
  with assms show ?thesis
    by (auto intro!: on_success_snd_ok simp: CreateReservation_def and_then_Inr_iff
        dest: insert_reservation_ok(1))
next
  case (OpAudit e a d)
  with assms show ?thesis
    by (auto intro!: on_success_snd_ok simp: RecordAudit_def and_then_Inr_iff
        dest: insert_audit_ok(1))
qed (use assms in \<open>auto intro!: on_success_ok on_success_snd_ok intro: CreatePolicyRevision_ok
      ActivatePolicyRevision_ok ApplyPolicyRevision_ok(1) SetControlState_ok(1)
      AdvanceFairnessCursor_ok RenewReservationTx_ok ReleaseReservationTx_ok(1)
      simp: ReleaseReservation_def RenewReservationDirect_def\<close>)

lemma store_run_ok: "store_ok db \<Longrightarrow> store_ok (store_run ops db)"
  unfolding store_run_def
  by (induction ops arbitrary: db) (auto simp: store_step_ok)

section \<open>Properties\<close>

text \<open>C4: the tables stay consistent.  Whatever statements run, in whatever order and at whatever
  times, on a new database: at most one policy revision is active, ids and execution ids are
  unique, a reservation names an existing revision, and a row is released exactly when it
  carries release evidence.\<close>
theorem store_invariant: "store_ok (store_run ops empty_db)"
  by (rule store_run_ok [OF store_ok_empty])

lemma active_id_in: "active_id db = Some n \<Longrightarrow> \<exists>r \<in> set (db_revisions db). pr_ID r = n"
  by (auto simp: active_id_def dest!: find_set)

text \<open>Optimistic locking of the policy.  Of two updates that were prepared against the same
  expected revision, at most one is applied: after the first, the second fails with a conflict
  that names the new active revision, and writes nothing.\<close>
theorem ApplyPolicyRevision_single_winner:
  assumes "store_ok db" "ApplyPolicyRevision now a db = Inr (r, db')"
    and "ap_ExpectedRevision b = ap_ExpectedRevision a"
  shows "ApplyPolicyRevision now' b db' =
    Inl (RevisionConflictError (ap_ExpectedRevision b) (pr_ID r))"
proof -
  note ok = ApplyPolicyRevision_ok [OF assms(2,1)]
  have "ap_ExpectedRevision a \<noteq> -1 \<Longrightarrow> ap_ExpectedRevision a \<noteq> pr_ID r"
    using ok(6,8) active_id_in [of db "ap_ExpectedRevision a"] by auto
  then show ?thesis using ok(4) assms(3) by (auto simp: ApplyPolicyRevision_def)
qed

definition example_params :: ApplyPolicyRevisionParams where
  "example_params = \<lparr>ap_SchemaVersion = 1, ap_ParentRevisionID = None,
     ap_PolicyJSON = PolicyText (EncodePolicyJSON example_base), ap_Author = ''admin'',
     ap_Reason = ''tune'', ap_ValidationHash = ''runtime'', ap_ExpectedRevision = -1,
     ap_AuditEventType = ''scheduler.policy_update'', ap_AuditDetailJSON = Some ''{}''\<rparr>"

lemma example_apply: "\<exists>r db'. ApplyPolicyRevision 0 example_params empty_db = Inr (r, db')"
  by (simp add: ApplyPolicyRevision_def example_params_def active_id_def empty_db_def Let_def
      insert_revision_def insert_audit_def switch_active_def sql_update_def GetPolicyRevision_def
      sql_nonempty_def)

theorem ApplyPolicyRevision_single_winner_witness:
  "\<exists>r db'. ApplyPolicyRevision 0 example_params empty_db = Inr (r, db') \<and>
     ApplyPolicyRevision 9 example_params db' = Inl (RevisionConflictError (-1) (pr_ID r))"
proof -
  obtain r db' where r: "ApplyPolicyRevision 0 example_params empty_db = Inr (r, db')"
    using example_apply by blast
  from ApplyPolicyRevision_single_winner [OF store_ok_empty r refl] r show ?thesis
    by (auto simp: example_params_def)
qed

text \<open>C18: an applied policy is durable and audited as one step.  A successful
  \<open>ApplyPolicyRevision\<close> returns the only active revision, under a fresh id, with exactly one
  audit row of the requested type added and no reservation touched; the revision it replaced is
  the expected one.\<close>
theorem ApplyPolicyRevision_atomic:
  assumes "store_ok db" "ApplyPolicyRevision now a db = Inr (r, db')"
  shows "GetActivePolicyRevision db' = Inr r \<and> (\<forall>s \<in> set (db_revisions db). pr_ID s < pr_ID r) \<and>
    length (db_audits db') = length (db_audits db) + 1 \<and>
    ae_EventType (last (db_audits db')) = ap_AuditEventType a \<and>
    db_reservations db' = db_reservations db \<and>
    active_id db = (if ap_ExpectedRevision a = -1 then None else Some (ap_ExpectedRevision a))"
proof -
  note ok = ApplyPolicyRevision_ok [OF assms(2,1)]
  obtain q where q: "find pr_IsActive (db_revisions db') = Some q" "pr_ID q = pr_ID r"
    using ok(4) by (auto simp: active_id_def)
  with find_set [OF q(1)] ok(1,5) have "q = r"
    by (auto simp: store_ok_def revision_rows_ok_def distinct_map dest: inj_onD)
  with q have get: "GetActivePolicyRevision db' = Inr r" by (simp add: GetActivePolicyRevision_def)
  have new: "\<forall>s \<in> set (db_revisions db). pr_ID s < pr_ID r"
    using assms(1) by (force simp: ok(3) store_ok_def revision_rows_ok_def)
  have len: "length (db_audits db') = length (db_audits db) + 1"
    using arg_cong [OF ok(7), of length] by simp
  moreover from len have "ae_EventType (last (db_audits db')) = ap_AuditEventType a"
    using arg_cong [OF ok(7), of last] by (cases "db_audits db' = []") (auto simp: last_map)
  ultimately show ?thesis using get new ok(2,8) by blast
qed

theorem ApplyPolicyRevision_atomic_witness:
  "\<exists>r db'. ApplyPolicyRevision 0 example_params empty_db = Inr (r, db') \<and>
     GetActivePolicyRevision db' = Inr r"
  using example_apply ApplyPolicyRevision_atomic [OF store_ok_empty] by blast

lemma holds_after_release:
  "r \<in> set (sql_update (holds exec) (released_row now reason by) rows) \<Longrightarrow> \<not> holds exec r"
proof -
  assume "r \<in> set (sql_update (holds exec) (released_row now reason by) rows)"
  then obtain q where "r = (if holds exec q then released_row now reason by q else q)"
    unfolding sql_update_def set_map by (rule imageE)
  then show ?thesis by (simp add: released_row_def split: if_split_asm)
qed

lemma release_others:
  "filter (\<lambda>r. rv_ExecutionID r \<noteq> exec)
     (sql_update (holds exec) (released_row now reason by) rows) =
   filter (\<lambda>r. rv_ExecutionID r \<noteq> exec) rows"
  by (rule filter_sql_update) (simp add: released_row_def)

text \<open>C20: a reservation is released exactly once.  After a successful release every later release
  of the same execution id reports that it is not active, a lease renewal changes nothing, and
  the reservations of other executions are untouched.\<close>
theorem release_exactly_once:
  assumes "ReleaseReservationTx now exec reason by db = Inr db'"
  shows "ReleaseReservationTx now' exec reason' by' db' = Inl (ReservationNotActive exec) \<and>
    RenewReservationTx now' exec ttl db' = db' \<and>
    filter (\<lambda>r. rv_ExecutionID r \<noteq> exec) (db_reservations db') =
      filter (\<lambda>r. rv_ExecutionID r \<noteq> exec) (db_reservations db)"
proof -
  have db': "db' = db\<lparr>db_reservations := sql_update (holds exec) (released_row now reason by)
             (db_reservations db)\<rparr>"
    using assms by (auto simp: ReleaseReservationTx_def Let_def split: if_splits)
  then have none: "sql_affected (holds exec) (db_reservations db') = 0"
    using holds_after_release by (auto simp: sql_affected_0)
  have "filter (\<lambda>r. rv_ExecutionID r \<noteq> exec) (db_reservations db') =
      filter (\<lambda>r. rv_ExecutionID r \<noteq> exec) (db_reservations db)"
    by (simp add: db' release_others)
  then show ?thesis
    using none
    by (simp add: ReleaseReservationTx_def RenewReservationTx_def renew_lease_def
        sql_update_unaffected)
qed

definition example_held :: "string \<Rightarrow> string \<Rightarrow> time option \<Rightarrow> Reservation" where
  "example_held exec t lease = \<lparr>rv_ID = 1, rv_ExecutionID = exec, rv_TaskType = t,
     rv_ReservedUnits = 1, rv_PolicyRevisionID = 1, rv_Status = Active, rv_LeaseUntil = lease,
     rv_ReleasedAt = None, rv_ReleaseReason = [], rv_ReleasedBy = [], rv_CreatedAt = 0,
     rv_UpdatedAt = 0\<rparr>"

theorem release_exactly_once_witness:
  "\<exists>db'. ReleaseReservationTx 5 ''w/1'' ''done'' ''w''
       (empty_db\<lparr>db_reservations := [example_held ''w/1'' ''poster'' None]\<rparr>) = Inr db' \<and>
     ReleaseReservationTx 6 ''w/1'' ''again'' ''w'' db' = Inl (ReservationNotActive ''w/1'')"
proof -
  let ?db = "empty_db\<lparr>db_reservations := [example_held ''w/1'' ''poster'' None]\<rparr>"
  obtain db' where "ReleaseReservationTx 5 ''w/1'' ''done'' ''w'' ?db = Inr db'"
    by (simp add: ReleaseReservationTx_def sql_affected_def example_held_def)
  then show ?thesis using release_exactly_once by blast
qed

text \<open>Activating an id that does not exist leaves no policy active.  The call succeeds, the
  current revision is deactivated, and nothing replaces it.\<close>
theorem activate_missing_revision:
  assumes "active_id db = Some e" "e \<noteq> -1" "\<forall>r \<in> set (db_revisions db). pr_ID r \<noteq> n"
  shows "\<exists>db'. ActivatePolicyRevision now n e db = Inr db' \<and>
    GetActivePolicyRevision db' = Inl NoRows"
proof -
  have "\<forall>r \<in> set (db_revisions (switch_active now n db)). \<not> pr_IsActive r"
    using assms(3) by (auto simp: switch_active_def sql_update_def)
  then have "find pr_IsActive (db_revisions (switch_active now n db)) = None"
    by (simp add: find_None_iff)
  with assms(1,2) show ?thesis
    by (simp add: ActivatePolicyRevision_def GetActivePolicyRevision_def)
qed

theorem activate_missing_revision_witness:
  "\<exists>db db'. active_id db = Some 1 \<and> ActivatePolicyRevision 3 77 1 db = Inr db' \<and>
     GetActivePolicyRevision db' = Inl NoRows"
proof -
  obtain r db where a: "ApplyPolicyRevision 0 example_params empty_db = Inr (r, db)"
    using example_apply by blast
  note ok = ApplyPolicyRevision_ok [OF a store_ok_empty]
  have seq: "db_revision_seq db = 1"
    using a
    by (auto simp: ApplyPolicyRevision_def and_then_Inr_iff insert_revision_def insert_audit_def
        switch_active_def empty_db_def Let_def split: if_splits)
  have "active_id db = Some 1" using ok(3,4) by (simp add: empty_db_def)
  moreover have "\<forall>r \<in> set (db_revisions db). pr_ID r \<noteq> 77"
    using ok(1) seq by (auto simp: store_ok_def revision_rows_ok_def)
  ultimately show ?thesis using activate_missing_revision [of db 1 77 3] by auto
qed

end
