(* ===== verification/Sched_Admission.thy ===== *)
theory Sched_Admission
  imports Sched_Store
begin

text \<open>
  \<open>internal/scheduler/admission.go\<close>, \<open>sync_admission.go\<close> and the reservation reconciler of
  \<open>cmd/server\<close>: the budget checks over the durable reservations, the admission of synchronous
  stages with its in-process counters, and the release of expired leases.  The clock of a call
  is its argument \<open>now\<close>; \<open>uuid\<close> is the random part of a new execution id.
\<close>

section \<open>Usage of the live reservations\<close>

text \<open>\<open>status='active' AND (lease_until IS NULL OR lease_until > now)\<close>\<close>

definition live_at :: "time \<Rightarrow> Reservation \<Rightarrow> bool" where
  "live_at now r \<longleftrightarrow> rv_Status r = Active \<and>
     (case rv_LeaseUntil r of None \<Rightarrow> True | Some l \<Rightarrow> l > now)"

definition ActiveReservationCount :: "SchedDB \<Rightarrow> string \<Rightarrow> time \<Rightarrow> nat" where
  "ActiveReservationCount db t now =
     length (filter (\<lambda>r. rv_TaskType r = t \<and> live_at now r) (db_reservations db))"

definition add_resources ::
  "ResourceRequest \<Rightarrow> int \<Rightarrow> (ResourceKind, int) gmap \<Rightarrow> (ResourceKind, int) gmap" where
  "add_resources rs units usage = foldl (\<lambda>u (rk, count). gadd rk (count * units) u) usage rs"

definition ActiveResourceUsage :: "SchedDB \<Rightarrow> time \<Rightarrow> (ResourceKind, int) gmap" where
  "ActiveResourceUsage db now =
     foldl (\<lambda>usage r. case gget Registry (rv_TaskType r) of
          None \<Rightarrow> usage
        | Some desc \<Rightarrow> add_resources (d_Resources desc) (rv_ReservedUnits r) usage)
       [] (filter (live_at now) (db_reservations db))"

definition ActiveProviderUsage :: "SchedDB \<Rightarrow> time \<Rightarrow> (string, int) gmap" where
  "ActiveProviderUsage db now =
     foldl (\<lambda>usage r. case gget Registry (rv_TaskType r) of
          None \<Rightarrow> usage
        | Some desc \<Rightarrow> if d_Provider desc \<noteq> [] then gadd (d_Provider desc) (rv_ReservedUnits r) usage
                       else usage)
       [] (filter (live_at now) (db_reservations db))"

section \<open>Budget checks\<close>

text \<open>The reason of a blocker is its message with the formatted values.\<close>

datatype block_reason =
    TypePaused
  | TypeDraining
  | UnknownControlState string
  | NoConcurrencyLimitSet int
  | AtConcurrencyLimit nat int
  | ResourceBudgetExceeded ResourceKind int int int
  | ProviderAtCapacity string int int

record AdmissionBlocker =
  ab_Reason :: block_reason
  ab_TaskType :: string

abbreviation blocker :: "string \<Rightarrow> block_reason \<Rightarrow> AdmissionBlocker" where
  "blocker t why \<equiv> \<lparr>ab_Reason = why, ab_TaskType = t\<rparr>"

definition CheckControlState :: "SchedDB \<Rightarrow> string \<Rightarrow> string \<times> AdmissionBlocker option" where
  "CheckControlState db t =
     (case find (\<lambda>c. cs_TaskType c = t) (db_controls db) of
        None \<Rightarrow> ([], None)
      | Some c \<Rightarrow>
          (cs_State c,
           if cs_State c = ''paused'' then Some (blocker t TypePaused)
           else if cs_State c = ''draining'' then Some (blocker t TypeDraining)
           else if cs_State c = ''running'' then None
           else Some (blocker t (UnknownControlState (cs_State c)))))"

definition CheckTypeConcurrency ::
  "SchedDB \<Rightarrow> string \<Rightarrow> Policy \<Rightarrow> time \<Rightarrow> AdmissionBlocker option" where
  "CheckTypeConcurrency db t policy now =
     (let limit = gget0 (TypeConcurrency policy) t
      in if limit \<le> 0 then Some (blocker t (NoConcurrencyLimitSet limit))
         else let count = ActiveReservationCount db t now
              in if int count \<ge> limit then Some (blocker t (AtConcurrencyLimit count limit))
                 else None)"

text \<open>The loop over requested resources that both resource checks run.\<close>

definition over_budget ::
  "ResourceRequest \<Rightarrow> (ResourceKind, int) gmap \<Rightarrow> (ResourceKind, int) gmap \<Rightarrow> block_reason option" where
  "over_budget requested capacity usage =
     first_error (\<lambda>(rk, n). case gget capacity rk of
          None \<Rightarrow> None
        | Some cap \<Rightarrow>
            if cap \<le> 0 then None
            else if gget0 usage rk + n > cap then
              Some (ResourceBudgetExceeded rk (gget0 usage rk) n cap)
            else None) requested"

definition CheckResourceBudget ::
  "SchedDB \<Rightarrow> string \<Rightarrow> Policy \<Rightarrow> time \<Rightarrow> AdmissionBlocker option" where
  "CheckResourceBudget db t policy now =
     (case gget Registry t of
        None \<Rightarrow> None
      | Some desc \<Rightarrow> map_option (blocker t)
          (over_budget (d_Resources desc) (ResourceCapacity policy) (ActiveResourceUsage db now)))"

definition CheckProviderBudget ::
  "SchedDB \<Rightarrow> string \<Rightarrow> Policy \<Rightarrow> time \<Rightarrow> AdmissionBlocker option" where
  "CheckProviderBudget db t policy now =
     (case gget Registry t of
        None \<Rightarrow> None
      | Some desc \<Rightarrow>
          if d_Provider desc = [] then None
          else (case gget (ProviderCapacity policy) (d_Provider desc) of
              None \<Rightarrow> None
            | Some limit \<Rightarrow>
                if limit \<le> 0 then None
                else let used = gget0 (ActiveProviderUsage db now) (d_Provider desc)
                     in if used + 1 > limit
                        then Some (blocker t (ProviderAtCapacity (d_Provider desc) used limit))
                        else None))"

definition CheckAllBudgets :: "SchedDB \<Rightarrow> string \<Rightarrow> Policy \<Rightarrow> time \<Rightarrow> AdmissionBlocker list" where
  "CheckAllBudgets db t policy now =
     List.map_filter id
       [snd (CheckControlState db t), CheckTypeConcurrency db t policy now,
        CheckResourceBudget db t policy now, CheckProviderBudget db t policy now]"

definition InsertAdmissionReservation ::
  "time \<Rightarrow> string \<Rightarrow> string \<Rightarrow> int \<Rightarrow> int \<Rightarrow> time \<Rightarrow> SchedDB \<Rightarrow> store_error + int \<times> SchedDB" where
  "InsertAdmissionReservation now exec t units revID leaseUntil db =
     insert_reservation now exec t units revID leaseUntil db"

definition GenerateExecutionID :: "string \<Rightarrow> string \<Rightarrow> string" where
  "GenerateExecutionID owner uuid = TrimSpace owner @ ''/'' @ uuid"

section \<open>Synchronous admission\<close>

record SyncState =
  syncTypeCounters :: "(string, int) gmap"
  syncResourceUsage :: "(ResourceKind, int) gmap"
  syncReservationProfiles :: "(string, ResourceRequest) gmap"
  syncReservationTypes :: "(string, string) gmap"

definition ResetSyncCounters :: SyncState where
  "ResetSyncCounters = \<lparr>syncTypeCounters = [], syncResourceUsage = [],
     syncReservationProfiles = [], syncReservationTypes = []\<rparr>"

record SyncAdmissionRequest =
  sq_Owner :: string
  sq_TaskType :: string

record SyncReservation =
  sr_ExecutionID :: string
  sr_TaskType :: string
  sr_LeaseUntil :: time

datatype sync_error =
    OwnerRequired
  | TaskTypeRequired
  | ExecutionIDRequired
  | SyncTypeBlocked string string int int
  | SyncResourceBlocked string string ResourceKind int int int
  | SyncBudgetBlocked string string "block_reason list"
  | NoActivePolicy
  | SyncLeaseLost string
  | SyncStore store_error

definition resourceProfileForSync :: "string \<Rightarrow> ResourceRequest" where
  "resourceProfileForSync t = (case gget Registry t of None \<Rightarrow> [] | Some desc \<Rightarrow> d_Resources desc)"

text \<open>The two checks against the in-process counters.\<close>

definition sync_counter_check ::
  "string \<Rightarrow> string \<Rightarrow> Policy \<Rightarrow> SyncState \<Rightarrow> sync_error option" where
  "sync_counter_check exec t policy ss =
     (let maxType = gget0 (TypeConcurrency policy) t;
          current = gget0 (syncTypeCounters ss) t
      in if maxType > 0 \<and> current \<ge> maxType then Some (SyncTypeBlocked exec t current maxType)
         else first_error (\<lambda>(rk, n).
             let current = gget0 (syncResourceUsage ss) rk;
                 cap = gget0 (ResourceCapacity policy) rk
             in if cap > 0 \<and> current + n > cap
                then Some (SyncResourceBlocked exec t rk current n cap) else None)
           (resourceProfileForSync t))"

definition count_sync :: "string \<Rightarrow> string \<Rightarrow> SyncState \<Rightarrow> SyncState" where
  "count_sync exec t ss =
     ss\<lparr>syncTypeCounters := gadd t 1 (syncTypeCounters ss),
        syncResourceUsage := add_resources (resourceProfileForSync t) 1 (syncResourceUsage ss),
        syncReservationProfiles := gput exec (resourceProfileForSync t) (syncReservationProfiles ss),
        syncReservationTypes := gput exec t (syncReservationTypes ss)\<rparr>"

definition AcquireSync ::
  "string \<Rightarrow> time \<Rightarrow> SyncAdmissionRequest \<Rightarrow> Policy \<Rightarrow> duration \<Rightarrow> SchedDB \<Rightarrow> SyncState \<Rightarrow>
   sync_error + SyncReservation \<times> SchedDB \<times> SyncState" where
  "AcquireSync uuid now req policy leaseTTL db ss =
     (if TrimSpace (sq_Owner req) = [] then Inl OwnerRequired
      else if TrimSpace (sq_TaskType req) = [] then Inl TaskTypeRequired
      else
        let t = sq_TaskType req;
            exec = GenerateExecutionID (TrimSpace (sq_Owner req)) uuid;
            leaseUntil = now + effective_ttl leaseTTL
        in case sync_counter_check exec t policy ss of
             Some e \<Rightarrow> Inl e
           | None \<Rightarrow>
               let blockers = CheckAllBudgets db t policy now
               in if blockers \<noteq> [] then Inl (SyncBudgetBlocked exec t (map ab_Reason blockers))
                  else (case active_id db of
                      None \<Rightarrow> Inl NoActivePolicy
                    | Some revID \<Rightarrow>
                        (case InsertAdmissionReservation now exec t 1 revID leaseUntil db of
                           Inl e \<Rightarrow> Inl (SyncStore e)
                         | Inr (_, db') \<Rightarrow>
                             Inr (\<lparr>sr_ExecutionID = exec, sr_TaskType = t,
                                   sr_LeaseUntil = leaseUntil\<rparr>, db', count_sync exec t ss))))"

definition uncount_type :: "string \<Rightarrow> SyncState \<Rightarrow> SyncState" where
  "uncount_type exec ss =
     (case gget (syncReservationTypes ss) exec of
        None \<Rightarrow> ss
      | Some t \<Rightarrow>
          ss\<lparr>syncTypeCounters := (if gget0 (syncTypeCounters ss) t > 0
                 then gadd t (-1) (syncTypeCounters ss) else syncTypeCounters ss),
             syncReservationTypes := gdel exec (syncReservationTypes ss)\<rparr>)"

definition uncount_profile :: "string \<Rightarrow> SyncState \<Rightarrow> SyncState" where
  "uncount_profile exec ss =
     (case gget (syncReservationProfiles ss) exec of
        None \<Rightarrow> ss
      | Some profile \<Rightarrow>
          ss\<lparr>syncResourceUsage := foldl (\<lambda>u (rk, n). if gget0 u rk \<ge> n then gadd rk (- n) u else u)
                 (syncResourceUsage ss) profile,
             syncReservationProfiles := gdel exec (syncReservationProfiles ss)\<rparr>)"

definition ReleaseSync ::
  "time \<Rightarrow> string \<Rightarrow> string \<Rightarrow> string \<Rightarrow> SchedDB \<Rightarrow> SyncState \<Rightarrow> sync_error + SchedDB \<times> SyncState" where
  "ReleaseSync now exec reason releasedBy db ss =
     (if TrimSpace exec = [] then Inl ExecutionIDRequired
      else case ReleaseReservationTx now exec reason releasedBy db of
          Inl (ReservationNotActive x) \<Rightarrow> Inr (db, ss)
        | Inl e \<Rightarrow> Inl (SyncStore e)
        | Inr db' \<Rightarrow> Inr (db', uncount_profile exec (uncount_type exec ss)))"

definition HeartbeatSync ::
  "time \<Rightarrow> string \<Rightarrow> duration \<Rightarrow> SchedDB \<Rightarrow> sync_error + SchedDB" where
  "HeartbeatSync now exec leaseTTL db =
     (if TrimSpace exec = [] then Inl ExecutionIDRequired
      else if sql_affected (holds exec) (db_reservations db) = 0 then Inl (SyncLeaseLost exec)
      else Inr (renew_lease now exec (now + effective_ttl leaseTTL) db))"

section \<open>Reconciliation of expired leases\<close>

text \<open>Both reconcilers first read the rows to release, then release each by its execution id.\<close>

definition release_each ::
  "time \<Rightarrow> string \<Rightarrow> string \<Rightarrow> string list \<Rightarrow> SchedDB \<Rightarrow> nat \<times> SchedDB" where
  "release_each now reason releasedBy execs db =
     foldl (\<lambda>(n, db) exec. (n + sql_affected (holds exec) (db_reservations db),
          db\<lparr>db_reservations := sql_update (holds exec) (released_row now reason releasedBy)
                (db_reservations db)\<rparr>)) (0, db) execs"

definition expired_ids :: "bool \<Rightarrow> time \<Rightarrow> SchedDB \<Rightarrow> string list" where
  "expired_ids orphans now db =
     map rv_ExecutionID (filter (\<lambda>r. rv_Status r = Active \<and>
        (case rv_LeaseUntil r of None \<Rightarrow> orphans | Some l \<Rightarrow> \<not> l > now)) (db_reservations db))"

definition ReconcileStartupReservations ::
  "time \<Rightarrow> string \<Rightarrow> SchedDB \<Rightarrow> store_error + nat \<times> SchedDB" where
  "ReconcileStartupReservations now owner db =
     (if owner = [] \<and> expired_ids True now db \<noteq> [] then Inl ConstraintFailed
      else Inr (release_each now ''startup_reconciliation'' owner (expired_ids True now db) db))"

definition RunOnce :: "bool \<Rightarrow> time \<Rightarrow> SchedDB \<Rightarrow> SchedDB" where
  "RunOnce cancelled now db =
     (if cancelled then db
      else snd (release_each now ''lease_expired'' ''system'' (expired_ids False now db) db))"

section \<open>Lemmas on usage\<close>

text \<open>Units of a resource one reservation of a task type takes.\<close>

definition demand :: "string \<Rightarrow> ResourceKind \<Rightarrow> int" where
  "demand t rk = (case gget Registry t of None \<Rightarrow> 0 | Some d \<Rightarrow> gget0 (d_Resources d) rk)"

lemma demand_nonneg: "0 \<le> demand t rk"
  by (auto simp: demand_def gget0_def dest: gget_SomeD Registry_resources split: option.splits)

lemma gget0_Cons: "gget0 ((k, v) # m) k' = (if k = k' then v else gget0 m k')"
  by (simp add: gget0_def gget_Cons)

lemma gget0_add_resources:
  "gmap_ok rs \<Longrightarrow> gget0 (add_resources rs n u) rk = gget0 u rk + n * gget0 rs rk"
  unfolding add_resources_def
proof (induction rs arbitrary: u)
  case (Cons kv rs)
  obtain k v where kv: "kv = (k, v)" by (cases kv)
  from Cons.prems have "gmap_ok rs" "gget rs k = None" by (simp_all add: kv gmap_ok_Cons)
  with Cons.IH [of "gadd k (v * n) u"] show ?case
    by (auto simp: kv gget0_Cons) (simp add: gget0_def)
qed simp

definition usage_of :: "Reservation list \<Rightarrow> ResourceKind \<Rightarrow> int" where
  "usage_of rows rk = (\<Sum>r\<leftarrow>rows. rv_ReservedUnits r * demand (rv_TaskType r) rk)"

lemma gget0_ActiveResourceUsage:
  "gget0 (ActiveResourceUsage db now) rk = usage_of (filter (live_at now) (db_reservations db)) rk"
proof -
  let ?f = "\<lambda>usage r. case gget Registry (rv_TaskType r) of None \<Rightarrow> usage
    | Some desc \<Rightarrow> add_resources (d_Resources desc) (rv_ReservedUnits r) usage"
  have "gget0 (foldl ?f u rows) rk = gget0 u rk + usage_of rows rk" for u rows
  proof (induction rows arbitrary: u)
    case (Cons r rows)
    have "gget0 (?f u r) rk = gget0 u rk + rv_ReservedUnits r * demand (rv_TaskType r) rk"
      by (auto simp: demand_def gget0_add_resources Registry_resources_ok split: option.splits)
    with Cons.IH [of "?f u r"] show ?case by (simp add: usage_of_def)
  qed (simp add: usage_of_def)
  then show ?thesis by (simp add: ActiveResourceUsage_def)
qed

lemma usage_of_append [simp]: "usage_of (xs @ ys) rk = usage_of xs rk + usage_of ys rk"
  by (simp add: usage_of_def)

lemma usage_of_filter_mono:
  assumes "\<forall>r \<in> set rows. 0 < rv_ReservedUnits r" "\<forall>r \<in> set rows. P r \<longrightarrow> Q r"
  shows "usage_of (filter P rows) rk \<le> usage_of (filter Q rows) rk"
  using assms
proof (induction rows)
  case (Cons r rows)
  have "0 \<le> rv_ReservedUnits r * demand (rv_TaskType r) rk"
    using Cons.prems by (simp add: demand_nonneg)
  with Cons show ?case by (auto simp: usage_of_def)
qed simp

lemma length_filter_mono: "\<forall>x \<in> set xs. P x \<longrightarrow> Q x \<Longrightarrow> length (filter P xs) \<le> length (filter Q xs)"
  by (induction xs) auto

section \<open>Limits\<close>

definition within_limits :: "Policy \<Rightarrow> SchedDB \<Rightarrow> time \<Rightarrow> bool" where
  "within_limits p db now \<longleftrightarrow>
     (\<forall>t. int (ActiveReservationCount db t now) \<le> max 0 (gget0 (TypeConcurrency p) t)) \<and>
     (\<forall>rk cap. gget (ResourceCapacity p) rk = Some cap \<and> 0 < cap \<longrightarrow>
        gget0 (ActiveResourceUsage db now) rk \<le> cap)"

lemma within_limits_type:
  "within_limits p db now \<Longrightarrow>
   int (ActiveReservationCount db t now) \<le> max 0 (gget0 (TypeConcurrency p) t)"
  by (simp add: within_limits_def)

lemma within_limits_resource:
  "within_limits p db now \<Longrightarrow> gget (ResourceCapacity p) rk = Some cap \<Longrightarrow> 0 < cap \<Longrightarrow>
   gget0 (ActiveResourceUsage db now) rk \<le> cap"
  by (simp add: within_limits_def)

lemma within_limits_empty: "within_limits p empty_db now"
  by (simp add: within_limits_def ActiveReservationCount_def ActiveResourceUsage_def empty_db_def)

text \<open>A table whose live rows are rows that were live before stays within the limits.\<close>

lemma within_limits_mono:
  assumes "within_limits p db now"
    and rows: "db_reservations db' = map f (db_reservations db)"
    and live: "\<And>r. r \<in> set (db_reservations db) \<Longrightarrow> live_at now' (f r) \<Longrightarrow>
      live_at now r \<and> rv_TaskType (f r) = rv_TaskType r \<and> rv_ReservedUnits (f r) = rv_ReservedUnits r"
    and units: "\<forall>r \<in> set (db_reservations db). 0 < rv_ReservedUnits r"
  shows "within_limits p db' now'"
proof -
  have "ActiveReservationCount db' t now' \<le> ActiveReservationCount db t now" for t
    unfolding ActiveReservationCount_def rows
    by (auto simp: filter_map comp_def intro!: length_filter_mono dest: live)
  moreover have "gget0 (ActiveResourceUsage db' now') rk \<le> gget0 (ActiveResourceUsage db now) rk" for rk
  proof -
    have "usage_of (filter (live_at now') (map f rows)) rk = usage_of (filter (live_at now' \<circ> f) rows) rk"
      if "set rows \<subseteq> set (db_reservations db)" for rows
      using that live by (induction rows) (auto simp: usage_of_def)
    then show ?thesis
      unfolding gget0_ActiveResourceUsage rows
      using units live by (auto intro!: usage_of_filter_mono)
  qed
  ultimately show ?thesis
    unfolding within_limits_def
    using within_limits_type [OF assms(1)] within_limits_resource [OF assms(1)]
    by (meson of_nat_mono order.trans)
qed

lemma map_filter_id_Nil: "List.map_filter id xs = [] \<longleftrightarrow> (\<forall>x \<in> set xs. x = None)"
  by (induction xs) (auto simp: List.map_filter_simps split: option.splits)

lemma CheckAllBudgets_Nil:
  "CheckAllBudgets db t p now = [] \<longleftrightarrow> snd (CheckControlState db t) = None \<and>
     CheckTypeConcurrency db t p now = None \<and> CheckResourceBudget db t p now = None \<and>
     CheckProviderBudget db t p now = None"
  by (simp add: CheckAllBudgets_def map_filter_id_Nil del: List.map_filter_simps)

lemma CheckTypeConcurrency_None:
  "CheckTypeConcurrency db t p now = None \<longleftrightarrow>
   int (ActiveReservationCount db t now) < gget0 (TypeConcurrency p) t"
  by (auto simp: CheckTypeConcurrency_def Let_def)

lemma over_budget_None:
  assumes "over_budget rs caps usage = None" "gget caps rk = Some cap" "0 < cap"
    and "gmap_ok rs" "gget rs rk = Some n"
  shows "gget0 usage rk + n \<le> cap"
  using assms gget_SomeD [OF assms(5)]
  by (fastforce simp: over_budget_def first_error_None_iff split: if_splits)

lemma CheckResourceBudget_None:
  assumes "CheckResourceBudget db t p now = None"
    and "gget (ResourceCapacity p) rk = Some cap" "0 < cap"
    and "gget0 (ActiveResourceUsage db now) rk \<le> cap"
  shows "gget0 (ActiveResourceUsage db now) rk + demand t rk \<le> cap"
proof (cases "gget Registry t")
  case (Some d)
  show ?thesis
  proof (cases "gget (d_Resources d) rk")
    case (Some n)
    have "over_budget (d_Resources d) (ResourceCapacity p) (ActiveResourceUsage db now) = None"
      using assms(1) \<open>gget Registry t = Some d\<close> by (simp add: CheckResourceBudget_def)
    from over_budget_None [OF this assms(2,3) Registry_resources_ok Some] Some
    show ?thesis using \<open>gget Registry t = Some d\<close> by (simp add: demand_def gget0_def)
  qed (use Some assms(4) in \<open>simp add: demand_def gget0_def\<close>)
qed (use assms(4) in \<open>simp add: demand_def\<close>)

text \<open>One more reservation of a type below its limit, whose demand still fits.\<close>

lemma insert_within_limits:
  assumes ins: "insert_reservation now exec t 1 revid lease db = Inr (n, db')"
    and ok: "store_ok db" "within_limits p db now"
    and t: "int (ActiveReservationCount db t now) < gget0 (TypeConcurrency p) t"
    and res: "\<And>rk cap. gget (ResourceCapacity p) rk = Some cap \<Longrightarrow> 0 < cap \<Longrightarrow>
      gget0 (ActiveResourceUsage db now) rk + demand t rk \<le> cap"
  shows "within_limits p db' now"
proof -
  note rows = insert_reservation_ok(3) [OF ins ok(1)]
  have cnt: "int (ActiveReservationCount db' u now) \<le>
      int (ActiveReservationCount db u now) + (if u = t then 1 else 0)" for u
    by (simp add: ActiveReservationCount_def rows)
  have types: "int (ActiveReservationCount db' u now) \<le> max 0 (gget0 (TypeConcurrency p) u)" for u
    using cnt [of u] within_limits_type [OF ok(2), of u] t by (simp split: if_splits)
  have use: "gget0 (ActiveResourceUsage db' now) rk \<le>
      gget0 (ActiveResourceUsage db now) rk + demand t rk" for rk
    by (simp add: gget0_ActiveResourceUsage rows usage_of_def demand_nonneg)
  have "gget0 (ActiveResourceUsage db' now) rk \<le> cap"
    if "gget (ResourceCapacity p) rk = Some cap" "0 < cap" for rk cap
    using use [of rk] res [OF that] by simp
  with types show ?thesis by (simp add: within_limits_def)
qed

lemma admit_within_limits:
  assumes "CheckAllBudgets db t p now = []"
    and "insert_reservation now exec t 1 revid lease db = Inr (n, db')"
    and "store_ok db" "within_limits p db now"
  shows "within_limits p db' now"
  using assms(1)
  by (intro insert_within_limits [OF assms(2-4)])
    (auto simp: CheckAllBudgets_Nil CheckTypeConcurrency_None
      intro: CheckResourceBudget_None within_limits_resource [OF assms(4)])

section \<open>Histories of admission\<close>

text \<open>
  The scheduler as a step relation on the clock and the tables, under one installed policy.
  Admission is the check and the insertion of one transaction, as the claim of a queue row, a
  fallback and \<open>AcquireSync\<close> run it; a lease is renewed while it still runs.
\<close>

inductive sched_step :: "Policy \<Rightarrow> time \<times> SchedDB \<Rightarrow> time \<times> SchedDB \<Rightarrow> bool" for p where
  tick: "now \<le> now' \<Longrightarrow> sched_step p (now, db) (now', db)"
| admit: "CheckAllBudgets db t p now = [] \<Longrightarrow>
    InsertAdmissionReservation now exec t 1 revid lease db = Inr (n, db') \<Longrightarrow>
    sched_step p (now, db) (now, db')"
| release: "ReleaseReservationTx now exec reason releasedBy db = Inr db' \<Longrightarrow>
    sched_step p (now, db) (now, db')"
| renew: "\<forall>r \<in> set (db_reservations db). holds exec r \<longrightarrow> live_at now r \<Longrightarrow>
    sched_step p (now, db) (now, RenewReservationTx now exec ttl db)"
| expire: "sched_step p (now, db) (now, RunOnce cancelled now db)"
| startup: "ReconcileStartupReservations now owner db = Inr (n, db') \<Longrightarrow>
    sched_step p (now, db) (now, db')"
| apply_policy: "ApplyPolicyRevision now a db = Inr (r, db') \<Longrightarrow> sched_step p (now, db) (now, db')"
| set_control: "SetControlState now t state db = Inr db' \<Longrightarrow> sched_step p (now, db) (now, db')"

inductive_cases sched_stepE: "sched_step p s s'"

inductive sched_reach :: "Policy \<Rightarrow> time \<times> SchedDB \<Rightarrow> bool" for p where
  start: "sched_reach p (now, empty_db)"
| step: "sched_reach p s \<Longrightarrow> sched_step p s s' \<Longrightarrow> sched_reach p s'"

lemma store_ok_units: "store_ok db \<Longrightarrow> \<forall>r \<in> set (db_reservations db). 0 < rv_ReservedUnits r"
  by (auto simp: store_ok_def reservation_rows_ok_def reservation_row_ok_def)

text \<open>Updating rows in a way that makes no row live.\<close>

lemma update_within_limits:
  assumes "within_limits p db now" "store_ok db"
    and "\<And>r. r \<in> set (db_reservations db) \<Longrightarrow> P r \<Longrightarrow> live_at now (f r) \<Longrightarrow>
      live_at now r \<and> rv_TaskType (f r) = rv_TaskType r \<and> rv_ReservedUnits (f r) = rv_ReservedUnits r"
  shows "within_limits p (db\<lparr>db_reservations := sql_update P f (db_reservations db)\<rparr>) now"
  by (rule within_limits_mono [OF assms(1), where f = "\<lambda>r. if P r then f r else r"])
    (use assms(3) store_ok_units [OF assms(2)] in \<open>auto simp: sql_update_def split: if_splits\<close>)

lemma live_at_earlier: "live_at now' r \<Longrightarrow> now \<le> now' \<Longrightarrow> live_at now r"
  by (auto simp: live_at_def split: option.splits)

definition sched_inv :: "Policy \<Rightarrow> time \<times> SchedDB \<Rightarrow> bool" where
  "sched_inv p s \<longleftrightarrow> store_ok (snd s) \<and> within_limits p (snd s) (fst s)"

lemma release_update_inv:
  "sched_inv p (now, db) \<Longrightarrow> reason \<noteq> [] \<Longrightarrow> by \<noteq> [] \<Longrightarrow>
   sched_inv p (now, db\<lparr>db_reservations :=
     sql_update (holds exec) (released_row now reason by) (db_reservations db)\<rparr>)"
  unfolding sched_inv_def fst_conv snd_conv
  by (intro conjI update_within_limits release_update_ok) (auto simp: live_at_def released_row_def)

lemma release_each_induct:
  assumes "P db"
    and "\<And>db exec. P db \<Longrightarrow> exec \<in> set execs \<Longrightarrow> P (db\<lparr>db_reservations :=
       sql_update (holds exec) (released_row now reason by) (db_reservations db)\<rparr>)"
  shows "P (snd (release_each now reason by execs db))"
proof -
  let ?f = "\<lambda>(n, db) exec. (n + sql_affected (holds exec) (db_reservations db),
    db\<lparr>db_reservations := sql_update (holds exec) (released_row now reason by) (db_reservations db)\<rparr>)"
  have "P (snd (foldl ?f (n, db) execs))" for n
    using assms
  proof (induction execs arbitrary: n db)
    case (Cons exec execs)
    from Cons.prems show ?case by (auto intro!: Cons.IH)
  qed simp
  then show ?thesis by (simp add: release_each_def)
qed

lemma release_each_inv:
  "sched_inv p (now, db) \<Longrightarrow> reason \<noteq> [] \<Longrightarrow> by \<noteq> [] \<or> execs = [] \<Longrightarrow>
   sched_inv p (now, snd (release_each now reason by execs db))"
  by (rule release_each_induct [where P = "\<lambda>db. sched_inv p (now, db)"])
    (auto intro: release_update_inv)

lemma release_each_ok:
  "store_ok db \<Longrightarrow> reason \<noteq> [] \<Longrightarrow> by \<noteq> [] \<Longrightarrow>
   store_ok (snd (release_each now reason by execs db))"
  by (rule release_each_induct [where P = store_ok])
    (auto intro: release_update_ok)

lemma sched_step_inv: "sched_step p s s' \<Longrightarrow> sched_inv p s \<Longrightarrow> sched_inv p s'"
proof (induction rule: sched_step.induct)
  case (tick now now' db)
  then have ok: "within_limits p db now" "\<forall>r \<in> set (db_reservations db). 0 < rv_ReservedUnits r"
    using store_ok_units [of db] by (simp_all add: sched_inv_def)
  have "within_limits p db now'"
    by (rule within_limits_mono [OF ok(1), where f = id])
      (use ok(2) live_at_earlier [OF _ tick(1)] in simp_all)
  with tick show ?case by (simp add: sched_inv_def)
next
  case (admit db t now exec revid lease n db')
  then show ?case
    by (auto simp: sched_inv_def InsertAdmissionReservation_def
        intro: admit_within_limits insert_reservation_ok(1))
next
  case (release now exec reason releasedBy db db')
  then have "reason \<noteq> []" "releasedBy \<noteq> []"
    by (auto simp: ReleaseReservationTx_def Let_def sql_affected_0 split: if_splits)
  with release ReleaseReservationTx_ok(2) [OF release(1)] show ?case
    using release_update_inv [of p now db reason releasedBy exec] by (simp add: sched_inv_def)
next
  case (renew db exec now ttl)
  have "within_limits p (renew_lease now exec l db) now" for l
    unfolding renew_lease_def
    by (rule update_within_limits) (use renew in \<open>simp_all add: sched_inv_def\<close>)
  with renew show ?case
    by (simp add: sched_inv_def RenewReservationTx_def renew_lease_ok)
next
  case (expire now db cancelled)
  then show ?case by (auto simp: RunOnce_def intro: release_each_inv)
next
  case (startup now owner db n db')
  then have "db' = snd (release_each now ''startup_reconciliation'' owner (expired_ids True now db) db)"
    "owner \<noteq> [] \<or> expired_ids True now db = []"
    by (auto simp: ReconcileStartupReservations_def split: if_splits)
  with startup show ?case by (auto intro: release_each_inv)
next
  case (apply_policy now a db r db')
  with ApplyPolicyRevision_ok(1,2) [OF apply_policy(1)] show ?case
    by (simp add: sched_inv_def within_limits_def ActiveReservationCount_def ActiveResourceUsage_def)
next
  case (set_control now t state db db')
  with SetControlState_ok [OF set_control(1)] show ?case
    by (simp add: sched_inv_def within_limits_def ActiveReservationCount_def ActiveResourceUsage_def)
qed

lemma sched_reach_inv: "sched_reach p s \<Longrightarrow> sched_inv p s"
  by (induction rule: sched_reach.induct)
    (auto simp: sched_inv_def store_ok_empty within_limits_empty dest: sched_step_inv)

section \<open>Properties of admission\<close>


lemma DefaultConcurrency_poster: "DefaultConcurrency ''poster'' = Some 3"
  by code_simp

lemma CheckAllBudgets_open:
  assumes "gget (TypeConcurrency p) t = Some n" "int (ActiveReservationCount db t now) < n"
    and "db_controls db = []" "ResourceCapacity p = []" "ProviderCapacity p = []"
  shows "CheckAllBudgets db t p now = []"
  using assms
  by (auto simp: CheckAllBudgets_Nil CheckTypeConcurrency_None gget0_def CheckControlState_def
      CheckResourceBudget_def CheckProviderBudget_def over_budget_def first_error_None_iff
      split: option.splits)

text \<open>A database with an active policy and one poster reservation.\<close>

lemma example_reach:
  "\<exists>r db db'. ApplyPolicyRevision 0 example_params empty_db = Inr (r, db) \<and>
     InsertAdmissionReservation 0 ''w/1'' ''poster'' 1 (pr_ID r) (90 * second) db = Inr (1, db') \<and>
     active_id db = Some (pr_ID r) \<and> db_controls db' = [] \<and>
     sched_reach PolicyDefaults (0, db) \<and> sched_reach PolicyDefaults (0, db') \<and> store_ok db' \<and>
     (\<exists>row. db_reservations db' = [row] \<and> rv_ExecutionID row = ''w/1'' \<and>
        rv_TaskType row = ''poster'' \<and> rv_Status row = Active \<and>
        rv_LeaseUntil row = Some (90 * second))"
proof -
  obtain r db where a: "ApplyPolicyRevision 0 example_params empty_db = Inr (r, db)"
    using example_apply by blast
  note ok = ApplyPolicyRevision_ok [OF a store_ok_empty]
  have reach: "sched_reach PolicyDefaults (0, db)"
    by (rule sched_reach.step [OF sched_reach.start sched_step.apply_policy [OF a]])
  have frame: "db_reservations db = []" "db_controls db = []" "db_reservation_seq db = 0"
    using a
    by (auto simp: ApplyPolicyRevision_def and_then_Inr_iff insert_revision_def insert_audit_def
        switch_active_def empty_db_def Let_def split: if_splits)
  have check: "CheckAllBudgets db ''poster'' PolicyDefaults 0 = []"
    by (rule CheckAllBudgets_open [where n = 3])
      (simp_all add: ActiveReservationCount_def frame DefaultConcurrency_poster)
  obtain db' where ins: "insert_reservation 0 ''w/1'' ''poster'' 1 (pr_ID r) (90 * second) db = Inr (1, db')"
    and ctl: "db_controls db' = []"
    using ok(5) by (simp add: insert_reservation_def frame sql_nonempty_def bexI [of _ r])
  note ok' = insert_reservation_ok [OF ins ok(1)]
  have "sched_reach PolicyDefaults (0, db')"
    using sched_reach.step [OF reach sched_step.admit [OF check,
          of "''w/1''" "pr_ID r" "90 * second" 1 db']]
    by (simp add: InsertAdmissionReservation_def ins)
  then show ?thesis
    using a ins ctl reach ok(4) ok'(1,3) frame(1)
    by (auto simp: InsertAdmissionReservation_def intro!: exI [of _ r] exI [of _ db] exI [of _ db'])
qed


lemma live_after_renew:
  "live_at now (r\<lparr>rv_LeaseUntil := Some l, rv_UpdatedAt := u\<rparr>) \<longleftrightarrow> rv_Status r = Active \<and> l > now"
  by (simp add: live_at_def)

text \<open>Renewing a lapsed lease takes a slot that admission no longer protects.  A reservation
  that is still marked active after its lease has run out is not counted, so its slot can be
  given away; renewing it then makes it live again without any check, and the live reservations
  of its type exceed the limit by one.\<close>
theorem renew_lapsed_exceeds_limit:
  assumes ok: "store_ok db" and r: "r \<in> set (db_reservations db)" "rv_Status r = Active"
    "rv_LeaseUntil r = Some l" "l \<le> now" "TrimSpace (rv_ExecutionID r) \<noteq> []"
    and full: "int (ActiveReservationCount db (rv_TaskType r) now) = gget0 (TypeConcurrency p) (rv_TaskType r)"
  shows "int (ActiveReservationCount (RenewReservationTx now (rv_ExecutionID r) ttl db) (rv_TaskType r) now) =
    gget0 (TypeConcurrency p) (rv_TaskType r) + 1"
proof -
  let ?t = "rv_TaskType r" and ?x = "rv_ExecutionID r"
  let ?l = "now + effective_ttl ttl"
  let ?f = "\<lambda>q. q\<lparr>rv_LeaseUntil := Some ?l, rv_UpdatedAt := CURRENT_TIMESTAMP now\<rparr>"
  have lt: "now < ?l" by (simp add: effective_ttl_def second_def)
  have dist: "distinct (map rv_ExecutionID (db_reservations db))"
    using ok by (simp add: store_ok_def reservation_rows_ok_def)
  obtain xs ys where split: "db_reservations db = xs @ r # ys"
    using r(1) by (meson split_list)
  have other: "\<forall>q \<in> set xs \<union> set ys. rv_ExecutionID q \<noteq> ?x" using dist by (auto simp: split image_iff)
  then have same: "sql_update (holds ?x) ?f xs = xs" "sql_update (holds ?x) ?f ys = ys"
    by (auto simp: sql_update_def intro!: map_idI)
  have "db_reservations (RenewReservationTx now ?x ttl db) = xs @ ?f r # ys"
    using same r(2,5) by (simp add: RenewReservationTx_def renew_lease_def split)
      (simp add: sql_update_def)
  then show ?thesis
    using full r(2-4) lt
    by (simp add: ActiveReservationCount_def split live_at_def)
qed

definition example_lapsed :: SchedDB where
  "example_lapsed = empty_db\<lparr>
     db_revisions := [\<lparr>pr_ID = 1, pr_SchemaVersion = 1, pr_ParentRevisionID = None,
       pr_PolicyJSON = NotAPolicy, pr_Author = ''a'', pr_Reason = ''r'', pr_ValidationHash = [],
       pr_IsActive = True, pr_CreatedAt = 0, pr_ActivatedAt = None\<rparr>],
     db_revision_seq := 1, db_reservation_seq := 2,
     db_reservations := [example_held ''w/1'' ''poster'' (Some 5),
       (example_held ''w/2'' ''poster'' None)\<lparr>rv_ID := 2\<rparr>]\<rparr>"

lemma example_lapsed_ok: "store_ok example_lapsed"
  by (simp add: example_lapsed_def empty_db_def store_ok_def revision_rows_ok_def
      reservation_rows_ok_def reservation_row_ok_def control_rows_ok_def fairness_rows_ok_def
      example_held_def)

lemma TrimSpace_w1: "TrimSpace ''w/1'' = ''w/1''"
  by code_simp

theorem renew_lapsed_exceeds_limit_witness:
  "ActiveReservationCount example_lapsed ''poster'' 10 = 1 \<and>
   int (ActiveReservationCount (RenewReservationTx 10 ''w/1'' 0 example_lapsed) ''poster'' 10) = 2"
proof -
  let ?r = "example_held ''w/1'' ''poster'' (Some 5)"
  have one: "ActiveReservationCount example_lapsed ''poster'' 10 = 1"
    by (simp add: ActiveReservationCount_def example_lapsed_def example_held_def live_at_def)
  have "?r \<in> set (db_reservations example_lapsed)" by (simp add: example_lapsed_def)
  from renew_lapsed_exceeds_limit [OF example_lapsed_ok this, of 5 10
      "PolicyDefaults\<lparr>TypeConcurrency := [(''poster'', 1)]\<rparr>" 0] one
  show ?thesis by (simp add: example_held_def TrimSpace_w1 gget0_Cons)
qed

section \<open>Expiry\<close>

lemma release_each_rows:
  "db_reservations (snd (release_each now reason by execs db)) =
   map (\<lambda>r. if rv_Status r = Active \<and> rv_ExecutionID r \<in> set execs
             then released_row now reason by r else r) (db_reservations db)"
proof -
  let ?f = "\<lambda>(n, db) exec. (n + sql_affected (holds exec) (db_reservations db),
    db\<lparr>db_reservations := sql_update (holds exec) (released_row now reason by) (db_reservations db)\<rparr>)"
  have "db_reservations (snd (foldl ?f (n, db) execs)) =
     map (\<lambda>r. if rv_Status r = Active \<and> rv_ExecutionID r \<in> set execs
               then released_row now reason by r else r) (db_reservations db)" for n
  proof (induction execs arbitrary: n db)
    case (Cons exec execs)
    let ?db = "db\<lparr>db_reservations := sql_update (holds exec) (released_row now reason by)
      (db_reservations db)\<rparr>"
    have "foldl ?f (n, db) (exec # execs) =
        foldl ?f (n + sql_affected (holds exec) (db_reservations db), ?db) execs" by simp
    then show ?case
      by (simp only: Cons.IH) (auto simp: sql_update_def released_row_def)
  qed simp
  then show ?thesis by (simp add: release_each_def)
qed

lemma row_by_exec:
  "store_ok db \<Longrightarrow> r \<in> set (db_reservations db) \<Longrightarrow> s \<in> set (db_reservations db) \<Longrightarrow>
   rv_ExecutionID r = rv_ExecutionID s \<Longrightarrow> r = s"
  by (auto simp: store_ok_def reservation_rows_ok_def distinct_map dest: inj_onD)

text \<open>C26: one expiry cycle releases exactly the lapsed leases.  Without an interleaved write,
  \<open>RunOnce\<close> marks every active reservation whose lease has run out as released, with evidence,
  and leaves every other row as it is.\<close>
theorem RunOnce_exact:
  assumes "store_ok db"
  shows "db_reservations (RunOnce False now db) =
    map (\<lambda>r. if rv_Status r = Active \<and> \<not> live_at now r
              then released_row now ''lease_expired'' ''system'' r else r) (db_reservations db)"
proof -
  have "rv_Status r = Active \<and> rv_ExecutionID r \<in> set (expired_ids False now db) \<longleftrightarrow>
      rv_Status r = Active \<and> \<not> live_at now r" if "r \<in> set (db_reservations db)" for r
    using row_by_exec [OF assms that]
    by (auto simp: expired_ids_def live_at_def that image_iff split: option.splits)
  then show ?thesis by (simp add: RunOnce_def release_each_rows)
qed

theorem RunOnce_exact_witness:
  "map rv_Status (db_reservations (RunOnce False 10 example_lapsed)) = [Released, Active]"
  unfolding RunOnce_exact [OF example_lapsed_ok]
  by (simp add: example_lapsed_def example_held_def live_at_def released_row_def)

text \<open>A heartbeat between the read and the release is lost.  When a lapsed lease is renewed
  after the expiry cycle read the table and before it releases, the cycle still releases it,
  although its new lease runs.\<close>
theorem expiry_ignores_renewal:
  fixes ttl :: duration
  assumes "r \<in> set (db_reservations db)" "rv_Status r = Active" "rv_LeaseUntil r = Some l" "l \<le> now"
    and "TrimSpace (rv_ExecutionID r) \<noteq> []"
  defines "renewed \<equiv> RenewReservationTx now (rv_ExecutionID r) ttl db"
  shows "(\<exists>q \<in> set (db_reservations renewed). rv_ExecutionID q = rv_ExecutionID r \<and> live_at now q) \<and>
    (\<forall>q \<in> set (db_reservations (snd (release_each now ''lease_expired'' ''system''
        (expired_ids False now db) renewed))).
      rv_ExecutionID q = rv_ExecutionID r \<longrightarrow> rv_Status q = Released)"
proof
  have "now < now + effective_ttl ttl" by (simp add: effective_ttl_def second_def)
  with assms(1,2,5) show "\<exists>q \<in> set (db_reservations renewed).
      rv_ExecutionID q = rv_ExecutionID r \<and> live_at now q"
    unfolding renewed_def RenewReservationTx_def renew_lease_def
    by (intro bexI [of _ "r\<lparr>rv_LeaseUntil := Some (now + effective_ttl ttl),
        rv_UpdatedAt := CURRENT_TIMESTAMP now\<rparr>"]) (simp_all add: set_sql_update live_at_def)
  have "rv_ExecutionID r \<in> set (expired_ids False now db)"
    using assms(1-4) by (force simp: expired_ids_def)
  then show "\<forall>q \<in> set (db_reservations (snd (release_each now ''lease_expired'' ''system''
        (expired_ids False now db) renewed))).
      rv_ExecutionID q = rv_ExecutionID r \<longrightarrow> rv_Status q = Released"
    by (auto simp: release_each_rows released_row_def)
      (metis (full_types) reservation_status.exhaust)
qed

theorem expiry_ignores_renewal_witness:
  "rv_Status ` {q \<in> set (db_reservations (snd (release_each 10 ''lease_expired'' ''system''
      (expired_ids False 10 example_lapsed) (RenewReservationTx 10 ''w/1'' 0 example_lapsed)))).
    rv_ExecutionID q = ''w/1''} \<subseteq> {Released}"
proof -
  let ?r = "example_held ''w/1'' ''poster'' (Some 5)"
  have "?r \<in> set (db_reservations example_lapsed)" "rv_Status ?r = Active"
    "rv_LeaseUntil ?r = Some 5" "(5::time) \<le> 10" "TrimSpace (rv_ExecutionID ?r) \<noteq> []"
    by (simp_all add: example_lapsed_def example_held_def TrimSpace_w1)
  from expiry_ignores_renewal [OF this, of 0] show ?thesis
    by (auto simp: example_held_def)
qed

section \<open>In-process counters\<close>

text \<open>
  The counters count the acquired reservations that \<open>ReleaseSync\<close> has not released; every
  reservation they count has a row.
\<close>

definition sync_ok :: "SchedDB \<Rightarrow> SyncState \<Rightarrow> bool" where
  "sync_ok db ss \<longleftrightarrow> gmap_ok (syncReservationTypes ss) \<and>
     (\<forall>t. gget0 (syncTypeCounters ss) t =
        int (length (filter (\<lambda>(x, t'). t' = t) (syncReservationTypes ss)))) \<and>
     (\<forall>x. gget (syncReservationProfiles ss) x =
        map_option resourceProfileForSync (gget (syncReservationTypes ss) x)) \<and>
     (\<forall>rk. gget0 (syncResourceUsage ss) rk = (\<Sum>(x, t)\<leftarrow>syncReservationTypes ss. demand t rk)) \<and>
     fst ` set (syncReservationTypes ss) \<subseteq> rv_ExecutionID ` set (db_reservations db)"

lemma sync_ok_reset: "sync_ok db ResetSyncCounters"
  by (simp add: sync_ok_def ResetSyncCounters_def)

lemma demand_profile: "gget0 (resourceProfileForSync t) rk = demand t rk"
  by (auto simp: resourceProfileForSync_def demand_def split: option.splits)

lemma gmap_ok_profile: "gmap_ok (resourceProfileForSync t)"
  by (auto simp: resourceProfileForSync_def Registry_resources_ok split: option.splits)

lemma gput_fresh: "gget m k = None \<Longrightarrow> gput k v m = m @ [(k, v)]"
  unfolding gget_def gput_def by (induction m) (auto split: if_splits)

lemma delete_notin: "k \<notin> fst ` set xs \<Longrightarrow> AList.delete k xs = xs"
  by (induction xs) (auto simp: AList.delete_eq)

lemma delete_append_notin:
  "k \<notin> fst ` set xs \<Longrightarrow> k \<notin> fst ` set ys \<Longrightarrow> AList.delete k (xs @ (k, v) # ys) = xs @ ys"
  using delete_notin [of k xs] delete_notin [of k ys] by (simp add: AList.delete_eq)

lemma gdel_present:
  assumes "gmap_ok m" "gget m k = Some v"
  shows "\<exists>xs ys. m = xs @ (k, v) # ys \<and> gdel k m = xs @ ys"
proof -
  from assms(2) obtain xs ys where m: "m = xs @ (k, v) # ys"
    by (meson gget_SomeD split_list)
  with assms(1) have "k \<notin> fst ` set xs" "k \<notin> fst ` set ys" by (auto simp: gmap_ok_def)
  then have "gdel k m = xs @ ys"
    by (simp add: m gdel_def delete_append_notin)
  with m show ?thesis by blast
qed

lemma count_sync_ok:
  assumes "sync_ok db ss" "exec \<notin> rv_ExecutionID ` set (db_reservations db)"
    and "set (map rv_ExecutionID (db_reservations db')) =
      insert exec (set (map rv_ExecutionID (db_reservations db)))"
  shows "sync_ok db' (count_sync exec t ss)"
proof -
  have "gget (syncReservationTypes ss) exec = None"
    using assms(1,2) by (auto simp: sync_ok_def gget_None_iff)
  then have "gput exec t (syncReservationTypes ss) = syncReservationTypes ss @ [(exec, t)]"
    by (rule gput_fresh)
  moreover from this have "gget (syncReservationTypes ss @ [(exec, t)]) x =
      (if x = exec then Some t else gget (syncReservationTypes ss) x)" for x
    by (metis gget_gput)
  ultimately show ?thesis
    using assms(1,3) gmap_ok_gput [of "syncReservationTypes ss" exec t]
    by (auto simp: sync_ok_def count_sync_def gget0_add_resources gmap_ok_profile demand_profile
        image_subset_iff)
qed

text \<open>Subtracting a profile whose units were all added before.\<close>

lemma sub_profile:
  assumes "gmap_ok rs" "\<And>rk. gget0 rs rk \<le> gget0 u rk"
  shows "gget0 (foldl (\<lambda>u (rk, n). if gget0 u rk \<ge> n then gadd rk (- n) u else u) u rs) k =
    gget0 u k - gget0 rs k"
  using assms
proof (induction rs arbitrary: u)
  case (Cons kv rs)
  obtain rk n where kv: "kv = (rk, n)" by (cases kv)
  from Cons.prems(1) have rs: "gmap_ok rs" "gget rs rk = None" by (simp_all add: kv gmap_ok_Cons)
  have n: "n \<le> gget0 u rk" using Cons.prems(2) [of rk] by (simp add: kv gget0_Cons)
  have none: "gget0 rs rk = 0" by (simp add: gget0_def rs)
  have "gget0 rs k' \<le> gget0 (gadd rk (- n) u) k'" for k'
    using Cons.prems(2) [of k'] n none by (cases "k' = rk") (auto simp: kv gget0_Cons)
  from Cons.IH [OF rs(1) this] n none show ?case by (auto simp: kv gget0_Cons)
qed simp

lemma uncount_ok:
  assumes "sync_ok db ss"
    and "set (map rv_ExecutionID (db_reservations db')) = set (map rv_ExecutionID (db_reservations db))"
  shows "sync_ok db' (uncount_profile exec (uncount_type exec ss))"
proof (cases "gget (syncReservationTypes ss) exec")
  case None
  with assms show ?thesis by (auto simp: uncount_type_def uncount_profile_def sync_ok_def)
next
  case (Some t)
  let ?ts = "syncReservationTypes ss"
  obtain xs ys where ts: "?ts = xs @ (exec, t) # ys" "gdel exec ?ts = xs @ ys"
    using gdel_present [OF _ Some] assms(1) by (auto simp: sync_ok_def)
  have prof: "gget (syncReservationProfiles ss) exec = Some (resourceProfileForSync t)"
    using assms(1) Some by (simp add: sync_ok_def)
  have cnt: "gget0 (syncTypeCounters ss) t' =
      int (length (filter (\<lambda>(x, u). u = t') xs)) + (if t = t' then 1 else 0) +
      int (length (filter (\<lambda>(x, u). u = t') ys))" for t'
    using assms(1) ts(1) by (simp add: sync_ok_def)
  have use: "gget0 (syncResourceUsage ss) rk =
      (\<Sum>(x, t)\<leftarrow>xs. demand t rk) + demand t rk + (\<Sum>(x, t)\<leftarrow>ys. demand t rk)" for rk
    using assms(1) ts(1) by (simp add: sync_ok_def)
  have nn: "0 \<le> (\<Sum>(x, t)\<leftarrow>zs. demand t rk)" for zs :: "(string \<times> string) list" and rk
    by (intro sum_list_nonneg) (auto simp: demand_nonneg)
  have sub: "gget0 (foldl (\<lambda>u (rk, n). if gget0 u rk \<ge> n then gadd rk (- n) u else u)
      (syncResourceUsage ss) (resourceProfileForSync t)) rk =
      (\<Sum>(x, t)\<leftarrow>xs. demand t rk) + (\<Sum>(x, t)\<leftarrow>ys. demand t rk)" for rk
    using nn [of _ xs] nn [of _ ys]
    by (subst sub_profile) (auto simp: gmap_ok_profile demand_profile use)
  have ok: "gmap_ok (xs @ ys)" using assms(1) ts gmap_ok_gdel [of ?ts exec] by (simp add: sync_ok_def)
  have ss': "uncount_profile exec (uncount_type exec ss) =
    ss\<lparr>syncTypeCounters := gadd t (-1) (syncTypeCounters ss),
       syncReservationTypes := xs @ ys,
       syncResourceUsage := foldl (\<lambda>u (rk, n). if gget0 u rk \<ge> n then gadd rk (- n) u else u)
          (syncResourceUsage ss) (resourceProfileForSync t),
       syncReservationProfiles := gdel exec (syncReservationProfiles ss)\<rparr>"
    using cnt [of t] by (simp add: uncount_type_def uncount_profile_def Some prof ts(2))
  have "gget (xs @ ys) x = (if x = exec then None else gget ?ts x)" for x
    using gget_gdel [of exec ?ts x] by (simp add: ts(2))
  then show ?thesis
    using assms cnt sub ok ts(1) unfolding ss' sync_ok_def
    by (simp add: image_subset_iff)
qed

section \<open>Histories of synchronous admission\<close>

inductive sync_step ::
  "Policy \<Rightarrow> time \<times> SchedDB \<times> SyncState \<Rightarrow> time \<times> SchedDB \<times> SyncState \<Rightarrow> bool" for p where
  sync_tick: "now \<le> now' \<Longrightarrow> sync_step p (now, db, ss) (now', db, ss)"
| sync_acquire: "AcquireSync uuid now req p ttl db ss = Inr (sr, db', ss') \<Longrightarrow>
    sync_step p (now, db, ss) (now, db', ss')"
| sync_release: "ReleaseSync now exec reason releasedBy db ss = Inr (db', ss') \<Longrightarrow>
    sync_step p (now, db, ss) (now, db', ss')"
| sync_heartbeat: "HeartbeatSync now exec ttl db = Inr db' \<Longrightarrow>
    sync_step p (now, db, ss) (now, db', ss)"
| sync_expire: "sync_step p (now, db, ss) (now, RunOnce cancelled now db, ss)"
| sync_claim: "InsertAdmissionReservation now exec t 1 revid lease db = Inr (n, db') \<Longrightarrow>
    sync_step p (now, db, ss) (now, db', ss)"
| sync_policy: "ApplyPolicyRevision now a db = Inr (r, db') \<Longrightarrow>
    sync_step p (now, db, ss) (now, db', ss)"

inductive sync_reach :: "Policy \<Rightarrow> time \<times> SchedDB \<times> SyncState \<Rightarrow> bool" for p where
  sync_start: "store_ok db \<Longrightarrow> sync_reach p (now, db, ResetSyncCounters)"
| sync_next: "sync_reach p s \<Longrightarrow> sync_step p s s' \<Longrightarrow> sync_reach p s'"

definition counters_within :: "Policy \<Rightarrow> SyncState \<Rightarrow> bool" where
  "counters_within p ss \<longleftrightarrow>
     (\<forall>t. gget0 (syncTypeCounters ss) t \<le> max 0 (gget0 (TypeConcurrency p) t)) \<and>
     (\<forall>rk. 0 < gget0 (ResourceCapacity p) rk \<longrightarrow>
        gget0 (syncResourceUsage ss) rk \<le> gget0 (ResourceCapacity p) rk)"

lemma AcquireSync_Inr:
  assumes "AcquireSync uuid now req p ttl db ss = Inr (sr, db', ss')"
  shows "sync_counter_check (sr_ExecutionID sr) (sq_TaskType req) p ss = None"
    "CheckAllBudgets db (sq_TaskType req) p now = []"
    "\<exists>n revid lease. insert_reservation now (sr_ExecutionID sr) (sq_TaskType req) 1 revid lease db = Inr (n, db')"
    "ss' = count_sync (sr_ExecutionID sr) (sq_TaskType req) ss"
    "sr_LeaseUntil sr = now + effective_ttl ttl"
  using assms
  by (auto simp: AcquireSync_def Let_def InsertAdmissionReservation_def
      split: if_splits option.splits sum.splits) blast

lemma sync_counter_check_None:
  assumes "sync_counter_check exec t p ss = None"
  shows "0 < gget0 (TypeConcurrency p) t \<Longrightarrow>
      gget0 (syncTypeCounters ss) t < gget0 (TypeConcurrency p) t"
    "0 < gget0 (ResourceCapacity p) rk \<Longrightarrow>
      gget0 (syncResourceUsage ss) rk \<le> gget0 (ResourceCapacity p) rk \<Longrightarrow>
      gget0 (syncResourceUsage ss) rk + demand t rk \<le> gget0 (ResourceCapacity p) rk"
proof -
  show "0 < gget0 (TypeConcurrency p) t \<Longrightarrow>
      gget0 (syncTypeCounters ss) t < gget0 (TypeConcurrency p) t"
    using assms by (auto simp: sync_counter_check_def Let_def split: if_splits)
  assume cap: "0 < gget0 (ResourceCapacity p) rk"
    "gget0 (syncResourceUsage ss) rk \<le> gget0 (ResourceCapacity p) rk"
  show "gget0 (syncResourceUsage ss) rk + demand t rk \<le> gget0 (ResourceCapacity p) rk"
  proof (cases "gget (resourceProfileForSync t) rk")
    case None
    then have "demand t rk = 0" using demand_profile [of t rk] by (simp add: gget0_def)
    with cap show ?thesis by simp
  next
    case (Some n)
    then have "demand t rk = n" using demand_profile [of t rk] by (simp add: gget0_def)
    moreover from assms gget_SomeD [OF Some] cap
    have "gget0 (syncResourceUsage ss) rk + n \<le> gget0 (ResourceCapacity p) rk"
      by (fastforce simp: sync_counter_check_def Let_def first_error_None_iff split: if_splits)
    ultimately show ?thesis by simp
  qed
qed

lemma counters_within_count:
  assumes "counters_within p ss" "sync_counter_check exec t p ss = None"
    and "0 < gget0 (TypeConcurrency p) t"
  shows "counters_within p (count_sync exec t ss)"
proof -
  note chk = sync_counter_check_None [OF assms(2)]
  have "gget0 (syncTypeCounters (count_sync exec t ss)) t' \<le> max 0 (gget0 (TypeConcurrency p) t')" for t'
    using assms(1,3) chk(1) by (auto simp: counters_within_def count_sync_def)
  moreover have "gget0 (syncResourceUsage (count_sync exec t ss)) rk \<le> gget0 (ResourceCapacity p) rk"
    if "0 < gget0 (ResourceCapacity p) rk" for rk
    using assms(1) chk(2) [OF that] that
    by (simp add: counters_within_def count_sync_def gget0_add_resources gmap_ok_profile demand_profile)
  ultimately show ?thesis by (simp add: counters_within_def)
qed

lemma uncount_le:
  assumes "sync_ok db ss"
  shows "gget0 (syncTypeCounters (uncount_profile exec (uncount_type exec ss))) t
      \<le> gget0 (syncTypeCounters ss) t"
    "gget0 (syncResourceUsage (uncount_profile exec (uncount_type exec ss))) rk
      \<le> gget0 (syncResourceUsage ss) rk"
proof -
  show "gget0 (syncTypeCounters (uncount_profile exec (uncount_type exec ss))) t
      \<le> gget0 (syncTypeCounters ss) t"
    by (auto simp: uncount_profile_def uncount_type_def split: option.splits)
  have "gget0 (foldl (\<lambda>u (rk, n). if gget0 u rk \<ge> n then gadd rk (- n) u else u) u rs) rk \<le> gget0 u rk"
    if "\<forall>(k, n) \<in> set rs. 0 \<le> n" for rs u
    using that
  proof (induction rs arbitrary: u)
    case (Cons kv rs)
    then show ?case
      by (cases kv) (auto intro: order.trans [OF Cons.IH])
  qed simp
  moreover have "\<forall>(k, n) \<in> set (resourceProfileForSync t'). 0 \<le> n" for t'
    by (cases "gget Registry t'") (auto simp: resourceProfileForSync_def dest: Registry_resources)
  moreover have "gget (syncReservationProfiles ss) exec =
      map_option resourceProfileForSync (gget (syncReservationTypes ss) exec)"
    using assms by (simp add: sync_ok_def)
  ultimately show "gget0 (syncResourceUsage (uncount_profile exec (uncount_type exec ss))) rk
      \<le> gget0 (syncResourceUsage ss) rk"
    by (auto simp: uncount_profile_def uncount_type_def split: option.splits)
qed

definition sync_inv :: "Policy \<Rightarrow> time \<times> SchedDB \<times> SyncState \<Rightarrow> bool" where
  "sync_inv p s \<longleftrightarrow> (case s of (now, db, ss) \<Rightarrow> store_ok db \<and> sync_ok db ss \<and> counters_within p ss)"

text \<open>The counters depend on the execution ids of the rows only.\<close>

lemma sync_ok_rows:
  "sync_ok db ss \<Longrightarrow> set (map rv_ExecutionID (db_reservations db)) \<subseteq>
     set (map rv_ExecutionID (db_reservations db')) \<Longrightarrow> sync_ok db' ss"
  unfolding sync_ok_def set_map by (elim conjE) (intro conjI, assumption+, erule (1) order.trans)

lemma ReleaseSync_Inr:
  assumes "ReleaseSync now exec reason releasedBy db ss = Inr (db', ss')"
  shows "db' = db \<and> ss' = ss \<or> ReleaseReservationTx now exec reason releasedBy db = Inr db' \<and>
    ss' = uncount_profile exec (uncount_type exec ss)"
  using assms by (auto simp: ReleaseSync_def split: if_splits sum.splits store_error.splits)

lemma release_execs:
  "map rv_ExecutionID (sql_update P (released_row now reason by) rows) = map rv_ExecutionID rows"
  by (simp add: map_sql_update_id released_row_def)

lemma RunOnce_execs:
  "map rv_ExecutionID (db_reservations (RunOnce cancelled now db)) = map rv_ExecutionID (db_reservations db)"
  by (simp add: RunOnce_def release_each_rows released_row_def)

lemma sync_step_inv: "sync_step p s s' \<Longrightarrow> sync_inv p s \<Longrightarrow> sync_inv p s'"
proof (induction rule: sync_step.induct)
  case (sync_acquire uuid now req ttl db ss sr db' ss')
  note a = AcquireSync_Inr [OF sync_acquire(1)]
  from sync_acquire(2) have inv: "store_ok db" "sync_ok db ss" "counters_within p ss"
    by (simp_all add: sync_inv_def)
  from a(3) obtain n revid lease where ins:
    "insert_reservation now (sr_ExecutionID sr) (sq_TaskType req) 1 revid lease db = Inr (n, db')"
    by blast
  note i = insert_reservation_ok [OF ins inv(1)]
  have "0 < gget0 (TypeConcurrency p) (sq_TaskType req)"
    using a(2) by (simp add: CheckAllBudgets_Nil CheckTypeConcurrency_None)
  then have "counters_within p ss'" unfolding a(4) by (rule counters_within_count [OF inv(3) a(1)])
  moreover have "sync_ok db' ss'"
    unfolding a(4) by (rule count_sync_ok [OF inv(2)]) (use i(2,3) in auto)
  ultimately show ?case using i(1) by (simp add: sync_inv_def)
next
  case (sync_release now exec reason releasedBy db ss db' ss')
  from sync_release(2) have inv: "store_ok db" "sync_ok db ss" "counters_within p ss"
    by (simp_all add: sync_inv_def)
  from ReleaseSync_Inr [OF sync_release(1)] show ?case
  proof (elim disjE conjE)
    assume r: "ReleaseReservationTx now exec reason releasedBy db = Inr db'"
      and ss': "ss' = uncount_profile exec (uncount_type exec ss)"
    note ok = ReleaseReservationTx_ok [OF r inv(1)]
    have "map rv_ExecutionID (db_reservations db') = map rv_ExecutionID (db_reservations db)"
      by (simp add: ok(2) release_execs)
    then have "sync_ok db' ss'" unfolding ss' by (intro uncount_ok [OF inv(2)]) simp
    moreover have "counters_within p ss'"
      using inv(3) uncount_le [OF inv(2), of exec] unfolding ss' counters_within_def
      by (meson order.trans)
    ultimately show ?thesis using ok(1) by (simp add: sync_inv_def)
  qed (use sync_release(2) in simp)
next
  case (sync_heartbeat now exec ttl db db' ss)
  then have "db' = renew_lease now exec (now + effective_ttl ttl) db"
    by (auto simp: HeartbeatSync_def split: if_splits)
  moreover have "map rv_ExecutionID (db_reservations (renew_lease now exec l db)) =
      map rv_ExecutionID (db_reservations db)" for l
    by (simp add: renew_lease_def map_sql_update_id)
  ultimately show ?case
    using sync_heartbeat(2) sync_ok_rows [of db ss db'] renew_lease_ok [of db now exec]
    by (simp add: sync_inv_def flip: set_map)
next
  case (sync_expire now db ss cancelled)
  have "store_ok db \<Longrightarrow> store_ok (RunOnce cancelled now db)"
    by (simp add: RunOnce_def release_each_ok)
  with sync_expire sync_ok_rows [of db ss "RunOnce cancelled now db"] show ?case
    by (simp add: sync_inv_def RunOnce_execs del: set_map)
next
  case (sync_claim now exec t revid lease db n db' ss)
  then have "insert_reservation now exec t 1 revid lease db = Inr (n, db')" "store_ok db"
    by (simp_all add: InsertAdmissionReservation_def sync_inv_def)
  from insert_reservation_ok [OF this] sync_claim(2) show ?case
    by (auto simp: sync_inv_def intro: sync_ok_rows)
next
  case (sync_policy now a db r db' ss)
  then show ?case
    using ApplyPolicyRevision_ok(1,2) [OF sync_policy(1)]
    by (auto simp: sync_inv_def intro: sync_ok_rows)
qed (simp add: sync_inv_def)

lemma counters_within_reset: "counters_within p ResetSyncCounters"
  by (simp add: counters_within_def ResetSyncCounters_def)

lemma sync_reach_inv: "sync_reach p s \<Longrightarrow> sync_inv p s"
  by (induction rule: sync_reach.induct)
    (auto simp: sync_inv_def sync_ok_reset counters_within_reset dest: sync_step_inv)


abbreviation poster_request :: SyncAdmissionRequest where
  "poster_request \<equiv> \<lparr>sq_Owner = ''w'', sq_TaskType = ''poster''\<rparr>"

lemma TrimSpace_poster: "TrimSpace ''w'' = ''w''" "TrimSpace ''poster'' = ''poster''"
  by code_simp+

lemma example_acquire:
  assumes "gget (TypeConcurrency p) ''poster'' = Some n" "0 < n" "ResourceCapacity p = []"
    "ProviderCapacity p = []"
  shows "\<exists>db db1 ss1. store_ok db \<and>
     AcquireSync ''1'' 0 poster_request p 0 db ResetSyncCounters =
       Inr (\<lparr>sr_ExecutionID = ''w/1'', sr_TaskType = ''poster'', sr_LeaseUntil = 90 * second\<rparr>,
            db1, ss1) \<and> gget0 (syncTypeCounters ss1) ''poster'' = 1"
proof -
  obtain r db where a: "ApplyPolicyRevision 0 example_params empty_db = Inr (r, db)"
    using example_apply by blast
  note ok = ApplyPolicyRevision_ok [OF a store_ok_empty]
  have frame: "db_reservations db = []" "db_controls db = []"
    using a
    by (auto simp: ApplyPolicyRevision_def and_then_Inr_iff insert_revision_def insert_audit_def
        switch_active_def empty_db_def Let_def split: if_splits)
  have check: "CheckAllBudgets db ''poster'' p 0 = []"
    by (rule CheckAllBudgets_open [OF assms(1)])
      (simp_all add: ActiveReservationCount_def frame assms)
  have cnt: "sync_counter_check x ''poster'' p ResetSyncCounters = None" for x
    using assms by (auto simp: sync_counter_check_def ResetSyncCounters_def first_error_None_iff gget0_def)
  obtain n db1 where "insert_reservation 0 ''w/1'' ''poster'' 1 (pr_ID r) (90 * second) db = Inr (n, db1)"
    using ok(5) by (simp add: insert_reservation_def frame sql_nonempty_def bexI [of _ r] Let_def)
  then show ?thesis
    using ok(1) check cnt ok(4)
    by (intro exI [of _ db] exI [of _ db1]
        exI [of _ "count_sync ''w/1'' ''poster'' ResetSyncCounters"])
      (simp add: AcquireSync_def TrimSpace_poster GenerateExecutionID_def Let_def effective_ttl_def
        InsertAdmissionReservation_def count_sync_def ResetSyncCounters_def)
qed




end
