(* ===== verification/Sched_Service.thy ===== *)
theory Sched_Service
  imports Sched_Admission
begin

text \<open>
  \<open>internal/scheduler/service.go\<close>: the service that holds the effective policy in memory, its
  runtime overrides and control commands, the usage snapshot, and the fallback admission after
  a failed attempt.  The policy part of the file (payloads and override layers) is in
  \<open>Sched_Policy\<close>.
\<close>

section \<open>State\<close>

record ClaimResult =
  cr_ExecutionID :: string
  cr_TaskType :: string
  cr_Owner :: string

text \<open>A claimer is the work source of the caller: given its owner and types, an error, nothing, or a claim.\<close>

type_synonym Claimer = "string \<Rightarrow> string list \<Rightarrow> string + ClaimResult option"

record Service =
  sv_claimer :: "Claimer option"
  sv_policy :: Policy
  sv_basePolicy :: Policy

datatype service_error =
    SvStore store_error
  | SvParse
  | SvNoClaimer
  | SvClaim string
  | SvRevisionConflict int int
  | SvValidation "override_error list"
  | SvUnknownTaskType string
  | SvUnknownCommand string
  | SvControlConflict int int
  | SvFallbackExecutionRequired
  | SvFallbackTypeRequired
  | SvFallbackOwnerRequired
  | SvFallbackNoResources
  | SvFallbackResources request_error
  | SvFallbackPending
  | SvNoActivePolicy
  | SvContextDone

definition SetPolicy :: "Policy \<Rightarrow> Service \<Rightarrow> Service" where
  "SetPolicy p s = s\<lparr>sv_policy := p\<rparr>"

definition SetBasePolicy :: "Policy \<Rightarrow> Service \<Rightarrow> Service" where
  "SetBasePolicy p s = s\<lparr>sv_basePolicy := p\<rparr>"

definition SetClaimer :: "Claimer \<Rightarrow> Service \<Rightarrow> Service" where
  "SetClaimer c s = s\<lparr>sv_claimer := Some c\<rparr>"

definition CurrentPolicy :: "Service \<Rightarrow> Policy" where
  "CurrentPolicy s = sv_policy s"

definition Claim :: "string \<Rightarrow> string list \<Rightarrow> Service \<Rightarrow> service_error + ClaimResult option" where
  "Claim owner types s =
     (case sv_claimer s of
        None \<Rightarrow> Inl SvNoClaimer
      | Some c \<Rightarrow> (case c owner types of Inl e \<Rightarrow> Inl (SvClaim e) | Inr r \<Rightarrow> Inr r))"

definition Reload :: "SchedDB \<Rightarrow> Service \<Rightarrow> service_error + Service" where
  "Reload db s =
     (case GetActivePolicyRevision db of
        Inl NoRows \<Rightarrow> Inr s
      | Inl e \<Rightarrow> Inl (SvStore e)
      | Inr r \<Rightarrow>
          (case pr_PolicyJSON r of
             PolicyText j \<Rightarrow>
               if TypeConcurrency (sv_basePolicy s) = []
               then Inr (SetPolicy (policyFromRevisionJSON j) s)
               else Inr (SetPolicy (rebuildEffective (sv_basePolicy s) j) s)
           | _ \<Rightarrow> Inl SvParse))"

section \<open>Usage snapshot\<close>

definition postIngestTypeNames :: "string list" where
  "postIngestTypeNames = [''poster'', ''poster_repair'', ''thumbnail'', ''preview'', ''keyframe'',
     ''subtitle'', ''subtitle_recognize'', ''ai_analysis'', ''atrack'', ''encrypt'']"

record BudgetSnapshot =
  bs_GlobalLimit :: int
  bs_GlobalUsed :: int
  bs_PosterLimit :: int
  bs_PosterUsed :: int
  bs_PreviewLimit :: int
  bs_PreviewUsed :: int
  bs_SubtitleLimit :: int
  bs_SubtitleUsed :: int
  bs_ResourceUsage :: "(ResourceKind, int) gmap"
  bs_ResourceLimits :: "(ResourceKind, int) gmap"

definition poster_types :: "string list" where "poster_types = [''poster'', ''poster_repair'']"
definition preview_types :: "string list" where "preview_types = [''preview'']"
definition subtitle_types :: "string list" where
  "subtitle_types = [''subtitle'', ''subtitle_recognize'', ''ai_analysis'']"

text \<open>The first loop: one active reservation.\<close>

definition snapshot_use :: "Reservation \<Rightarrow> BudgetSnapshot \<Rightarrow> BudgetSnapshot" where
  "snapshot_use r b =
     (if rv_TaskType r \<notin> set postIngestTypeNames then b
      else
        let b1 = b\<lparr>bs_GlobalUsed := bs_GlobalUsed b + 1\<rparr>;
            t = rv_TaskType r;
            b2 = (if t \<in> set poster_types then b1\<lparr>bs_PosterUsed := bs_PosterUsed b1 + 1\<rparr>
                  else if t \<in> set preview_types then b1\<lparr>bs_PreviewUsed := bs_PreviewUsed b1 + 1\<rparr>
                  else if t \<in> set subtitle_types then b1\<lparr>bs_SubtitleUsed := bs_SubtitleUsed b1 + 1\<rparr>
                  else b1)
        in case gget Registry t of
             None \<Rightarrow> b2
           | Some desc \<Rightarrow> b2\<lparr>bs_ResourceUsage :=
               add_resources (d_Resources desc) (rv_ReservedUnits r) (bs_ResourceUsage b2)\<rparr>)"

text \<open>The second loop: one post-ingest type.\<close>

definition snapshot_limit :: "Policy \<Rightarrow> string \<Rightarrow> BudgetSnapshot \<Rightarrow> BudgetSnapshot" where
  "snapshot_limit p t b =
     (let n = gget0 (TypeConcurrency p) t;
          b1 = b\<lparr>bs_GlobalLimit := bs_GlobalLimit b + n\<rparr>
      in if t \<in> set poster_types then b1\<lparr>bs_PosterLimit := bs_PosterLimit b1 + n\<rparr>
         else if t \<in> set preview_types then b1\<lparr>bs_PreviewLimit := bs_PreviewLimit b1 + n\<rparr>
         else if t \<in> set subtitle_types then b1\<lparr>bs_SubtitleLimit := bs_SubtitleLimit b1 + n\<rparr>
         else b1)"

definition Snapshot :: "SchedDB \<Rightarrow> Service \<Rightarrow> BudgetSnapshot" where
  "Snapshot db s =
     (let p = sv_policy s;
          b0 = \<lparr>bs_GlobalLimit = 0, bs_GlobalUsed = 0, bs_PosterLimit = 0, bs_PosterUsed = 0,
                bs_PreviewLimit = 0, bs_PreviewUsed = 0, bs_SubtitleLimit = 0,
                bs_SubtitleUsed = 0, bs_ResourceUsage = [], bs_ResourceLimits = []\<rparr>;
          b1 = fold snapshot_use (ListActiveReservations db) b0;
          b2 = fold (snapshot_limit p) postIngestTypeNames b1
      in b2\<lparr>bs_ResourceLimits := filter (\<lambda>(rk, cap). cap > 0) (ResourceCapacity p)\<rparr>)"

section \<open>Fallback admission\<close>

record FallbackRequest =
  fb_ExecutionID :: string
  fb_TaskType :: string
  fb_Owner :: string
  fb_Resources :: ResourceRequest

definition checkResourceRequestBudget ::
  "SchedDB \<Rightarrow> string \<Rightarrow> ResourceRequest \<Rightarrow> Policy \<Rightarrow> time \<Rightarrow> AdmissionBlocker option" where
  "checkResourceRequestBudget db t requested policy now =
     map_option (blocker t)
       (over_budget requested (ResourceCapacity policy) (ActiveResourceUsage db now))"

definition tryAdmitFallback ::
  "string \<Rightarrow> time \<Rightarrow> FallbackRequest \<Rightarrow> Policy \<Rightarrow> SchedDB \<Rightarrow> service_error + Reservation \<times> SchedDB" where
  "tryAdmitFallback uuid now req policy db =
     (if CheckTypeConcurrency db (fb_TaskType req) policy now \<noteq> None then Inl SvFallbackPending
      else if checkResourceRequestBudget db (fb_TaskType req) (fb_Resources req) policy now \<noteq> None
      then Inl SvFallbackPending
      else
        (case active_id db of
           None \<Rightarrow> Inl SvNoActivePolicy
         | Some revID \<Rightarrow>
             let exec = GenerateExecutionID (TrimSpace (fb_Owner req)) uuid
             in (case InsertAdmissionReservation now exec (fb_TaskType req) 1 revID
                        (now + 90 * second) db of
                   Inl e \<Rightarrow> Inl (SvStore e)
                 | Inr (_, db') \<Rightarrow>
                     (case GetReservation db' exec of
                        Inl e \<Rightarrow> Inl (SvStore e)
                      | Inr r \<Rightarrow> Inr (r, db')))))"

text \<open>
  The polling loop.  Each poll is the time and uuid of an attempt, after what other connections
  did to the tables since the last one; when the list ends the context is done.  The tables are
  returned with the result, since the fence stays when the wait fails.
\<close>

type_synonym poll = "time \<times> string \<times> (SchedDB \<Rightarrow> SchedDB)"

fun fallback_loop ::
  "FallbackRequest \<Rightarrow> Policy \<Rightarrow> poll list \<Rightarrow> SchedDB \<Rightarrow> (service_error + Reservation) \<times> SchedDB" where
  "fallback_loop req policy [] db = (Inl SvContextDone, db)"
| "fallback_loop req policy ((now, uuid, others) # polls) db =
     (case tryAdmitFallback uuid now req policy (others db) of
        Inr (r, db') \<Rightarrow> (Inr r, db')
      | Inl e \<Rightarrow> if e = SvFallbackPending then fallback_loop req policy polls (others db)
                 else (Inl e, others db))"

definition fallback_error :: "FallbackRequest \<Rightarrow> service_error option" where
  "fallback_error req =
     (if TrimSpace (fb_ExecutionID req) = [] then Some SvFallbackExecutionRequired
      else if TrimSpace (fb_TaskType req) = [] then Some SvFallbackTypeRequired
      else if TrimSpace (fb_Owner req) = [] then Some SvFallbackOwnerRequired
      else if fb_Resources req = [] then Some SvFallbackNoResources
      else map_option SvFallbackResources (ValidateResourceRequest (fb_Resources req)))"

definition AcquireFallback ::
  "time \<Rightarrow> FallbackRequest \<Rightarrow> poll list \<Rightarrow> Service \<Rightarrow> SchedDB \<Rightarrow>
   (service_error + Reservation) \<times> SchedDB" where
  "AcquireFallback now req polls s db =
     (case fallback_error req of
        Some e \<Rightarrow> (Inl e, db)
      | None \<Rightarrow>
          (case ReleaseReservation now (TrimSpace (fb_ExecutionID req)) ''gpu_fallback_fence''
                  (TrimSpace (fb_Owner req)) db of
             Inl e \<Rightarrow> (Inl (SvStore e), db)
           | Inr db1 \<Rightarrow> fallback_loop req (sv_policy s) polls db1))"

section \<open>Runtime overrides\<close>

text \<open>\<open>detail\<close> is the JSON text of the audit row, which \<open>json.Marshal\<close> produced.\<close>

definition ApplyRuntimeOverride ::
  "string \<Rightarrow> time \<Rightarrow> RuntimeOverrideRequest \<Rightarrow> Service \<Rightarrow> SchedDB \<Rightarrow>
   service_error + (int \<times> Policy) \<times> Service \<times> SchedDB" where
  "ApplyRuntimeOverride detail now req0 s db =
     (let req = normalizeRuntimeOverrideRequest req0;
          currentID = (case GetActivePolicyRevision db of Inr r \<Rightarrow> pr_ID r | Inl _ \<Rightarrow> -1);
          current = sv_policy s;
          base = (if TypeConcurrency (sv_basePolicy s) = [] then current else sv_basePolicy s);
          p = override_policy base current req
      in if r_ExpectedRevision req \<noteq> currentID
         then Inl (SvRevisionConflict (r_ExpectedRevision req) currentID)
         else if override_errors req \<noteq> [] then Inl (SvValidation (override_errors req))
         else (case Validate p of
             Some e \<Rightarrow> Inl (SvValidation [OvPolicy e])
           | None \<Rightarrow>
               (case ApplyPolicyRevision now
                   \<lparr>ap_SchemaVersion = 1, ap_ParentRevisionID = None,
                    ap_PolicyJSON = PolicyText (EncodePolicyJSON p), ap_Author = r_Author req,
                    ap_Reason = r_Reason req, ap_ValidationHash = ''runtime'',
                    ap_ExpectedRevision = currentID,
                    ap_AuditEventType = ''scheduler.policy_update'',
                    ap_AuditDetailJSON = Some detail\<rparr> db of
                  Inl (RevisionConflictError e c) \<Rightarrow> Inl (SvRevisionConflict e c)
                | Inl e \<Rightarrow> Inl (SvStore e)
                | Inr (r, db') \<Rightarrow> Inr ((pr_ID r, p), SetPolicy p s, db'))))"

record PolicyStatus =
  ps_Revision :: int
  ps_Active :: bool
  ps_Actor :: string
  ps_Reason :: string
  ps_ActivatedAt :: "time option"
  ps_Policy :: Policy

definition PolicyStatus_of :: "SchedDB \<Rightarrow> Service \<Rightarrow> service_error + PolicyStatus" where
  "PolicyStatus_of db s =
     (case GetActivePolicyRevision db of
        Inl NoRows \<Rightarrow> Inr \<lparr>ps_Revision = 0, ps_Active = False, ps_Actor = [], ps_Reason = [],
                            ps_ActivatedAt = None, ps_Policy = sv_policy s\<rparr>
      | Inl e \<Rightarrow> Inl (SvStore e)
      | Inr r \<Rightarrow> Inr \<lparr>ps_Revision = pr_ID r, ps_Active = pr_IsActive r, ps_Actor = pr_Author r,
                       ps_Reason = pr_Reason r, ps_ActivatedAt = pr_ActivatedAt r,
                       ps_Policy = sv_policy s\<rparr>)"

section \<open>Control commands\<close>

record ControlResult =
  ct_TaskType :: string
  ct_State :: string
  ct_Revision :: int
  ct_LiveReservations :: nat
  ct_Drained :: bool
  ct_Actor :: string
  ct_Reason :: string

definition control_target :: "string \<Rightarrow> nat \<Rightarrow> string option" where
  "control_target command live =
     (if command = ''pause'' then Some ''paused''
      else if command = ''resume'' then Some ''running''
      else if command = ''drain'' then Some (if live = 0 then ''paused'' else ''draining'')
      else None)"

definition control_result ::
  "string \<Rightarrow> string \<Rightarrow> int \<Rightarrow> nat \<Rightarrow> string \<Rightarrow> string \<Rightarrow> ControlResult" where
  "control_result t state revision live actor reason =
     \<lparr>ct_TaskType = t, ct_State = state, ct_Revision = revision, ct_LiveReservations = live,
      ct_Drained = (state \<noteq> ''running'' \<and> live = 0), ct_Actor = actor, ct_Reason = reason\<rparr>"

text \<open>
  \<open>detail\<close> renders the audit row of the fresh state and revision.  The calls are separate
  statements: the tables are returned with the result, since the new state stays when the audit
  fails.
\<close>

definition Control ::
  "(string \<Rightarrow> string \<Rightarrow> int \<Rightarrow> string) \<Rightarrow> time \<Rightarrow> string \<Rightarrow> string \<Rightarrow> int \<Rightarrow> string \<Rightarrow> string \<Rightarrow> SchedDB \<Rightarrow>
   (service_error + ControlResult) \<times> SchedDB" where
  "Control detail now taskType0 command0 expectedRevision actor0 reason0 db =
     (let taskType = TrimSpace taskType0;
          command = TrimSpace command0;
          actor = (if TrimSpace actor0 = [] then ''system'' else TrimSpace actor0);
          reason = TrimSpace reason0;
          curState = (case GetControlState db taskType of Inr c \<Rightarrow> cs_State c | Inl _ \<Rightarrow> []);
          curRevision = (case GetControlState db taskType of Inr c \<Rightarrow> cs_Revision c | Inl _ \<Rightarrow> 0);
          live = ActiveReservationCount db taskType now
      in if gget Registry taskType = None then (Inl (SvUnknownTaskType taskType), db)
         else (case control_target command live of
             None \<Rightarrow> (Inl (SvUnknownCommand command), db)
           | Some target \<Rightarrow>
               if curState = target
               then (Inr (control_result taskType curState curRevision live actor reason), db)
               else if expectedRevision \<ge> 0 \<and> expectedRevision \<noteq> curRevision
               then (Inl (SvControlConflict expectedRevision curRevision), db)
               else (case SetControlState now taskType target db of
                   Inl e \<Rightarrow> (Inl (SvStore e), db)
                 | Inr db1 \<Rightarrow>
                     (case GetControlState db1 taskType of
                        Inl e \<Rightarrow> (Inl (SvStore e), db1)
                      | Inr fresh \<Rightarrow>
                          (case RecordAudit now ''scheduler.control'' actor
                                  (Some (detail taskType (cs_State fresh) (cs_Revision fresh))) db1 of
                             Inl e \<Rightarrow> (Inl (SvStore e), db1)
                           | Inr (_, db2) \<Rightarrow>
                               (Inr (control_result taskType (cs_State fresh) (cs_Revision fresh)
                                       live actor reason), db2))))))"

section \<open>Properties of control\<close>

lemma GetControlState_row:
  "GetControlState db t = Inr c \<Longrightarrow> control_row db t = Some (cs_State c, cs_Revision c)"
  by (auto simp: GetControlState_def control_row_def split: option.splits)

lemma control_row_None: "GetControlState db t = Inl e \<Longrightarrow> control_row db t = None"
  by (auto simp: GetControlState_def control_row_def split: option.splits)

text \<open>The state and the revision of a type, as \<open>Control\<close> reads them.\<close>

definition ctl_state :: "SchedDB \<Rightarrow> string \<Rightarrow> string" where
  "ctl_state db t = (case control_row db t of None \<Rightarrow> [] | Some (s, _) \<Rightarrow> s)"

definition ctl_rev :: "SchedDB \<Rightarrow> string \<Rightarrow> int" where
  "ctl_rev db t = (case control_row db t of None \<Rightarrow> 0 | Some (_, n) \<Rightarrow> n)"

lemma ctl_read:
  "(case GetControlState db t of Inr c \<Rightarrow> cs_State c | Inl _ \<Rightarrow> []) = ctl_state db t"
  "(case GetControlState db t of Inr c \<Rightarrow> cs_Revision c | Inl _ \<Rightarrow> 0) = ctl_rev db t"
  by (auto simp: ctl_state_def ctl_rev_def dest: GetControlState_row control_row_None
      split: sum.splits)

lemma RecordAudit_frame:
  "RecordAudit now e a d db = Inr (x, db') \<Longrightarrow>
   db_controls db' = db_controls db \<and> db_reservations db' = db_reservations db \<and>
   length (db_audits db') = length (db_audits db) + 1"
  by (auto simp: RecordAudit_def and_then_Inr_iff insert_audit_def Let_def split: if_splits)

lemma control_row_cong: "db_controls db' = db_controls db \<Longrightarrow> control_row db' = control_row db"
  by (simp add: control_row_def fun_eq_iff)

lemma control_target_state: "control_target c n = Some s \<Longrightarrow> s \<in> {''paused'', ''draining'', ''running''}"
  by (auto simp: control_target_def split: if_splits)

lemma SetControlState_audits: "SetControlState now t s db = Inr db' \<Longrightarrow> db_audits db' = db_audits db"
  by (auto simp: SetControlState_def split: if_splits)

lemma Control_Inr:
  assumes "Control detail now t0 c0 expected actor reason db = (Inr res, db')"
  defines "t \<equiv> TrimSpace t0"
  shows "\<exists>target. control_target (TrimSpace c0) (ActiveReservationCount db t now) = Some target \<and>
    ct_State res = target \<and> ct_Revision res = ctl_rev db' t \<and>
    ctl_state db' t = target \<and>
    (if ctl_state db t = target then db' = db
     else (expected < 0 \<or> expected = ctl_rev db t) \<and> ctl_rev db' t = ctl_rev db t + 1 \<and>
       length (db_audits db') = length (db_audits db) + 1 \<and>
       db_reservations db' = db_reservations db \<and>
       (\<forall>u. u \<noteq> t \<longrightarrow> control_row db' u = control_row db u))"
proof -
  from assms(1) obtain target where tgt:
    "control_target (TrimSpace c0) (ActiveReservationCount db t now) = Some target"
    by (auto simp: Control_def Let_def t_def split: if_splits option.splits)
  show ?thesis
  proof (cases "ctl_state db t = target")
    case True
    with assms(1) tgt show ?thesis
      by (auto simp: Control_def Let_def ctl_read control_result_def simp flip: t_def
          split: if_splits)
  next
    case False
    from assms(1) tgt False obtain db1 fresh x where
      set1: "SetControlState now t target db = Inr db1" and
      get1: "GetControlState db1 t = Inr fresh" and
      aud: "RecordAudit now ''scheduler.control'' (if TrimSpace actor = [] then ''system'' else TrimSpace actor)
         (Some (detail t (cs_State fresh) (cs_Revision fresh))) db1 = Inr (x, db')" and
      res: "ct_State res = cs_State fresh" "ct_Revision res = cs_Revision fresh" and
      expd: "expected < 0 \<or> expected = ctl_rev db t"
      by (auto simp: Control_def Let_def ctl_read control_result_def simp flip: t_def
          split: if_splits sum.splits)
    note fr = RecordAudit_frame [OF aud]
    have row: "control_row db1 t = Some (target, 1 + ctl_rev db t)"
      using control.upsert_same [OF set1] by (simp add: ctl_rev_def)
    have "control_row db' = control_row db1" using fr by (intro control_row_cong) simp
    with row GetControlState_row [OF get1] control.upsert_other [OF set1] fr tgt False res expd
      SetControlState_audits [OF set1] SetControlState_reservations [OF set1]
    show ?thesis by (auto simp: ctl_state_def ctl_rev_def)
  qed
qed

text \<open>A control command is one transition.  A successful \<open>Control\<close> reports the state and
  revision it left in the table: the target of its command for the number of live reservations.
  When the type was already there nothing is written; otherwise the expected revision (if any)
  matched, the revision grows by one, one audit row is added, and no other type and no
  reservation changes.\<close>
theorem Control_transition:
  assumes "Control detail now t0 c0 expected actor reason db = (Inr res, db')"
  shows "\<exists>target. control_target (TrimSpace c0) (ActiveReservationCount db (TrimSpace t0) now) = Some target \<and>
    ct_State res = target \<and> ct_Revision res = ctl_rev db' (TrimSpace t0) \<and>
    ctl_state db' (TrimSpace t0) = target \<and>
    (if ctl_state db (TrimSpace t0) = target then db' = db
     else (expected < 0 \<or> expected = ctl_rev db (TrimSpace t0)) \<and>
       ctl_rev db' (TrimSpace t0) = ctl_rev db (TrimSpace t0) + 1 \<and>
       length (db_audits db') = length (db_audits db) + 1 \<and>
       db_reservations db' = db_reservations db \<and>
       (\<forall>u. u \<noteq> TrimSpace t0 \<longrightarrow> control_row db' u = control_row db u))"
  by (rule Control_Inr [OF assms])

lemma example_control:
  "Control (\<lambda>_ _ _. ''{}'') 0 ''poster'' ''pause'' (-1) ''admin'' ''maintenance'' empty_db =
   (Inr (control_result ''poster'' ''paused'' 1 0 ''admin'' ''maintenance''),
    empty_db\<lparr>db_controls := [\<lparr>cs_TaskType = ''poster'', cs_State = ''paused'', cs_Revision = 1,
        cs_UpdatedAt = 0\<rparr>],
      db_audits := [\<lparr>ae_ID = 1, ae_EventType = ''scheduler.control'', ae_Actor = ''admin'',
        ae_DetailJSON = Some ''{}'', ae_CreatedAt = 0\<rparr>], db_audit_seq := 1\<rparr>)"
proof -
  have trim: "TrimSpace ''pause'' = ''pause''" "TrimSpace ''admin'' = ''admin''"
    "TrimSpace ''maintenance'' = ''maintenance''" by code_simp+
  have "gget Registry ''poster'' \<noteq> None"
    using Registry_in_iff_Default [of "''poster''"] DefaultConcurrency_poster by simp
  then show ?thesis
    by (simp add: Control_def trim TrimSpace_poster control_target_def GetControlState_def empty_db_def
        SetControlState_def RecordAudit_def insert_audit_def sql_nonempty_def Let_def
        ActiveReservationCount_def CURRENT_TIMESTAMP_def)
qed

theorem Control_transition_witness:
  "\<exists>res db'. Control (\<lambda>_ _ _. ''{}'') 0 ''poster'' ''pause'' (-1) ''admin'' ''maintenance'' empty_db =
     (Inr res, db') \<and> ct_State res = ''paused'' \<and> ctl_state db' ''poster'' = ''paused''"
proof -
  have "TrimSpace ''pause'' = ''pause''" by code_simp
  then show ?thesis
    using Control_transition [OF example_control] example_control
    by (auto simp: TrimSpace_poster control_target_def)
qed

lemma CheckControlState_blocks:
  assumes "ctl_state db t \<in> {''paused'', ''draining''}"
  shows "CheckAllBudgets db t p now \<noteq> []"
  using assms
  by (auto simp: CheckAllBudgets_Nil CheckControlState_def ctl_state_def control_row_def
      split: option.splits if_splits)

text \<open>C22: a paused or draining type admits nothing.  After \<open>Control\<close> accepted a pause or a drain,
  the budget check refuses the type at every time and under every policy, until another command
  changes its control row.\<close>
theorem Control_blocks_admission:
  assumes "Control detail now t0 c0 expected actor reason db = (Inr res, db')"
    and "TrimSpace c0 \<in> {''pause'', ''drain''}"
  shows "CheckAllBudgets db' (TrimSpace t0) p now' \<noteq> []"
proof -
  obtain target where "control_target (TrimSpace c0) (ActiveReservationCount db (TrimSpace t0) now) = Some target"
    "ctl_state db' (TrimSpace t0) = target"
    using Control_Inr [OF assms(1)] by auto
  with assms(2) have "ctl_state db' (TrimSpace t0) \<in> {''paused'', ''draining''}"
    by (auto simp: control_target_def split: if_splits)
  then show ?thesis by (rule CheckControlState_blocks)
qed

theorem Control_blocks_admission_witness:
  "\<exists>db'. snd (Control (\<lambda>_ _ _. ''{}'') 0 ''poster'' ''pause'' (-1) ''admin'' ''maintenance'' empty_db) = db' \<and>
     CheckAllBudgets db' ''poster'' PolicyDefaults 5 \<noteq> []"
proof -
  have trim: "TrimSpace ''pause'' = ''pause''" by code_simp
  show ?thesis
    using Control_blocks_admission [OF example_control, of PolicyDefaults 5] example_control
    by (simp add: trim TrimSpace_poster)
qed

text \<open>Repeating \<open>drain\<close> is not always a no-op.  A drain that was accepted while reservations
  were live leaves the type draining; the same command once they are gone writes a new state,
  paused, with a new revision.\<close>
theorem drain_again_pauses:
  assumes "Control detail now t0 c0 expected actor reason db = (Inr res, db')"
    and "TrimSpace c0 = ''drain''" "ctl_state db (TrimSpace t0) = ''draining''"
    and "ActiveReservationCount db (TrimSpace t0) now = 0"
  shows "ct_State res = ''paused'' \<and> ctl_rev db' (TrimSpace t0) = ctl_rev db (TrimSpace t0) + 1"
  using Control_Inr [OF assms(1)] assms(2-4) by (auto simp: control_target_def)

theorem drain_again_pauses_witness:
  "\<exists>res db'. Control (\<lambda>_ _ _. ''{}'') 9 ''poster'' ''drain'' (-1) ''admin'' []
      (empty_db\<lparr>db_controls := [\<lparr>cs_TaskType = ''poster'', cs_State = ''draining'', cs_Revision = 4,
        cs_UpdatedAt = 0\<rparr>]\<rparr>) = (Inr res, db') \<and> ct_State res = ''paused'' \<and>
     ctl_rev db' ''poster'' = 5"
proof -
  let ?db = "empty_db\<lparr>db_controls := [\<lparr>cs_TaskType = ''poster'', cs_State = ''draining'',
    cs_Revision = 4, cs_UpdatedAt = 0\<rparr>]\<rparr>"
  have trim: "TrimSpace ''drain'' = ''drain''" "TrimSpace ''admin'' = ''admin''" by code_simp+
  have "gget Registry ''poster'' \<noteq> None"
    using Registry_in_iff_Default [of "''poster''"] DefaultConcurrency_poster by simp
  then obtain res db' where c:
    "Control (\<lambda>_ _ _. ''{}'') 9 ''poster'' ''drain'' (-1) ''admin'' [] ?db = (Inr res, db')"
    by (simp add: Control_def trim TrimSpace_poster control_target_def GetControlState_def empty_db_def
        SetControlState_def sql_update_def RecordAudit_def insert_audit_def sql_nonempty_def Let_def
        ActiveReservationCount_def)
  have "ctl_state ?db ''poster'' = ''draining''" "ctl_rev ?db ''poster'' = 4"
    "ActiveReservationCount ?db ''poster'' 9 = 0"
    by (simp_all add: ctl_state_def ctl_rev_def control_row_def ActiveReservationCount_def empty_db_def)
  with drain_again_pauses [OF c] c show ?thesis by (auto simp: trim TrimSpace_poster)
qed

section \<open>Properties of overrides\<close>

lemma DefaultConcurrency_scan: "DefaultConcurrency ''scan'' \<noteq> None"
  by code_simp

lemma ApplyRuntimeOverride_Inr:
  assumes "ApplyRuntimeOverride detail now req0 s db = Inr ((n, p), s', db')" "store_ok db"
  defines "req \<equiv> normalizeRuntimeOverrideRequest req0"
    and "base \<equiv> (if TypeConcurrency (sv_basePolicy s) = [] then sv_policy s else sv_basePolicy s)"
  shows "p = override_policy base (sv_policy s) req" "Validate p = None" "s' = SetPolicy p s"
    "\<exists>r. GetActivePolicyRevision db' = Inr r \<and> pr_ID r = n \<and>
       pr_PolicyJSON r = PolicyText (EncodePolicyJSON p)"
proof -
  from assms(1) obtain r a where
    apply_eq: "ApplyPolicyRevision now a db = Inr (r, db')"
    and a: "ap_PolicyJSON a = PolicyText (EncodePolicyJSON p)" and n: "n = pr_ID r"
    and p: "p = override_policy base (sv_policy s) req" "Validate p = None" "s' = SetPolicy p s"
    by (auto simp: ApplyRuntimeOverride_def Let_def req_def base_def
        split: if_splits option.splits sum.splits store_error.splits)
  show "p = override_policy base (sv_policy s) req" "Validate p = None" "s' = SetPolicy p s"
    by (rule p)+
  note ok = ApplyPolicyRevision_ok [OF apply_eq assms(2)]
  have "active_id db' = Some (pr_ID r)" by (rule ok(4))
  then obtain q where q: "find pr_IsActive (db_revisions db') = Some q" "pr_ID q = pr_ID r"
    by (auto simp: active_id_def)
  have "q = r"
    using find_set [OF q(1)] q(2) ok(1,5)
    by (auto simp: store_ok_def revision_rows_ok_def distinct_map dest: inj_onD)
  moreover have "pr_PolicyJSON r = ap_PolicyJSON a"
    by (rule ApplyPolicyRevision_payload [OF apply_eq assms(2)])
  ultimately show "\<exists>r. GetActivePolicyRevision db' = Inr r \<and> pr_ID r = n \<and>
       pr_PolicyJSON r = PolicyText (EncodePolicyJSON p)"
    using q a n by (auto simp: GetActivePolicyRevision_def)
qed


definition example_service :: Service where
  "example_service = \<lparr>sv_claimer = None, sv_policy = example_base, sv_basePolicy = example_base\<rparr>"

lemma example_override:
  "\<exists>n p s' db'. ApplyRuntimeOverride ''{}'' 0 example_request example_service empty_db =
     Inr ((n, p), s', db')"
proof -
  let ?req = "normalizeRuntimeOverrideRequest example_request"
  have trim: "TrimSpace (r_Author example_request) \<noteq> []" "TrimSpace (r_Reason example_request) \<noteq> []"
    "sql_nonempty (TrimSpace (r_Author example_request))"
    "sql_nonempty (TrimSpace (r_Reason example_request))"
    unfolding example_request_def by code_simp+
  have req: "r_ExpectedRevision ?req = -1" "sql_nonempty (r_Author ?req)" "sql_nonempty (r_Reason ?req)"
    using trim by (simp_all add: normalizeRuntimeOverrideRequest_def Let_def example_request_def)
  have err: "override_errors ?req = []"
    using Registry_in_iff_Default [of "''scan''"]
    by (simp add: override_errors_def normalizeRuntimeOverrideRequest_def Let_def example_request_def
        List.map_filter_simps DefaultConcurrency_scan)
  have valid: "Validate (override_policy example_base example_base ?req) = None"
    by (rule override_policy_valid [OF example_base_ok(2,1)])
      (simp_all add: normalizeRuntimeOverrideRequest_def Let_def example_request_def)
  have base: "TypeConcurrency example_base \<noteq> []"
    using DefaultConcurrency_scan by (auto simp: example_base_def dest!: arg_cong [of _ "[]" "\<lambda>m. gget m ''scan''"])
  show ?thesis
    using req err valid base
    by (simp add: ApplyRuntimeOverride_def example_service_def Let_def GetActivePolicyRevision_def
        ApplyPolicyRevision_def active_id_def empty_db_def insert_revision_def insert_audit_def
        switch_active_def sql_update_def GetPolicyRevision_def sql_nonempty_def)
qed


section \<open>Properties of the fallback\<close>

text \<open>The fence: the original execution has a row, and none of its rows is active.\<close>

definition fenced :: "string \<Rightarrow> SchedDB \<Rightarrow> bool" where
  "fenced x db \<longleftrightarrow> (\<exists>r \<in> set (db_reservations db). rv_ExecutionID r = x) \<and>
     (\<forall>r \<in> set (db_reservations db). rv_ExecutionID r = x \<longrightarrow> rv_Status r = Released)"

lemma tryAdmitFallback_Inr:
  assumes "tryAdmitFallback uuid now req p db = Inr (r, db')"
  shows "\<exists>n revid. insert_reservation now (GenerateExecutionID (TrimSpace (fb_Owner req)) uuid)
      (fb_TaskType req) 1 revid (now + 90 * second) db = Inr (n, db')"
    "CheckTypeConcurrency db (fb_TaskType req) p now = None"
    "checkResourceRequestBudget db (fb_TaskType req) (fb_Resources req) p now = None"
    "GetReservation db' (GenerateExecutionID (TrimSpace (fb_Owner req)) uuid) = Inr r"
  using assms
  by (auto simp: tryAdmitFallback_def Let_def InsertAdmissionReservation_def
      split: if_splits option.splits sum.splits) blast+

lemma insert_fenced:
  assumes "insert_reservation now x t u n l db = Inr (k, db')" "fenced y db"
  shows "fenced y db'"
  using insert_reservation_row [OF assms(1)] assms(2) by (fastforce simp: fenced_def)

lemma fallback_loop_fenced:
  assumes "fenced x db" "\<forall>(now, uuid, others) \<in> set polls. \<forall>db. fenced x db \<longrightarrow> fenced x (others db)"
  shows "fenced x (snd (fallback_loop req p polls db))"
  using assms
proof (induction req p polls db rule: fallback_loop.induct)
  case (2 req p now uuid others polls db)
  then have f: "fenced x (others db)" by simp
  show ?case
  proof (cases "tryAdmitFallback uuid now req p (others db)")
    case (Inl e)
    then show ?thesis using 2(1) [OF Inl] 2(3) f by simp
  next
    case (Inr a)
    obtain r db' where a: "a = (r, db')" by (cases a)
    then show ?thesis
      using tryAdmitFallback_Inr(1) [of uuid now req p "others db" r db'] Inr insert_fenced f by fastforce
  qed
qed simp

text \<open>C24: a fallback never holds two reservations.  Once the request is accepted and the original
  reservation was active, then whatever the polls find, also when the wait is cancelled or
  fails, the original execution is released, and stays so as long as no other connection
  reactivates it.\<close>
theorem AcquireFallback_fences:
  assumes "fallback_error req = None"
    and "\<exists>r \<in> set (db_reservations db). holds (TrimSpace (fb_ExecutionID req)) r"
    and others: "\<forall>(now, uuid, f) \<in> set polls. \<forall>db. fenced (TrimSpace (fb_ExecutionID req)) db \<longrightarrow>
      fenced (TrimSpace (fb_ExecutionID req)) (f db)"
  shows "fenced (TrimSpace (fb_ExecutionID req)) (snd (AcquireFallback now req polls s db))"
proof -
  let ?x = "TrimSpace (fb_ExecutionID req)" and ?o = "TrimSpace (fb_Owner req)"
  let ?db1 = "db\<lparr>db_reservations := sql_update (holds ?x)
    (released_row now ''gpu_fallback_fence'' ?o) (db_reservations db)\<rparr>"
  have "?o \<noteq> []" using assms(1) by (auto simp: fallback_error_def split: if_splits)
  then have rel: "ReleaseReservation now ?x ''gpu_fallback_fence'' ?o db = Inr ?db1"
    using assms(2) sql_affected_0 [of "holds ?x" "db_reservations db"]
    by (auto simp: ReleaseReservation_def ReleaseReservationTx_def Let_def)
  have "fenced ?x ?db1"
    unfolding fenced_def
  proof
    from assms(2) obtain r where "r \<in> set (db_reservations db)" "holds ?x r" by blast
    then show "\<exists>r \<in> set (db_reservations ?db1). rv_ExecutionID r = ?x"
      by (intro bexI [of _ "released_row now ''gpu_fallback_fence'' ?o r"])
        (simp_all add: set_sql_update, simp add: released_row_def)
    show "\<forall>r \<in> set (db_reservations ?db1). rv_ExecutionID r = ?x \<longrightarrow> rv_Status r = Released"
      using holds_after_release [of _ ?x now "''gpu_fallback_fence''" ?o "db_reservations db"]
        reservation_status.exhaust by auto
  qed
  from fallback_loop_fenced [OF this others] show ?thesis
    by (simp add: AcquireFallback_def assms(1) rel)
qed

theorem AcquireFallback_fences_witness:
  "fenced ''w/1'' (snd (AcquireFallback 3
     \<lparr>fb_ExecutionID = ''w/1'', fb_TaskType = ''poster'', fb_Owner = ''w'', fb_Resources = [(CPU, 1)]\<rparr>
     [] example_service (empty_db\<lparr>db_reservations := [example_held ''w/1'' ''poster'' None]\<rparr>)))"
proof -
  let ?req = "\<lparr>fb_ExecutionID = ''w/1'', fb_TaskType = ''poster'', fb_Owner = ''w'', fb_Resources = [(CPU, 1)]\<rparr>"
  have "fallback_error ?req = None"
    by (simp add: fallback_error_def TrimSpace_w1 TrimSpace_poster AllResourceKinds_def)
  from AcquireFallback_fences [OF this, of "empty_db\<lparr>db_reservations := [example_held ''w/1'' ''poster'' None]\<rparr>"
      "[]" 3 example_service]
  show ?thesis by (simp add: TrimSpace_w1) (simp add: example_held_def)
qed

text \<open>C36: a fallback admitted with the resources of its task type keeps the limits.  When the
  request covers what the registry charges for the type, a successful attempt leaves every type
  and resource within its limit.\<close>
theorem fallback_within_limits:
  assumes "store_ok db" "within_limits p db now"
    and "tryAdmitFallback uuid now req p db = Inr (r, db')"
    and "gmap_ok (fb_Resources req)"
    and "\<forall>rk. demand (fb_TaskType req) rk \<le> gget0 (fb_Resources req) rk"
  shows "within_limits p db' now"
proof -
  note f = tryAdmitFallback_Inr [OF assms(3)]
  obtain n revid where ins: "insert_reservation now (GenerateExecutionID (TrimSpace (fb_Owner req)) uuid)
      (fb_TaskType req) 1 revid (now + 90 * second) db = Inr (n, db')"
    using f(1) by blast
  have budget: "over_budget (fb_Resources req) (ResourceCapacity p) (ActiveResourceUsage db now) = None"
    using f(3) by (simp add: checkResourceRequestBudget_def)
  have res: "gget0 (ActiveResourceUsage db now) rk + demand (fb_TaskType req) rk \<le> cap"
    if "gget (ResourceCapacity p) rk = Some cap" "0 < cap" for rk cap
  proof (cases "gget (fb_Resources req) rk")
    case None
    then have "demand (fb_TaskType req) rk = 0"
      using spec [OF assms(5), of rk] demand_nonneg [of "fb_TaskType req" rk] by (simp add: gget0_def)
    with within_limits_resource [OF assms(2) that] show ?thesis by simp
  next
    case (Some k)
    with over_budget_None [OF budget that assms(4) Some] assms(5) show ?thesis
      by (simp add: gget0_def) (metis add_left_mono option.simps(5) order.trans)
  qed
  show ?thesis
    by (rule insert_within_limits [OF ins assms(1,2)])
      (use f(2) res in \<open>simp_all add: CheckTypeConcurrency_None\<close>)
qed

lemma Registry_poster:
  "gget Registry ''poster'' = Some (descriptor_of (cdef ''poster'' ''post_ingest'' 3 rs_cpu_dr_dw_ext))"
proof -
  have "find (\<lambda>cd. cd_TaskType cd = ''poster'') compiledDefaults =
      Some (cdef ''poster'' ''post_ingest'' 3 rs_cpu_dr_dw_ext)"
    by code_simp
  then show ?thesis by (simp add: gget_Registry_find)
qed

lemma demand_poster: "demand ''poster'' CPU = 1"
  by (simp add: demand_def Registry_poster descriptor_of_def cdef_def gget0_Cons)

text \<open>A fallback that asks for less than its task type is charged can exceed a capacity.  The
  attempt is checked against the resources of the request, but the admitted reservation is
  counted with the registry profile of its type: with one unit of CPU capacity, already used, a
  request for disk reads only is admitted, and then two units are in use.\<close>
theorem fallback_exceeds_capacity:
  "\<exists>p req db r db'. store_ok db \<and> within_limits p db 10 \<and>
     tryAdmitFallback ''3'' 10 req p db = Inr (r, db') \<and>
     gget (ResourceCapacity p) CPU = Some 1 \<and> gget0 (ActiveResourceUsage db' 10) CPU = 2"
proof -
  let ?p = "PolicyDefaults\<lparr>ResourceCapacity := [(CPU, 1)]\<rparr>"
  let ?req = "\<lparr>fb_ExecutionID = ''w/1'', fb_TaskType = ''poster'', fb_Owner = ''w'',
    fb_Resources = [(DiskRead, 1)]\<rparr>"
  have cnt: "ActiveReservationCount example_lapsed t 10 = (if t = ''poster'' then 1 else 0)" for t
    by (simp add: ActiveReservationCount_def example_lapsed_def example_held_def live_at_def)
  have use: "gget0 (ActiveResourceUsage example_lapsed 10) rk = demand ''poster'' rk" for rk
    by (simp add: gget0_ActiveResourceUsage usage_of_def example_lapsed_def example_held_def live_at_def)
  have "within_limits ?p example_lapsed 10"
    using use [of CPU]
    by (simp add: within_limits_def cnt gget_Cons demand_poster)
      (simp add: gget0_def DefaultConcurrency_poster)
  moreover have "CheckTypeConcurrency example_lapsed ''poster'' ?p 10 = None"
    by (simp add: CheckTypeConcurrency_None cnt gget0_def DefaultConcurrency_poster)
  moreover have "checkResourceRequestBudget example_lapsed ''poster'' [(DiskRead, 1)] ?p 10 = None"
    by (simp add: checkResourceRequestBudget_def over_budget_def gget_Cons)
  moreover obtain db' where ins: "insert_reservation 10 ''w/3'' ''poster'' 1 1 (10 + 90 * second) example_lapsed =
      Inr (3, db')"
    by (simp add: insert_reservation_def example_lapsed_def example_held_def sql_nonempty_def)
  moreover have "active_id example_lapsed = Some 1"
    by (simp add: active_id_def example_lapsed_def)
  moreover obtain row where rows: "db_reservations db' = db_reservations example_lapsed @ [row]"
    "rv_ExecutionID row = ''w/3''" "rv_TaskType row = ''poster''" "rv_ReservedUnits row = 1"
    "rv_Status row = Active" "rv_LeaseUntil row = Some (10 + 90 * second)"
    using insert_reservation_row(1) [OF ins] by auto
  moreover have "GetReservation db' ''w/3'' = Inr row"
    by (simp add: GetReservation_def rows) (simp add: example_lapsed_def example_held_def rows(2))
  ultimately have "tryAdmitFallback ''3'' 10 ?req ?p example_lapsed = Inr (row, db')"
    by (simp add: tryAdmitFallback_def InsertAdmissionReservation_def GenerateExecutionID_def
        TrimSpace_poster)
  moreover have "gget0 (ActiveResourceUsage db' 10) CPU = 2"
    using use [of CPU] rows
    by (simp add: gget0_ActiveResourceUsage demand_poster usage_of_def live_at_def second_def)
  ultimately show ?thesis
    using \<open>within_limits ?p example_lapsed 10\<close> example_lapsed_ok
    by (intro exI [of _ ?p] exI [of _ ?req] exI [of _ example_lapsed] exI [of _ row] exI [of _ db'])
      (simp add: gget_Cons)
qed

theorem fallback_within_limits_witness:
  "within_limits PolicyDefaults example_lapsed 10 \<and>
   (\<exists>r db'. tryAdmitFallback ''3'' 10 \<lparr>fb_ExecutionID = ''w/1'', fb_TaskType = ''poster'',
       fb_Owner = ''w'', fb_Resources = rs_cpu_dr_dw_ext\<rparr> PolicyDefaults example_lapsed = Inr (r, db') \<and>
     within_limits PolicyDefaults db' 10)"
proof -
  let ?req = "\<lparr>fb_ExecutionID = ''w/1'', fb_TaskType = ''poster'', fb_Owner = ''w'',
    fb_Resources = rs_cpu_dr_dw_ext\<rparr>"
  have cnt: "ActiveReservationCount example_lapsed t 10 = (if t = ''poster'' then 1 else 0)" for t
    by (simp add: ActiveReservationCount_def example_lapsed_def example_held_def live_at_def)
  have lim: "within_limits PolicyDefaults example_lapsed 10"
    by (simp add: within_limits_def cnt gget0_def DefaultConcurrency_poster)
  obtain db' where ins: "insert_reservation 10 ''w/3'' ''poster'' 1 1 (10 + 90 * second) example_lapsed =
      Inr (3, db')"
    by (simp add: insert_reservation_def example_lapsed_def example_held_def sql_nonempty_def)
  obtain row where "db_reservations db' = db_reservations example_lapsed @ [row]"
    "rv_ExecutionID row = ''w/3''"
    using insert_reservation_row(1) [OF ins] by auto
  then have "GetReservation db' ''w/3'' = Inr row"
    by (simp add: GetReservation_def) (simp add: example_lapsed_def example_held_def)
  moreover have "active_id example_lapsed = Some 1"
    by (simp add: active_id_def example_lapsed_def)
  ultimately have t: "tryAdmitFallback ''3'' 10 ?req PolicyDefaults example_lapsed = Inr (row, db')"
    using ins
    by (simp add: tryAdmitFallback_def InsertAdmissionReservation_def GenerateExecutionID_def
        TrimSpace_poster CheckTypeConcurrency_None cnt gget0_def DefaultConcurrency_poster
        checkResourceRequestBudget_def over_budget_def)
  have "within_limits PolicyDefaults db' 10"
    by (rule fallback_within_limits [OF example_lapsed_ok lim t])
      (simp_all add: gmap_ok_def demand_def Registry_poster descriptor_of_def cdef_def)
  with t lim show ?thesis by blast
qed

section \<open>The usage snapshot\<close>

abbreviation active_of :: "string list \<Rightarrow> SchedDB \<Rightarrow> int" where
  "active_of types db \<equiv> int (length (filter (\<lambda>r. rv_Status r = Active \<and> rv_TaskType r \<in> set types)
     (db_reservations db)))"

lemma rollup_types:
  "set poster_types \<subseteq> set postIngestTypeNames" "set preview_types \<subseteq> set postIngestTypeNames"
  "set subtitle_types \<subseteq> set postIngestTypeNames"
  "set poster_types \<inter> set preview_types = {}" "set poster_types \<inter> set subtitle_types = {}"
  "set preview_types \<inter> set subtitle_types = {}"
  by (simp_all add: poster_types_def preview_types_def subtitle_types_def postIngestTypeNames_def)

lemma fold_snapshot_use:
  "bs_GlobalUsed (fold snapshot_use rows b) = bs_GlobalUsed b +
     int (length (filter (\<lambda>r. rv_TaskType r \<in> set postIngestTypeNames) rows))"
  "bs_PosterUsed (fold snapshot_use rows b) = bs_PosterUsed b +
     int (length (filter (\<lambda>r. rv_TaskType r \<in> set poster_types) rows))"
  "bs_PreviewUsed (fold snapshot_use rows b) = bs_PreviewUsed b +
     int (length (filter (\<lambda>r. rv_TaskType r \<in> set preview_types) rows))"
  "bs_SubtitleUsed (fold snapshot_use rows b) = bs_SubtitleUsed b +
     int (length (filter (\<lambda>r. rv_TaskType r \<in> set subtitle_types) rows))"
proof (induction rows arbitrary: b)
  case (Cons r rows)
  have step: "bs_GlobalUsed (snapshot_use r b) = bs_GlobalUsed b + (if rv_TaskType r \<in> set postIngestTypeNames then 1 else 0)"
    "bs_PosterUsed (snapshot_use r b) = bs_PosterUsed b + (if rv_TaskType r \<in> set poster_types then 1 else 0)"
    "bs_PreviewUsed (snapshot_use r b) = bs_PreviewUsed b + (if rv_TaskType r \<in> set preview_types then 1 else 0)"
    "bs_SubtitleUsed (snapshot_use r b) = bs_SubtitleUsed b + (if rv_TaskType r \<in> set subtitle_types then 1 else 0)" for b
    using rollup_types by (auto simp: snapshot_use_def Let_def split: option.splits)
  { case 1 show ?case using Cons.IH(1) [of "snapshot_use r b"] step(1) by (simp split: if_splits) }
  { case 2 show ?case using Cons.IH(2) [of "snapshot_use r b"] step(2) by (simp split: if_splits) }
  { case 3 show ?case using Cons.IH(3) [of "snapshot_use r b"] step(3) by (simp split: if_splits) }
  { case 4 show ?case using Cons.IH(4) [of "snapshot_use r b"] step(4) by (simp split: if_splits) }
qed simp_all

lemma fold_snapshot_limit:
  "bs_GlobalUsed (fold (snapshot_limit p) ts b) = bs_GlobalUsed b"
  "bs_PosterUsed (fold (snapshot_limit p) ts b) = bs_PosterUsed b"
  "bs_PreviewUsed (fold (snapshot_limit p) ts b) = bs_PreviewUsed b"
  "bs_SubtitleUsed (fold (snapshot_limit p) ts b) = bs_SubtitleUsed b"
  "bs_GlobalLimit (fold (snapshot_limit p) ts b) = bs_GlobalLimit b + (\<Sum>t\<leftarrow>ts. gget0 (TypeConcurrency p) t)"
  by (induction ts arbitrary: b) (auto simp: snapshot_limit_def Let_def)

lemma length_filter_sort: "length (filter P (sort_key f xs)) = length (filter P xs)"
  by (metis filter_sort length_sort)

lemma rollup_le:
  fixes rows :: "Reservation list"
  defines "n \<equiv> \<lambda>ts. length (filter (\<lambda>r. rv_Status r = Active \<and> rv_TaskType r \<in> set ts) rows)"
  shows "n poster_types + n preview_types + n subtitle_types \<le> n postIngestTypeNames"
  unfolding n_def using rollup_types by (induction rows) (auto simp: subset_iff disjoint_iff)

text \<open>The overview counts the active reservations.  The snapshot's usage numbers are the
  numbers of active rows (lapsed leases included) of all post-ingest types and of the poster,
  preview and subtitle groups; the groups never add up to more than the total, and the total
  limit is the sum of the limits of the post-ingest types.\<close>
theorem Snapshot_counts:
  "bs_GlobalUsed (Snapshot db s) = active_of postIngestTypeNames db \<and>
   bs_PosterUsed (Snapshot db s) = active_of poster_types db \<and>
   bs_PreviewUsed (Snapshot db s) = active_of preview_types db \<and>
   bs_SubtitleUsed (Snapshot db s) = active_of subtitle_types db \<and>
   bs_PosterUsed (Snapshot db s) + bs_PreviewUsed (Snapshot db s) + bs_SubtitleUsed (Snapshot db s)
     \<le> bs_GlobalUsed (Snapshot db s) \<and>
   bs_GlobalLimit (Snapshot db s) = (\<Sum>t\<leftarrow>postIngestTypeNames. gget0 (TypeConcurrency (CurrentPolicy s)) t)"
proof -
  let ?n = "\<lambda>ts. length (filter (\<lambda>r. rv_Status r = Active \<and> rv_TaskType r \<in> set ts) (db_reservations db))"
  have cnt: "length (filter (\<lambda>r. rv_TaskType r \<in> set ts) (ListActiveReservations db)) = ?n ts" for ts
    by (simp add: ListActiveReservations_def length_filter_sort conj_commute)
  have "?n poster_types + ?n preview_types + ?n subtitle_types \<le> ?n postIngestTypeNames"
    by (rule rollup_le)
  moreover have "bs_GlobalLimit (fold snapshot_use rows b) = bs_GlobalLimit b" for rows b
    by (induction rows arbitrary: b) (auto simp: snapshot_use_def Let_def split: option.splits)
  ultimately show ?thesis
    by (simp add: Snapshot_def Let_def fold_snapshot_limit fold_snapshot_use cnt CurrentPolicy_def
        flip: of_nat_add)
qed

end
