(* ===== verification/Sched_Explain.thy ===== *)
theory Sched_Explain
  imports Sched_Order Sched_Service
begin

text \<open>
  \<open>internal/scheduler/explain.go\<close>: the read-only explanation of why a waiting row is not
  admitted.  A blocker is its code with the values its message is formatted with; the
  \<open>details\<close> map of the JSON answer repeats those values and is not modelled.
\<close>

section \<open>Data\<close>

datatype BlockerCode =
    BlockerTerminalRemoved
  | BlockerGeneration
  | BlockerDependencyNotMet
  | BlockerDependencyUnsatisfied
  | BlockerBackoff
  | BlockerCapabilitySource
  | BlockerCiphertextBarrier
  | BlockerControl
  | BlockerTypeExhausted
  | BlockerResourceExhausted
  | BlockerProviderExhausted
  | BlockerFairnessOrder
  | NoBlocker

definition blockerPrecedence :: "BlockerCode list" where
  "blockerPrecedence =
     [BlockerTerminalRemoved, BlockerGeneration, BlockerDependencyNotMet,
      BlockerDependencyUnsatisfied, BlockerBackoff, BlockerCapabilitySource,
      BlockerCiphertextBarrier, BlockerControl, BlockerTypeExhausted, BlockerResourceExhausted,
      BlockerProviderExhausted, BlockerFairnessOrder]"

record QueueRow =
  q_ID :: int64
  q_TaskType :: string
  q_Priority :: int64
  q_BasePriority :: int64
  q_AvailableAt :: time
  q_CreatedAt :: time
  q_RunNowExpires :: "time option"
  q_LibraryID :: "int option"
  q_Removed :: bool
  q_Superseded :: bool
  q_DependencyMet :: bool
  q_DependencyPermanentlyUnsatisfied :: bool
  q_BackoffUntil :: "time option"
  q_CapableWorker :: bool
  q_SourceReady :: bool
  q_CiphertextReady :: bool
  q_Runnable :: bool

datatype explain_reason =
    RowRemoved
  | RowSuperseded
  | DependencyUnsatisfiable
  | DependencyPending
  | InBackoffUntil time
  | NoCapableWorker
  | SourceNotReady
  | NoCiphertextKey
  | TypeIsPaused
  | TypeIsDraining
  | TypeLimitReached int int
  | TypeLimitUnknown
  | ResourceExceeded ResourceKind int int int
  | ProviderExceeded string int int
  | NotTurnOfNullLibrary int
  | NullLibraryServedLast
  | NotTurnOfLibrary int int
  | NotRunnable
  | RunnableNoBlockers

record BlockerDetail =
  bd_Code :: BlockerCode
  bd_Reason :: explain_reason

record Explanation =
  ex_TaskType :: string
  ex_Runnable :: bool
  ex_PrimaryBlocker :: BlockerDetail
  ex_AllBlockers :: "BlockerDetail list"
  ex_SnapshotAt :: time
  ex_RequiredResources :: "(string, int) gmap"
  ex_ResourceUsage :: "(string, int) gmap"
  ex_ResourceLimits :: "(string, int) gmap"
  ex_TypeUsage :: int
  ex_TypeLimit :: int
  ex_SourcePriority :: int64
  ex_BasePriority :: int64
  ex_EffectivePriority :: int64
  ex_AgeSecs :: int64
  ex_AgingStep :: int
  ex_RunNowExpires :: "time option"
  ex_LibraryTurn :: "int option"
  ex_EstimatedRank :: int64

abbreviation detail :: "BlockerCode \<Rightarrow> explain_reason \<Rightarrow> BlockerDetail" where
  "detail c why \<equiv> \<lparr>bd_Code = c, bd_Reason = why\<rparr>"

section \<open>One definition per check\<close>

definition explain_row_state :: "QueueRow \<Rightarrow> time \<Rightarrow> BlockerDetail list" where
  "explain_row_state row now =
     (if q_Removed row then [detail BlockerTerminalRemoved RowRemoved] else []) @
     (if q_Superseded row then [detail BlockerGeneration RowSuperseded] else []) @
     (if q_DependencyPermanentlyUnsatisfied row
      then [detail BlockerDependencyUnsatisfied DependencyUnsatisfiable]
      else if \<not> q_DependencyMet row then [detail BlockerDependencyNotMet DependencyPending]
      else []) @
     (case q_BackoffUntil row of
        None \<Rightarrow> []
      | Some t \<Rightarrow> if t > now then [detail BlockerBackoff (InBackoffUntil t)] else [])"

definition explain_barriers :: "QueueRow \<Rightarrow> BlockerDetail list" where
  "explain_barriers row =
     (if \<not> q_CapableWorker row then [detail BlockerCapabilitySource NoCapableWorker]
      else if \<not> q_SourceReady row then [detail BlockerCapabilitySource SourceNotReady]
      else []) @
     (if \<not> q_CiphertextReady row then [detail BlockerCiphertextBarrier NoCiphertextKey] else [])"

definition explain_control :: "string \<Rightarrow> BlockerDetail list" where
  "explain_control controlState =
     (if controlState = ''paused'' then [detail BlockerControl TypeIsPaused]
      else if controlState = ''draining'' then [detail BlockerControl TypeIsDraining]
      else [])"

definition explain_type :: "string \<Rightarrow> Policy \<Rightarrow> int \<Rightarrow> BlockerDetail list" where
  "explain_type t policy typeCount =
     (case gget (TypeConcurrency policy) t of
        Some limit \<Rightarrow>
          if limit > 0 \<and> typeCount \<ge> limit
          then [detail BlockerTypeExhausted (TypeLimitReached typeCount limit)] else []
      | None \<Rightarrow> [detail BlockerTypeExhausted TypeLimitUnknown])"

definition explain_resources ::
  "string \<Rightarrow> Policy \<Rightarrow> (ResourceKind, int) gmap \<Rightarrow> BlockerDetail list" where
  "explain_resources t policy resourceUsage =
     (case gget Registry t of
        None \<Rightarrow> []
      | Some desc \<Rightarrow>
          (case first_error (\<lambda>(rk, n). case gget (ResourceCapacity policy) rk of
                None \<Rightarrow> None
              | Some cap \<Rightarrow>
                  if cap \<le> 0 then None
                  else if gget0 resourceUsage rk + n > cap
                  then Some (ResourceExceeded rk (gget0 resourceUsage rk) n cap) else None)
              (d_Resources desc) of
             None \<Rightarrow> []
           | Some why \<Rightarrow> [detail BlockerResourceExhausted why]))"

definition explain_provider ::
  "string \<Rightarrow> Policy \<Rightarrow> (string, int) gmap \<Rightarrow> BlockerDetail list" where
  "explain_provider t policy providerUsage =
     (case gget Registry t of
        None \<Rightarrow> []
      | Some desc \<Rightarrow>
          if d_Provider desc = [] then []
          else (case gget (ProviderCapacity policy) (d_Provider desc) of
              None \<Rightarrow> []
            | Some limit \<Rightarrow>
                let used = gget0 providerUsage (d_Provider desc)
                in if limit > 0 \<and> used + 1 > limit
                   then [detail BlockerProviderExhausted (ProviderExceeded (d_Provider desc) used limit)]
                   else []))"

definition explain_fairness :: "int option \<Rightarrow> int \<Rightarrow> BlockerDetail list" where
  "explain_fairness library fairnessPosition =
     (case library of
        None \<Rightarrow>
          if fairnessPosition = NullLibrarySentinel
          then [detail BlockerFairnessOrder NullLibraryServedLast]
          else if fairnessPosition > 0
          then [detail BlockerFairnessOrder (NotTurnOfNullLibrary fairnessPosition)] else []
      | Some lib \<Rightarrow>
          if fairnessPosition \<noteq> lib \<and> fairnessPosition \<noteq> 0
          then [detail BlockerFairnessOrder (NotTurnOfLibrary lib fairnessPosition)] else [])"

text \<open>The blocker map of the code has at most one entry per code; it is read in precedence order.\<close>

definition by_precedence :: "BlockerDetail list \<Rightarrow> BlockerDetail list" where
  "by_precedence bs =
     List.map_filter (\<lambda>c. find (\<lambda>b. bd_Code b = c) bs) blockerPrecedence"

definition explain_blockers ::
  "QueueRow \<Rightarrow> Policy \<Rightarrow> string \<Rightarrow> int \<Rightarrow> (ResourceKind, int) gmap \<Rightarrow> (string, int) gmap \<Rightarrow> int \<Rightarrow>
   time \<Rightarrow> BlockerDetail list" where
  "explain_blockers row policy controlState typeCount resourceUsage providerUsage fairnessPosition now =
     by_precedence
       (explain_row_state row now @ explain_barriers row @ explain_control controlState @
        explain_type (q_TaskType row) policy typeCount @
        explain_resources (q_TaskType row) policy resourceUsage @
        explain_provider (q_TaskType row) policy providerUsage @
        explain_fairness (q_LibraryID row) fairnessPosition)"

section \<open>The explanation\<close>

definition maxInt64 :: "int64 \<Rightarrow> int64 \<Rightarrow> int64" where
  "maxInt64 a b = (if b <s a then a else b)"

definition LibraryKey :: "int option \<Rightarrow> int option" where
  "LibraryKey library = library"

definition ExplainTask ::
  "QueueRow \<Rightarrow> Policy \<Rightarrow> string \<Rightarrow> int \<Rightarrow> (ResourceKind, int) gmap \<Rightarrow> (string, int) gmap \<Rightarrow> int \<Rightarrow>
   time \<Rightarrow> Explanation" where
  "ExplainTask row policy controlState typeCount resourceUsage providerUsage fairnessPosition now =
     (let blockers = explain_blockers row policy controlState typeCount resourceUsage providerUsage
            fairnessPosition now;
          effective = EffectivePriority policy (q_BasePriority row) (q_Priority row)
            (q_AvailableAt row) (q_RunNowExpires row) now;
          (runnable, primary, shown) =
            (case blockers of
               b # _ \<Rightarrow> (False, b, blockers)
             | [] \<Rightarrow>
                 if \<not> q_Runnable row
                 then (False, detail BlockerDependencyNotMet NotRunnable,
                       [detail BlockerDependencyNotMet NotRunnable])
                 else (True, detail NoBlocker RunnableNoBlockers, []))
      in \<lparr>ex_TaskType = q_TaskType row, ex_Runnable = runnable, ex_PrimaryBlocker = primary,
          ex_AllBlockers = shown, ex_SnapshotAt = now,
          ex_RequiredResources = (case gget Registry (q_TaskType row) of
             None \<Rightarrow> [] | Some desc \<Rightarrow> d_Resources desc),
          ex_ResourceUsage = resourceUsage,
          ex_ResourceLimits = filter (\<lambda>(rk, cap). cap > 0) (ResourceCapacity policy),
          ex_TypeUsage = typeCount, ex_TypeLimit = gget0 (TypeConcurrency policy) (q_TaskType row),
          ex_SourcePriority = q_BasePriority row + q_Priority row,
          ex_BasePriority = q_BasePriority row, ex_EffectivePriority = effective,
          ex_AgeSecs = nonNegativeWaitAge now (q_AvailableAt row) now,
          ex_AgingStep = AgingStep policy, ex_RunNowExpires = q_RunNowExpires row,
          ex_LibraryTurn = LibraryKey (q_LibraryID row),
          ex_EstimatedRank = maxInt64 0 (100000 - effective)\<rparr>)"

text \<open>\<open>Service.ExplainTask\<close>: the explanation from the current tables.\<close>

definition Service_ExplainTask :: "QueueRow \<Rightarrow> time \<Rightarrow> Service \<Rightarrow> SchedDB \<Rightarrow> Explanation" where
  "Service_ExplainTask row now s db =
     (let controlState = (case GetControlState db (q_TaskType row) of
            Inr c \<Rightarrow> cs_State c | Inl _ \<Rightarrow> ''running'')
      in ExplainTask row (sv_policy s) controlState
           (int (ActiveReservationCount db (q_TaskType row) now))
           (ActiveResourceUsage db now) (ActiveProviderUsage db now) 0 now)"

section \<open>Lemmas\<close>

lemma by_precedence_Nil:
  assumes "\<forall>b \<in> set bs. bd_Code b \<noteq> NoBlocker"
  shows "by_precedence bs = [] \<longleftrightarrow> bs = []"
proof
  assume e: "by_precedence bs = []"
  show "bs = []"
  proof (rule ccontr)
    assume "bs \<noteq> []"
    then obtain b where b: "b \<in> set bs" by (cases bs) auto
    then have "bd_Code b \<in> set blockerPrecedence"
      using assms by (cases "bd_Code b") (auto simp: blockerPrecedence_def)
    moreover have "find (\<lambda>x. bd_Code x = bd_Code b) bs \<noteq> None"
      using b by (auto simp: find_None_iff)
    ultimately show False using e
      by (auto simp: by_precedence_def List.map_filter_def filter_empty_conv)
  qed
qed (simp add: by_precedence_def List.map_filter_def)

lemma no_NoBlocker:
  "\<forall>b \<in> set (explain_row_state row now @ explain_barriers row @ explain_control c @
     explain_type t p n @ explain_resources t p ru @ explain_provider t p pu @
     explain_fairness l f). bd_Code b \<noteq> NoBlocker"
proof -
  have "\<forall>b \<in> set (explain_row_state row now). bd_Code b \<noteq> NoBlocker"
    by (auto simp: explain_row_state_def split: option.splits if_splits)
  moreover have "\<forall>b \<in> set (explain_barriers row). bd_Code b \<noteq> NoBlocker"
    "\<forall>b \<in> set (explain_control c). bd_Code b \<noteq> NoBlocker"
    by (auto simp: explain_barriers_def explain_control_def split: if_splits)
  moreover have "\<forall>b \<in> set (explain_type t p n). bd_Code b \<noteq> NoBlocker"
    "\<forall>b \<in> set (explain_resources t p ru). bd_Code b \<noteq> NoBlocker"
    "\<forall>b \<in> set (explain_provider t p pu). bd_Code b \<noteq> NoBlocker"
    "\<forall>b \<in> set (explain_fairness l f). bd_Code b \<noteq> NoBlocker"
    by (auto simp: explain_type_def explain_resources_def explain_provider_def
        explain_fairness_def Let_def split: option.splits if_splits)
  ultimately show ?thesis unfolding set_append by blast
qed

lemma ExplainTask_Runnable:
  "ex_Runnable (ExplainTask row p c n ru pu f now) \<longleftrightarrow>
   explain_blockers row p c n ru pu f now = [] \<and> q_Runnable row"
  by (auto simp: ExplainTask_def Let_def split: list.splits)

lemma explain_blockers_Nil:
  "explain_blockers row p c n ru pu f now = [] \<longleftrightarrow>
   explain_row_state row now = [] \<and> explain_barriers row = [] \<and> explain_control c = [] \<and>
   explain_type (q_TaskType row) p n = [] \<and> explain_resources (q_TaskType row) p ru = [] \<and>
   explain_provider (q_TaskType row) p pu = [] \<and> explain_fairness (q_LibraryID row) f = []"
  unfolding explain_blockers_def by_precedence_Nil [OF no_NoBlocker] by simp

lemma explain_control_Nil:
  assumes "store_ok db"
  shows "explain_control (case GetControlState db t of Inr c \<Rightarrow> cs_State c | Inl _ \<Rightarrow> ''running'') = [] \<longleftrightarrow>
    snd (CheckControlState db t) = None"
proof (cases "find (\<lambda>c. cs_TaskType c = t) (db_controls db)")
  case (Some c)
  then have "cs_State c \<in> {''paused'', ''draining'', ''running''}"
    using assms find_set [OF Some] by (auto simp: store_ok_def control_rows_ok_def)
  with Some show ?thesis
    by (auto simp: explain_control_def GetControlState_def CheckControlState_def)
qed (simp add: explain_control_def GetControlState_def CheckControlState_def)

lemma explain_type_Nil:
  "gget0 (TypeConcurrency p) t \<noteq> 0 \<Longrightarrow> 0 \<le> gget0 (TypeConcurrency p) t \<Longrightarrow>
   explain_type t p (int (ActiveReservationCount db t now)) = [] \<longleftrightarrow> CheckTypeConcurrency db t p now = None"
  by (auto simp: explain_type_def CheckTypeConcurrency_None gget0_def split: option.splits)

lemma explain_resources_Nil:
  "explain_resources t p (ActiveResourceUsage db now) = [] \<longleftrightarrow> CheckResourceBudget db t p now = None"
proof (cases "gget Registry t")
  case (Some d)
  have "explain_resources t p u = [] \<longleftrightarrow> over_budget (d_Resources d) (ResourceCapacity p) u = None" for u
  proof -
    have c: "(case first_error f xs of None \<Rightarrow> [] | Some why \<Rightarrow> [detail BlockerResourceExhausted why]) = [] \<longleftrightarrow>
        first_error f xs = None" for f and xs :: "ResourceRequest"
      by (simp split: option.splits)
    show ?thesis
      unfolding explain_resources_def over_budget_def Some option.case c first_error_None_iff
      by (intro ball_cong) (auto split: option.splits)
  qed
  with Some show ?thesis by (simp add: CheckResourceBudget_def)
qed (simp add: explain_resources_def CheckResourceBudget_def)

lemma explain_provider_Nil:
  "explain_provider t p (ActiveProviderUsage db now) = [] \<longleftrightarrow> CheckProviderBudget db t p now = None"
  by (auto simp: explain_provider_def CheckProviderBudget_def Let_def split: option.splits if_splits)

section \<open>Properties\<close>


definition example_queue_row :: QueueRow where
  "example_queue_row = \<lparr>q_ID = 1, q_TaskType = ''poster'', q_Priority = 0, q_BasePriority = 0,
     q_AvailableAt = 1, q_CreatedAt = 1, q_RunNowExpires = None, q_LibraryID = None,
     q_Removed = False, q_Superseded = False, q_DependencyMet = True,
     q_DependencyPermanentlyUnsatisfied = False, q_BackoffUntil = None, q_CapableWorker = True,
     q_SourceReady = True, q_CiphertextReady = True, q_Runnable = True\<rparr>"

definition service_of :: "Policy \<Rightarrow> Service" where
  "service_of p = \<lparr>sv_claimer = None, sv_policy = p, sv_basePolicy = p\<rparr>"


text \<open>A type with limit zero is explained as runnable.  Admission refuses a type whose limit is
  zero, the explanation reports no blocker for it.\<close>
theorem explain_misses_zero_limit:
  "\<exists>s. gget (TypeConcurrency (CurrentPolicy s)) ''poster'' = Some 0 \<and>
     ex_Runnable (Service_ExplainTask example_queue_row 5 s empty_db) \<and>
     CheckAllBudgets empty_db ''poster'' (CurrentPolicy s) 5 \<noteq> []"
proof (intro exI conjI)
  let ?s = "service_of (PolicyDefaults\<lparr>TypeConcurrency := [(''poster'', 0)]\<rparr>)"
  show "gget (TypeConcurrency (CurrentPolicy ?s)) ''poster'' = Some 0"
    by (simp add: service_of_def CurrentPolicy_def gget_Cons)
  show "CheckAllBudgets empty_db ''poster'' (CurrentPolicy ?s) 5 \<noteq> []"
    by (simp add: CheckAllBudgets_Nil CheckTypeConcurrency_None service_of_def CurrentPolicy_def gget0_Cons)
  have "explain_resources ''poster'' (sv_policy ?s) (ActiveResourceUsage empty_db 5) = []"
    "explain_provider ''poster'' (sv_policy ?s) (ActiveProviderUsage empty_db 5) = []"
    by (simp_all add: explain_resources_Nil explain_provider_Nil CheckResourceBudget_def
        CheckProviderBudget_def over_budget_def first_error_None_iff service_of_def Registry_poster
        descriptor_of_def cdef_def)
  then show "ex_Runnable (Service_ExplainTask example_queue_row 5 ?s empty_db)"
    by (simp add: Service_ExplainTask_def ExplainTask_Runnable explain_blockers_Nil Let_def)
      (simp add: service_of_def example_queue_row_def explain_row_state_def explain_barriers_def
        explain_control_def explain_type_def explain_fairness_def NullLibrarySentinel_def
        GetControlState_def empty_db_def gget_Cons)
qed

lemma sint_rank:
  "sint (100000 - w :: int64) =
   (if sint w < 100000 - max_i64 then 100000 - sint w - 2 ^ 64 else 100000 - sint w)"
proof -
  have r: "min_i64 \<le> sint w" "sint w \<le> max_i64" using sint64_range [of w] by simp_all
  have w: "100000 - w = word_of_int (100000 - sint w)" by simp
  have "(word_of_int (100000 - sint w) :: int64) = word_of_int (100000 - sint w - 2 ^ 64)"
    by (simp add: word_of_int_eq_iff take_bit_eq_mod mod_diff_right_eq [of _ "2 ^ 64", symmetric])
  note wrap = this
  show ?thesis
  proof (cases "sint w < 100000 - max_i64")
    case True
    then have "sint (word_of_int (100000 - sint w - 2 ^ 64) :: int64) = 100000 - sint w - 2 ^ 64"
      using r by (intro sint_word_of_int64) (simp_all add: max_i64_def min_i64_def)
    then show ?thesis using True by (simp only: w wrap if_True)
  next
    case False
    then have "sint (word_of_int (100000 - sint w) :: int64) = 100000 - sint w"
      using r by (intro sint_word_of_int64) (simp_all add: max_i64_def min_i64_def)
    then show ?thesis using False by (simp only: w if_False)
  qed
qed

text \<open>The estimated rank, and where it wraps.  The rank is \<open>100000\<close> minus the effective
  priority, and zero above that; but below \<open>100000 - (2 ^ 63 - 1)\<close> the subtraction wraps around
  and the lowest priorities get rank zero, the best one.\<close>
theorem EstimatedRank_exact:
  "sint (ex_EstimatedRank (ExplainTask row p c n ru pu f now)) =
   (let e = sint (ex_EffectivePriority (ExplainTask row p c n ru pu f now))
    in if e < 100000 - max_i64 then 0 else max 0 (100000 - e))"
proof -
  have "ex_EstimatedRank (ExplainTask row p c n ru pu f now) =
      maxInt64 0 (100000 - ex_EffectivePriority (ExplainTask row p c n ru pu f now))"
    by (simp add: ExplainTask_def Let_def split: prod.splits)
  then show ?thesis
    using sint64_range [of "ex_EffectivePriority (ExplainTask row p c n ru pu f now)"]
    by (auto simp: maxInt64_def int64_order sint_rank Let_def max_def max_i64_def min_i64_def)
qed

end
