(* ===== verification/Graph_Search.thy ===== *)
theory Graph_Search
  imports Vauldy_Prelude
begin

text \<open>
  The depth-first cycle search of the graph validators. \<open>visit\<close> is the recursive closure of
  \<open>validatePlanGraphWithRegistry\<close> and of \<open>validateDependencyTx\<close>: a map of colours (absent or 0
  unvisited, 1 on the current path, 2 finished), an error at a node met again on its own path.
  The recursion depth is bounded by fuel; the result is \<open>None\<close> when the fuel runs out.

  The locale \<open>cycle_search\<close> is the interface: a family of graphs given by successor lists and
  a finite list of vertices that contains every successor. In it, fuel one above the number of
  vertices is shown to be enough, an error to be a node on a cycle, and success to mean that no
  root reaches a cycle.
\<close>

type_synonym 'a colours = "('a, int) gmap"

text \<open>\<open>for _, x := range xs { if err := f(x); err != nil { return err } }\<close> over a state.\<close>

fun visit_each ::
  "('a \<Rightarrow> 's \<Rightarrow> ('e + 's) option) \<Rightarrow> 'a list \<Rightarrow> 's \<Rightarrow> ('e + 's) option" where
  "visit_each f [] st = Some (Inr st)"
| "visit_each f (x # xs) st =
    (case f x st of
       None \<Rightarrow> None
     | Some (Inl e) \<Rightarrow> Some (Inl e)
     | Some (Inr st') \<Rightarrow> visit_each f xs st')"

primrec visit :: "('a \<Rightarrow> 'a list) \<Rightarrow> nat \<Rightarrow> 'a \<Rightarrow> 'a colours \<Rightarrow> ('a + 'a colours) option" where
  "visit adj 0 node state = None"
| "visit adj (Suc fuel) node state =
    (if gget0 state node = 1 then Some (Inl node)
     else if gget0 state node = 2 then Some (Inr state)
     else (case visit_each (visit adj fuel) (adj node) (gput node 1 state) of
             None \<Rightarrow> None
           | Some (Inl c) \<Rightarrow> Some (Inl c)
           | Some (Inr state') \<Rightarrow> Some (Inr (gput node 2 state'))))"

definition visit_all :: "('a \<Rightarrow> 'a list) \<Rightarrow> nat \<Rightarrow> 'a list \<Rightarrow> ('a + 'a colours) option" where
  "visit_all adj fuel roots = visit_each (visit adj fuel) roots []"

section \<open>Colours and edges\<close>

definition succs_rel :: "('a \<Rightarrow> 'a list) \<Rightarrow> ('a \<times> 'a) set" where
  "succs_rel adj = {(x, y). y \<in> set (adj x)}"

definition grey :: "'a colours \<Rightarrow> 'a set" where "grey st = {x. gget0 st x = 1}"
definition black :: "'a colours \<Rightarrow> 'a set" where "black st = {x. gget0 st x = 2}"

lemma grey_gput [simp]: "grey (gput x c st) = (if c = 1 then insert x (grey st) else grey st - {x})"
  by (auto simp: grey_def)

lemma black_gput [simp]: "black (gput x c st) = (if c = 2 then insert x (black st) else black st - {x})"
  by (auto simp: black_def)

lemma grey_Nil [simp]: "grey [] = {}" by (auto simp: grey_def)
lemma black_Nil [simp]: "black [] = {}" by (auto simp: black_def)

text \<open>Finished nodes: their successors are finished and they lie on no cycle.\<close>

definition finished_ok :: "('a \<Rightarrow> 'a list) \<Rightarrow> 'a colours \<Rightarrow> bool" where
  "finished_ok adj st \<longleftrightarrow>
    (\<forall>b \<in> black st. set (adj b) \<subseteq> black st \<and> (b, b) \<notin> (succs_rel adj)\<^sup>+)"

lemma closed_reach:
  assumes "(x, y) \<in> (succs_rel adj)\<^sup>*" and "x \<in> B" and "\<And>b. b \<in> B \<Longrightarrow> set (adj b) \<subseteq> B"
  shows "y \<in> B"
  using assms by (induction rule: rtrancl_induct) (auto simp: succs_rel_def)

lemma finish_node:
  assumes ok: "finished_ok adj st" and succs: "set (adj n) \<subseteq> black st" and new: "n \<notin> black st"
  shows "finished_ok adj (gput n 2 st)"
proof -
  have closed: "\<And>b. b \<in> black st \<Longrightarrow> set (adj b) \<subseteq> black st"
    using ok by (simp add: finished_ok_def)
  have "(n, n) \<notin> (succs_rel adj)\<^sup>+"
  proof
    assume "(n, n) \<in> (succs_rel adj)\<^sup>+"
    then obtain s where "(n, s) \<in> succs_rel adj" "(s, n) \<in> (succs_rel adj)\<^sup>*"
      by (blast dest: tranclD)
    moreover from this(1) succs have "s \<in> black st" by (auto simp: succs_rel_def)
    ultimately have "n \<in> black st" using closed_reach closed by metis
    with new show False ..
  qed
  with ok succs show ?thesis by (auto simp: finished_ok_def)
qed

section \<open>What a visit establishes\<close>

definition visit_post :: "('a \<Rightarrow> 'a list) \<Rightarrow> 'a set \<Rightarrow> 'a colours \<Rightarrow> 'a colours \<Rightarrow> bool" where
  "visit_post adj xs st st' \<longleftrightarrow>
    finished_ok adj st' \<and> grey st' = grey st \<and> black st \<union> xs \<subseteq> black st'"

lemma visit_each_post:
  assumes step: "\<And>x st st'. f x st = Some (Inr st') \<Longrightarrow> finished_ok adj st \<Longrightarrow>
      visit_post adj {x} st st'"
    and "visit_each f xs st = Some (Inr st')" and "finished_ok adj st"
  shows "visit_post adj (set xs) st st'"
  using assms(2,3)
proof (induction xs arbitrary: st)
  case Nil
  then show ?case by (simp add: visit_post_def)
next
  case (Cons x xs)
  from Cons.prems(1) obtain s1 where f: "f x st = Some (Inr s1)"
    and rest: "visit_each f xs s1 = Some (Inr st')"
    by (auto split: option.splits sum.splits)
  from step [OF f Cons.prems(2)] have p: "visit_post adj {x} st s1" .
  then have "finished_ok adj s1" by (simp add: visit_post_def)
  from Cons.IH [OF rest this] p show ?case by (auto simp: visit_post_def)
qed

lemma visit_post_Inr:
  "visit adj k n st = Some (Inr st') \<Longrightarrow> finished_ok adj st \<Longrightarrow> visit_post adj {n} st st'"
proof (induction k arbitrary: n st st')
  case (Suc k)
  show ?case
  proof (cases "gget0 st n = 2")
    case True
    with Suc.prems show ?thesis by (auto simp: visit_post_def black_def)
  next
    case False
    with Suc.prems(1) obtain s1
      where loop: "visit_each (visit adj k) (adj n) (gput n 1 st) = Some (Inr s1)"
        and st': "st' = gput n 2 s1" and white: "gget0 st n \<noteq> 1"
      by (auto split: if_splits option.splits sum.splits)
    from Suc.prems(2) False have "finished_ok adj (gput n 1 st)"
      by (auto simp: finished_ok_def black_def)
    from visit_each_post [OF Suc.IH loop this]
    have p: "visit_post adj (set (adj n)) (gput n 1 st) s1" .
    have g: "n \<in> grey s1" and "set (adj n) \<subseteq> black s1" "finished_ok adj s1"
      using p by (auto simp: visit_post_def)
    moreover from g have "n \<notin> black s1" by (auto simp: grey_def black_def)
    ultimately have "finished_ok adj st'" by (simp add: st' finish_node)
    moreover have "grey st' = grey st"
      using p white by (auto simp: st' visit_post_def) (auto simp: grey_def)
    moreover have "black st \<union> {n} \<subseteq> black st'"
      using p False by (auto simp: st' visit_post_def black_def)
    ultimately show ?thesis by (simp add: visit_post_def)
  qed
qed simp

lemma visit_each_Inl:
  assumes step: "\<And>x st c. x \<in> set xs \<Longrightarrow> f x st = Some (Inl c) \<Longrightarrow> finished_ok adj st \<Longrightarrow>
      grey st = G \<Longrightarrow> P c"
    and post: "\<And>x st st'. f x st = Some (Inr st') \<Longrightarrow> finished_ok adj st \<Longrightarrow>
      visit_post adj {x} st st'"
    and "visit_each f xs st = Some (Inl c)" and "finished_ok adj st" and "grey st = G"
  shows "P c"
  using assms(1,3-5)
proof (induction xs arbitrary: st)
  case (Cons x xs)
  show ?case
  proof (cases "f x st")
    case (Some r)
    show ?thesis
    proof (cases r)
      case (Inl c')
      with Some Cons.prems show ?thesis by auto
    next
      case (Inr s1)
      from post [OF Some [unfolded Inr] Cons.prems(3)] have "visit_post adj {x} st s1" .
      then have "finished_ok adj s1" "grey s1 = G" using Cons.prems(4) by (auto simp: visit_post_def)
      moreover have "visit_each f xs s1 = Some (Inl c)" using Cons.prems(2) Some Inr by simp
      ultimately show ?thesis using Cons.prems(1) by (intro Cons.IH) auto
    qed
  qed (use Cons.prems in simp)
qed simp

lemma visit_Inl:
  "visit adj k n st = Some (Inl c) \<Longrightarrow> finished_ok adj st \<Longrightarrow>
   (\<And>g. g \<in> grey st \<Longrightarrow> (g, n) \<in> (succs_rel adj)\<^sup>+) \<Longrightarrow> (c, c) \<in> (succs_rel adj)\<^sup>+"
proof (induction k arbitrary: n st c)
  case (Suc k)
  show ?case
  proof (cases "gget0 st n = 1")
    case True
    with Suc.prems show ?thesis by (auto simp: grey_def)
  next
    case False
    with Suc.prems(1) have black: "gget0 st n \<noteq> 2"
      and loop: "visit_each (visit adj k) (adj n) (gput n 1 st) = Some (Inl c)"
      by (auto split: if_splits option.splits sum.splits)
    have ok: "finished_ok adj (gput n 1 st)"
      using Suc.prems(2) black by (auto simp: finished_ok_def black_def)
    show ?thesis
    proof (rule visit_each_Inl [OF _ _ loop ok refl])
      fix x s e assume x: "x \<in> set (adj n)" and v: "visit adj k x s = Some (Inl e)"
        and s: "finished_ok adj s" and g: "grey s = grey (gput n 1 st)"
      have edge: "(n, x) \<in> succs_rel adj" using x by (simp add: succs_rel_def)
      show "(e, e) \<in> (succs_rel adj)\<^sup>+"
      proof (rule Suc.IH [OF v s])
        fix y assume "y \<in> grey s"
        then have "y = n \<or> (y, n) \<in> (succs_rel adj)\<^sup>+" using g Suc.prems(3) by auto
        with edge show "(y, x) \<in> (succs_rel adj)\<^sup>+" by (auto intro: trancl_into_trancl)
      qed
    qed (rule visit_post_Inr)
  qed
qed simp

section \<open>Enough fuel\<close>

definition white :: "'a list \<Rightarrow> 'a colours \<Rightarrow> 'a set" where
  "white vs st = {x \<in> set vs. gget0 st x \<noteq> 1 \<and> gget0 st x \<noteq> 2}"

lemma finite_white [simp]: "finite (white vs st)" by (simp add: white_def)

lemma visit_each_fuel:
  assumes step: "\<And>x s. x \<in> set xs \<Longrightarrow> finished_ok adj s \<Longrightarrow> white vs s \<subseteq> W \<Longrightarrow> f x s \<noteq> None"
    and post: "\<And>x s s'. f x s = Some (Inr s') \<Longrightarrow> finished_ok adj s \<Longrightarrow> visit_post adj {x} s s'"
    and "finished_ok adj st" and "white vs st \<subseteq> W"
  shows "visit_each f xs st \<noteq> None"
  using assms(1,3,4)
proof (induction xs arbitrary: st)
  case (Cons x xs)
  obtain r where r: "f x st = Some r" using Cons.prems(1) [of x st] Cons.prems(2,3) by auto
  show ?case
  proof (cases r)
    case (Inr s1)
    have p: "visit_post adj {x} st s1" using post r Inr Cons.prems(2) by blast
    then have "white vs s1 \<subseteq> white vs st"
      by (auto simp: visit_post_def white_def grey_def black_def)
    with p Cons r Inr show ?thesis by (simp add: visit_post_def subset_trans)
  qed (use r in simp)
qed simp

lemma visit_fuel:
  assumes "\<And>x. set (adj x) \<subseteq> set vs"
  shows "card (white vs st) < k \<Longrightarrow> n \<in> set vs \<Longrightarrow> finished_ok adj st \<Longrightarrow>
    visit adj k n st \<noteq> None"
proof (induction k arbitrary: n st)
  case (Suc k)
  show ?case
  proof (cases "gget0 st n = 1 \<or> gget0 st n = 2")
    case False
    let ?s = "gput n 1 st"
    have w: "white vs ?s = white vs st - {n}" and n: "n \<in> white vs st"
      using False Suc.prems(2) by (auto simp: white_def)
    then have card: "card (white vs ?s) < k" using Suc.prems(1)
      by (metis card_Diff1_less finite_white less_Suc_eq not_less_eq order.strict_trans)
    have ok: "finished_ok adj ?s"
      using Suc.prems(3) False by (auto simp: finished_ok_def black_def)
    have "visit_each (visit adj k) (adj n) ?s \<noteq> None"
    proof (rule visit_each_fuel [where adj = adj and vs = vs and W = "white vs ?s", OF _ _ ok])
      fix x s assume x: "x \<in> set (adj n)" and s: "finished_ok adj s"
        and sub: "white vs s \<subseteq> white vs ?s"
      from sub have "card (white vs s) \<le> card (white vs ?s)" by (rule card_mono [rotated]) simp
      with card have "card (white vs s) < k" by simp
      moreover have "x \<in> set vs" using x assms by blast
      ultimately show "visit adj k x s \<noteq> None" using s Suc.IH by blast
    qed (auto dest: visit_post_Inr)
    with False show ?thesis by (auto split: option.splits sum.splits)
  qed auto
qed simp

section \<open>The interface\<close>

locale cycle_search =
  fixes adj :: "'g \<Rightarrow> 'a \<Rightarrow> 'a list" and verts :: "'g \<Rightarrow> 'a list"
  assumes adj_verts: "set (adj g x) \<subseteq> set (verts g)"
begin

definition reaches_cycle :: "'g \<Rightarrow> 'a \<Rightarrow> bool" where
  "reaches_cycle g r \<longleftrightarrow>
    (\<exists>c. (r, c) \<in> (succs_rel (adj g))\<^sup>* \<and> (c, c) \<in> (succs_rel (adj g))\<^sup>+)"

lemma returns:
  assumes "set roots \<subseteq> set (verts g)" and "length (verts g) < fuel"
  shows "\<exists>r. visit_all (adj g) fuel roots = Some r"
proof -
  have card: "card (white (verts g) s) < fuel" for s
  proof -
    have "card (white (verts g) s) \<le> card (set (verts g))"
      by (rule card_mono) (auto simp: white_def)
    also have "\<dots> \<le> length (verts g)" by (rule card_length)
    finally show ?thesis using assms(2) by simp
  qed
  have fuel_ok: "visit (adj g) fuel x s \<noteq> None"
    if "x \<in> set roots" "finished_ok (adj g) s" for x s
  proof (rule visit_fuel)
    show "set (adj g y) \<subseteq> set (verts g)" for y by (rule adj_verts)
  qed (use that assms(1) card in auto)
  have ok: "finished_ok (adj g) []" by (simp add: finished_ok_def)
  have "visit_each (visit (adj g) fuel) roots [] \<noteq> None"
    by (rule visit_each_fuel [where adj = "adj g" and vs = "verts g" and W = UNIV, OF _ _ ok])
      (simp_all add: fuel_ok visit_post_Inr)
  then show ?thesis by (simp add: visit_all_def)
qed

lemma error_on_cycle:
  assumes "visit_all (adj g) fuel roots = Some (Inl c)"
  shows "(c, c) \<in> (succs_rel (adj g))\<^sup>+"
  using assms unfolding visit_all_def
proof (rule visit_each_Inl [where G = "{}" and adj = "adj g", rotated 2])
  fix x s e assume "visit (adj g) fuel x s = Some (Inl e)" "finished_ok (adj g) s" "grey s = {}"
  then show "(e, e) \<in> (succs_rel (adj g))\<^sup>+" by (auto dest: visit_Inl)
qed (auto simp: finished_ok_def dest: visit_post_Inr)

lemma success_no_cycle:
  assumes "visit_all (adj g) fuel roots = Some (Inr st)" and "r \<in> set roots"
  shows "\<not> reaches_cycle g r"
proof -
  have p: "visit_post (adj g) (set roots) [] st"
    using assms(1) unfolding visit_all_def
    by (rule visit_each_post [rotated]) (auto simp: finished_ok_def dest: visit_post_Inr)
  then have b: "r \<in> black st" and ok: "finished_ok (adj g) st"
    using assms(2) by (auto simp: visit_post_def)
  show ?thesis
  proof
    assume "reaches_cycle g r"
    then obtain c where c: "(r, c) \<in> (succs_rel (adj g))\<^sup>*" "(c, c) \<in> (succs_rel (adj g))\<^sup>+"
      by (auto simp: reaches_cycle_def)
    from c(1) b have "c \<in> black st" by (rule closed_reach) (use ok in \<open>auto simp: finished_ok_def\<close>)
    with ok c(2) show False by (simp add: finished_ok_def)
  qed
qed

text \<open>When every node with successors is a root, success is acyclicity.\<close>

lemma success_iff_acyclic:
  assumes roots: "set roots \<subseteq> set (verts g)" and fuel: "length (verts g) < fuel"
    and cover: "\<And>x. adj g x \<noteq> [] \<Longrightarrow> x \<in> set roots"
  shows "(\<exists>st. visit_all (adj g) fuel roots = Some (Inr st)) \<longleftrightarrow> acyclic (succs_rel (adj g))"
proof
  assume "\<exists>st. visit_all (adj g) fuel roots = Some (Inr st)"
  then obtain st where st: "visit_all (adj g) fuel roots = Some (Inr st)" ..
  show "acyclic (succs_rel (adj g))"
  proof (rule acyclicI, intro allI notI)
    fix x assume cyc: "(x, x) \<in> (succs_rel (adj g))\<^sup>+"
    then obtain y where "(x, y) \<in> succs_rel (adj g)" by (blast dest: tranclD)
    then have "x \<in> set roots" by (intro cover) (auto simp: succs_rel_def)
    from success_no_cycle [OF st this] cyc show False by (auto simp: reaches_cycle_def)
  qed
next
  assume ac: "acyclic (succs_rel (adj g))"
  obtain r where r: "visit_all (adj g) fuel roots = Some r" using returns [OF roots fuel] by blast
  show "\<exists>st. visit_all (adj g) fuel roots = Some (Inr st)"
  proof (cases r)
    case (Inl c)
    with r error_on_cycle [of g fuel roots c] ac show ?thesis by (simp add: acyclic_def)
  qed (use r in auto)
qed

end

text \<open>A rank that decreases along every edge rules cycles out.\<close>

lemma acyclic_rank:
  fixes rank :: "'a \<Rightarrow> nat"
  assumes "\<And>x y. (x, y) \<in> r \<Longrightarrow> rank y < rank x"
  shows "acyclic r"
proof -
  have "r \<subseteq> (measure rank)\<inverse>" using assms by auto
  then show ?thesis by (metis acyclic_converse acyclic_subset wf_acyclic wf_measure)
qed

end
