(* ===== verification/Plan_Graph.thy ===== *)
theory Plan_Graph
  imports Graph_Search "HOL-Library.Product_Lexorder"
begin

text \<open>
  Ingest plan graphs (\<open>internal/publication\<close>: \<open>types.go\<close>, \<open>plan_graph.go\<close>, \<open>policy.go\<close>,
  \<open>source_strategy.go\<close>, \<open>attempts.go\<close>): step types, plan nodes and dependencies, the
  registry of allowed edges, the validators of current and legacy graphs, and the contracts for
  reading encrypted sources.

  An error is a constructor with the arguments of its message. \<open>Diverged\<close> stands for a search
  that does not end; \<open>ValidatePlanGraph_returns\<close> shows that it is never the result. A map that
  Go ranges over in an unspecified order is visited in list order, which decides between errors
  and never between an error and success. Generations are the integers of an INTEGER column.
\<close>

named_theorems plan_defs \<open>definitions the plan graph proofs unfold\<close>

section \<open>Step types\<close>

type_synonym StepType = string
type_synonym DependencyKind = string

definition StepPoster :: StepType where "StepPoster = ''poster''"
definition StepThumbnail :: StepType where "StepThumbnail = ''thumbnail''"
definition StepScrape :: StepType where "StepScrape = ''scrape''"
definition StepPreview :: StepType where "StepPreview = ''preview''"
definition StepKeyframe :: StepType where "StepKeyframe = ''keyframe''"
definition StepSubtitle :: StepType where "StepSubtitle = ''subtitle''"
definition StepAtrack :: StepType where "StepAtrack = ''atrack''"
definition StepEncrypt :: StepType where "StepEncrypt = ''encrypt''"
definition StepPrepare :: StepType where "StepPrepare = ''prepare''"
definition StepPackage :: StepType where "StepPackage = ''package''"
definition StepPretranscode :: StepType where "StepPretranscode = ''pretranscode''"
definition StepMetadata :: StepType where "StepMetadata = ''metadata''"
definition StepMediaVisible :: StepType where "StepMediaVisible = ''media_visible''"
definition StepSubtitleExtract :: StepType where "StepSubtitleExtract = ''subtitle_extract''"
definition StepAtrackExtract :: StepType where "StepAtrackExtract = ''atrack_extract''"
definition StepSubtitleRecognize :: StepType where "StepSubtitleRecognize = ''subtitle_recognize''"
definition StepKeyframeExtract :: StepType where "StepKeyframeExtract = ''keyframe_extract''"
definition StepAIAnalysis :: StepType where "StepAIAnalysis = ''ai_analysis''"
definition StepLyricRecognize :: StepType where "StepLyricRecognize = ''lyric_recognize''"
definition StepAudioAnalysis :: StepType where "StepAudioAnalysis = ''audio_analysis''"
definition StepPhotoClassify :: StepType where "StepPhotoClassify = ''photo_classify''"
definition StepPhotoGeocode :: StepType where "StepPhotoGeocode = ''photo_geocode''"
definition StepPhotoFace :: StepType where "StepPhotoFace = ''photo_face''"
definition StepImageOCR :: StepType where "StepImageOCR = ''image_ocr''"
definition StepDocumentConvert :: StepType where "StepDocumentConvert = ''document_convert''"
definition StepDocumentFulltext :: StepType where "StepDocumentFulltext = ''document_fulltext''"
definition StepPersonScrape :: StepType where "StepPersonScrape = ''person_scrape''"
definition StepArtworkCover :: StepType where "StepArtworkCover = ''artwork_cover''"

lemmas step_names = StepPoster_def StepThumbnail_def StepScrape_def StepPreview_def
  StepKeyframe_def StepSubtitle_def StepAtrack_def StepEncrypt_def StepPrepare_def
  StepPackage_def StepPretranscode_def StepMetadata_def StepMediaVisible_def
  StepSubtitleExtract_def StepAtrackExtract_def StepSubtitleRecognize_def
  StepKeyframeExtract_def StepAIAnalysis_def StepLyricRecognize_def StepAudioAnalysis_def
  StepPhotoClassify_def StepPhotoGeocode_def StepPhotoFace_def StepImageOCR_def
  StepDocumentConvert_def StepDocumentFulltext_def StepPersonScrape_def StepArtworkCover_def

definition DependencySuccess :: DependencyKind where "DependencySuccess = ''success''"
definition DependencyTerminal :: DependencyKind where "DependencyTerminal = ''terminal''"

record Dependency =
  dep_Step :: StepType
  dep_Kind :: DependencyKind
  dep_DependsOn :: "StepType option"
  dep_Generation :: int
  dep_DependsOnGeneration :: int

record PlanNode =
  node_Step :: StepType
  node_Generation :: int
  node_Required :: bool

record PlanGraph =
  Nodes :: "PlanNode list"
  Edges :: "Dependency list"

definition knownPhase5Nodes :: "StepType list" where
  "knownPhase5Nodes =
    [StepLyricRecognize, StepAudioAnalysis, StepPhotoClassify, StepPhotoGeocode, StepPhotoFace,
     StepImageOCR, StepDocumentConvert, StepDocumentFulltext, StepPersonScrape, StepArtworkCover]"

definition knownPhase1Nodes :: "StepType list" where
  "knownPhase1Nodes =
    [StepPoster, StepThumbnail, StepScrape, StepPreview, StepEncrypt, StepPrepare, StepPackage,
     StepPretranscode, StepMetadata, StepMediaVisible, StepSubtitleExtract, StepAtrackExtract,
     StepSubtitleRecognize, StepKeyframeExtract, StepAIAnalysis, StepLyricRecognize,
     StepAudioAnalysis, StepPhotoClassify, StepPhotoGeocode, StepPhotoFace, StepImageOCR,
     StepDocumentConvert, StepDocumentFulltext, StepPersonScrape, StepArtworkCover]"

definition asyncPhase1Nodes :: "StepType list" where
  "asyncPhase1Nodes =
    [StepScrape, StepPreview, StepPrepare, StepSubtitleExtract, StepAtrackExtract,
     StepSubtitleRecognize, StepKeyframeExtract, StepAIAnalysis, StepPackage, StepPretranscode,
     StepLyricRecognize, StepAudioAnalysis, StepPhotoClassify, StepPhotoGeocode, StepPhotoFace,
     StepImageOCR, StepDocumentConvert, StepDocumentFulltext]"

type_synonym registry = "(StepType \<times> StepType, DependencyKind list) gmap"

text \<open>The keys of the edge registry; the value of every key is the kind success alone.\<close>

definition allowed_pairs :: "(StepType \<times> StepType) list" where
  "allowed_pairs =
    [(StepScrape, StepMediaVisible), (StepPreview, StepMediaVisible),
     (StepPrepare, StepMediaVisible), (StepSubtitleExtract, StepMediaVisible),
     (StepAtrackExtract, StepMediaVisible), (StepSubtitleRecognize, StepMediaVisible),
     (StepKeyframeExtract, StepMediaVisible), (StepAIAnalysis, StepMediaVisible),
     (StepPackage, StepMediaVisible), (StepPretranscode, StepMediaVisible),
     (StepSubtitleRecognize, StepSubtitleExtract), (StepSubtitleRecognize, StepAtrackExtract),
     (StepAIAnalysis, StepSubtitleRecognize), (StepEncrypt, StepPoster),
     (StepEncrypt, StepThumbnail),
     (StepLyricRecognize, StepMediaVisible), (StepAudioAnalysis, StepMediaVisible),
     (StepAIAnalysis, StepLyricRecognize), (StepAIAnalysis, StepAudioAnalysis),
     (StepPhotoClassify, StepMediaVisible), (StepPhotoGeocode, StepMediaVisible),
     (StepPhotoFace, StepMediaVisible), (StepImageOCR, StepMediaVisible),
     (StepAIAnalysis, StepPhotoClassify), (StepAIAnalysis, StepPhotoGeocode),
     (StepAIAnalysis, StepPhotoFace),
     (StepDocumentConvert, StepMediaVisible), (StepDocumentFulltext, StepMediaVisible),
     (StepImageOCR, StepMediaVisible), (StepAIAnalysis, StepDocumentFulltext),
     (StepImageOCR, StepDocumentFulltext), (StepDocumentConvert, StepDocumentFulltext),
     (StepDocumentFulltext, StepDocumentConvert),
     (StepPersonScrape, StepMediaVisible), (StepArtworkCover, StepMediaVisible)]"

definition allowedPhase1Edges :: registry where
  "allowedPhase1Edges = map (\<lambda>e. (e, [DependencySuccess])) allowed_pairs"

definition registry_allows :: "registry \<Rightarrow> StepType \<Rightarrow> StepType \<Rightarrow> DependencyKind \<Rightarrow> bool" where
  "registry_allows reg frm to kind =
    (case gget reg (frm, to) of None \<Rightarrow> False | Some kinds \<Rightarrow> kind \<in> set kinds)"

definition requiresSuccessEdge :: "StepType \<Rightarrow> StepType \<Rightarrow> bool" where
  "requiresSuccessEdge frm to \<longleftrightarrow>
    (frm = StepSubtitleRecognize \<and> (to = StepSubtitleExtract \<or> to = StepAtrackExtract)) \<or>
    (frm = StepAIAnalysis \<and> to = StepSubtitleRecognize)"

section \<open>Validation of a graph\<close>

type_synonym logicalNode = "StepType \<times> int"
type_synonym logicalEdge = "logicalNode \<times> logicalNode \<times> DependencyKind"

datatype GraphError =
    UnknownNode StepType
  | MalformedNode StepType int
  | DuplicateNode StepType int
  | UnknownKind DependencyKind
  | MalformedEndpoint
  | MalformedEndpointGeneration
  | CrossGeneration StepType int StepType int
  | MissingEndpoint StepType int
  | SelfEdge StepType int
  | DuplicateEdge StepType StepType DependencyKind
  | ForbiddenEdge StepType StepType DependencyKind
  | RequiresSuccess StepType StepType
  | AsyncRequiresVisible StepType
  | CycleAt StepType int
  | Diverged

text \<open>The loop over the nodes; the second argument is \<open>ordered\<close>, whose members are the keys
  of \<open>nodes\<close>.\<close>

fun check_nodes ::
  "StepType list \<Rightarrow> logicalNode list \<Rightarrow> PlanNode list \<Rightarrow> GraphError + logicalNode list" where
  "check_nodes known ordered [] = Inr ordered"
| "check_nodes known ordered (node # rest) =
    (let step = node_Step node; gen = node_Generation node in
     if step \<notin> set known then Inl (UnknownNode step)
     else if gen \<le> 0 then Inl (MalformedNode step gen)
     else if (step, gen) \<in> set ordered then Inl (DuplicateNode step gen)
     else check_nodes known (ordered @ [(step, gen)]) rest)"

definition edge_key :: "Dependency \<Rightarrow> logicalEdge" where
  "edge_key e =
    ((dep_Step e, dep_Generation e),
     (the (dep_DependsOn e), dep_DependsOnGeneration e), dep_Kind e)"

text \<open>The body of the loop over the edges, up to the insertion into the adjacency map.\<close>

definition check_edge ::
  "registry \<Rightarrow> logicalNode list \<Rightarrow> logicalEdge list \<Rightarrow> Dependency \<Rightarrow> GraphError + logicalEdge" where
  "check_edge reg nodes edges e =
    (let kind = dep_Kind e; step = dep_Step e; target = the (dep_DependsOn e);
         fromGen = dep_Generation e; toGen = dep_DependsOnGeneration e
     in
     if kind \<noteq> DependencySuccess \<and> kind \<noteq> DependencyTerminal then Inl (UnknownKind kind)
     else if dep_DependsOn e = None \<or> step = '''' then Inl MalformedEndpoint
     else if fromGen \<le> 0 \<or> toGen \<le> 0 then Inl MalformedEndpointGeneration
     else if fromGen \<noteq> toGen then Inl (CrossGeneration step fromGen target toGen)
     else if (step, fromGen) \<notin> set nodes then Inl (MissingEndpoint step fromGen)
     else if (target, toGen) \<notin> set nodes then Inl (MissingEndpoint target toGen)
     else if (step, fromGen) = (target, toGen) then Inl (SelfEdge step fromGen)
     else if edge_key e \<in> set edges then Inl (DuplicateEdge step target kind)
     else if \<not> registry_allows reg step target kind then Inl (ForbiddenEdge step target kind)
     else if requiresSuccessEdge step target \<and> kind \<noteq> DependencySuccess
     then Inl (RequiresSuccess step target)
     else Inr (edge_key e))"

type_synonym adjacency = "(logicalNode, logicalNode list) gmap"

definition adj_of :: "('a, 'a list) gmap \<Rightarrow> 'a \<Rightarrow> 'a list" where
  "adj_of m x = (case gget m x of None \<Rightarrow> [] | Some ys \<Rightarrow> ys)"

text \<open>\<open>adjacency[from] = append(adjacency[from], to)\<close>\<close>

definition adj_append :: "'a \<Rightarrow> 'a \<Rightarrow> ('a, 'a list) gmap \<Rightarrow> ('a, 'a list) gmap" where
  "adj_append x y m = gput x (adj_of m x @ [y]) m"

fun check_edges ::
  "(logicalEdge list \<Rightarrow> Dependency \<Rightarrow> GraphError + logicalEdge) \<Rightarrow> Dependency list \<Rightarrow>
   logicalEdge list \<Rightarrow> adjacency \<Rightarrow> GraphError + logicalEdge list \<times> adjacency" where
  "check_edges chk [] edges adjacency = Inr (edges, adjacency)"
| "check_edges chk (e # rest) edges adjacency =
    (case chk edges e of
       Inl err \<Rightarrow> Inl err
     | Inr (frm, to, kind) \<Rightarrow>
         check_edges chk rest ((frm, to, kind) # edges) (adj_append frm to adjacency))"

definition check_async :: "logicalEdge list \<Rightarrow> logicalNode \<Rightarrow> GraphError option" where
  "check_async edges node =
    (if fst node \<in> set asyncPhase1Nodes \<and>
        (node, (StepMediaVisible, snd node), DependencySuccess) \<notin> set edges
     then Some (AsyncRequiresVisible (fst node)) else None)"

definition sort_adjacency :: "adjacency \<Rightarrow> adjacency" where
  "sort_adjacency = map (\<lambda>(node, tos). (node, sort_key fst tos))"

definition search_error :: "(logicalNode + logicalNode colours) option \<Rightarrow> GraphError option" where
  "search_error r =
    (case r of
       None \<Rightarrow> Some Diverged
     | Some (Inl (step, gen)) \<Rightarrow> Some (CycleAt step gen)
     | Some (Inr _) \<Rightarrow> None)"

definition validatePlanGraphWithRegistry :: "PlanGraph \<Rightarrow> registry \<Rightarrow> GraphError option" where
  "validatePlanGraphWithRegistry graph reg =
    (case check_nodes knownPhase1Nodes [] (Nodes graph) of
       Inl err \<Rightarrow> Some err
     | Inr nodes \<Rightarrow>
         (case check_edges (check_edge reg nodes) (Edges graph) [] [] of
            Inl err \<Rightarrow> Some err
          | Inr (edges, adjacency) \<Rightarrow>
              (case first_error (check_async edges) nodes of
                 Some err \<Rightarrow> Some err
               | None \<Rightarrow>
                   search_error (visit_all (adj_of (sort_adjacency adjacency))
                     (Suc (length nodes)) (sort_key (\<lambda>(s, g). (g, s)) nodes)))))"

definition ValidatePlanGraph :: "PlanGraph \<Rightarrow> GraphError option" where
  "ValidatePlanGraph graph = validatePlanGraphWithRegistry graph allowedPhase1Edges"

section \<open>Legacy graphs\<close>

definition known_legacy :: "StepType list" where
  "known_legacy =
    [StepPoster, StepThumbnail, StepScrape, StepPreview, StepEncrypt, StepPrepare, StepKeyframe,
     StepSubtitle, StepAtrack, StepMediaVisible]"

definition check_legacy_edge ::
  "logicalNode list \<Rightarrow> logicalEdge list \<Rightarrow> Dependency \<Rightarrow> GraphError + logicalEdge" where
  "check_legacy_edge nodes edges e =
    (let kind = dep_Kind e; step = dep_Step e; target = the (dep_DependsOn e);
         fromGen = dep_Generation e; toGen = dep_DependsOnGeneration e
     in
     if kind \<noteq> DependencySuccess \<and> kind \<noteq> DependencyTerminal then Inl (UnknownKind kind)
     else if step = '''' \<or> dep_DependsOn e = None \<or> fromGen \<le> 0 \<or> toGen \<le> 0
     then Inl MalformedEndpoint
     else if fromGen \<noteq> toGen then Inl (CrossGeneration step fromGen target toGen)
     else if (step, fromGen) \<notin> set nodes \<or> (target, toGen) \<notin> set nodes
     then Inl (MissingEndpoint step fromGen)
     else if (step, fromGen) = (target, toGen) then Inl (SelfEdge step fromGen)
     else if edge_key e \<in> set edges then Inl (DuplicateEdge step target kind)
     else Inr (edge_key e))"

definition validateLegacyV2Graph :: "PlanGraph \<Rightarrow> GraphError option" where
  "validateLegacyV2Graph graph =
    (case check_nodes known_legacy [] (Nodes graph) of
       Inl err \<Rightarrow> Some err
     | Inr nodes \<Rightarrow>
         (case check_edges (check_legacy_edge nodes) (Edges graph) [] [] of
            Inl err \<Rightarrow> Some err
          | Inr (edges, adjacency) \<Rightarrow>
              search_error (visit_all (adj_of adjacency) (Suc (length nodes)) nodes)))"

section \<open>Specification\<close>

definition node_key :: "PlanNode \<Rightarrow> logicalNode" where
  "node_key n = (node_Step n, node_Generation n)"

definition nodes_ok :: "StepType list \<Rightarrow> PlanGraph \<Rightarrow> bool" where
  "nodes_ok known g \<longleftrightarrow>
    (\<forall>n \<in> set (Nodes g). node_Step n \<in> set known \<and> 0 < node_Generation n) \<and>
    distinct (map node_key (Nodes g))"

text \<open>An edge joins two different nodes of the graph in one positive generation.\<close>

definition edge_shape_ok :: "logicalNode list \<Rightarrow> Dependency \<Rightarrow> bool" where
  "edge_shape_ok nodes e \<longleftrightarrow>
    dep_Kind e \<in> {DependencySuccess, DependencyTerminal} \<and> dep_Step e \<noteq> '''' \<and>
    0 < dep_Generation e \<and> dep_Generation e = dep_DependsOnGeneration e \<and>
    (dep_Step e, dep_Generation e) \<in> set nodes \<and>
    (\<exists>t. dep_DependsOn e = Some t \<and> (t, dep_Generation e) \<in> set nodes \<and> t \<noteq> dep_Step e)"

definition edge_allowed :: "registry \<Rightarrow> Dependency \<Rightarrow> bool" where
  "edge_allowed reg e \<longleftrightarrow>
    registry_allows reg (dep_Step e) (the (dep_DependsOn e)) (dep_Kind e) \<and>
    (requiresSuccessEdge (dep_Step e) (the (dep_DependsOn e)) \<longrightarrow> dep_Kind e = DependencySuccess)"

definition graph_rel :: "PlanGraph \<Rightarrow> (logicalNode \<times> logicalNode) set" where
  "graph_rel g = {(x, y). \<exists>k. (x, y, k) \<in> edge_key ` set (Edges g)}"

definition async_ok :: "PlanGraph \<Rightarrow> bool" where
  "async_ok g \<longleftrightarrow>
    (\<forall>n \<in> set (Nodes g). node_Step n \<in> set asyncPhase1Nodes \<longrightarrow>
       (node_key n, (StepMediaVisible, node_Generation n), DependencySuccess)
         \<in> edge_key ` set (Edges g))"

definition plan_graph_ok :: "registry \<Rightarrow> PlanGraph \<Rightarrow> bool" where
  "plan_graph_ok reg g \<longleftrightarrow>
    nodes_ok knownPhase1Nodes g \<and>
    (\<forall>e \<in> set (Edges g). edge_shape_ok (map node_key (Nodes g)) e \<and> edge_allowed reg e) \<and>
    distinct (map edge_key (Edges g)) \<and> async_ok g \<and> acyclic (graph_rel g)"

definition legacy_graph_ok :: "PlanGraph \<Rightarrow> bool" where
  "legacy_graph_ok g \<longleftrightarrow>
    nodes_ok known_legacy g \<and>
    (\<forall>e \<in> set (Edges g). edge_shape_ok (map node_key (Nodes g)) e) \<and>
    distinct (map edge_key (Edges g)) \<and> acyclic (graph_rel g)"

section \<open>The loops of the validators\<close>

lemma check_nodes_Inr:
  "check_nodes known ord ns = Inr r \<longleftrightarrow>
   r = ord @ map node_key ns \<and> (\<forall>n \<in> set ns. node_Step n \<in> set known \<and> 0 < node_Generation n) \<and>
   distinct (map node_key ns) \<and> node_key ` set ns \<inter> set ord = {}"
  by (induction ns arbitrary: ord) (auto simp: Let_def node_key_def)

lemma check_nodes_ok:
  "check_nodes known [] (Nodes g) = Inr r \<longleftrightarrow> nodes_ok known g \<and> r = map node_key (Nodes g)"
  by (auto simp: check_nodes_Inr nodes_ok_def)

lemma adj_of_append [simp]:
  "adj_of (adj_append x y m) z = (if z = x then adj_of m x @ [y] else adj_of m z)"
  by (simp add: adj_append_def adj_of_def)

lemma check_edges_Inr:
  assumes chk: "\<And>ks e k. chk ks e = Inr k \<longleftrightarrow> ok e \<and> edge_key e \<notin> set ks \<and> k = edge_key e"
  shows "(\<exists>r. check_edges chk es ks adj = Inr r) \<longleftrightarrow>
    (\<forall>e \<in> set es. ok e) \<and> distinct (map edge_key es) \<and> edge_key ` set es \<inter> set ks = {}"
proof (induction es arbitrary: ks adj)
  case (Cons e es)
  obtain f t k where key: "edge_key e = (f, t, k)" by (cases "edge_key e")
  show ?case
  proof (cases "chk ks e")
    case (Inl err)
    with chk [of ks e "edge_key e"] show ?thesis by auto
  next
    case (Inr k')
    then have "k' = edge_key e" "ok e" "edge_key e \<notin> set ks" using chk by auto
    with Inr Cons.IH [of "edge_key e # ks" "adj_append f t adj"] show ?thesis
      by (auto simp: key)
  qed
qed simp

lemma check_edges_result:
  assumes chk: "\<And>ks e k. chk ks e = Inr k \<Longrightarrow> k = edge_key e"
    and "check_edges chk es ks adj = Inr (ks', adj')"
  shows "set ks' = set ks \<union> edge_key ` set es"
    and "set (adj_of adj' x) = set (adj_of adj x) \<union> {y. \<exists>k. (x, y, k) \<in> edge_key ` set es}"
proof -
  have "set ks' = set ks \<union> edge_key ` set es \<and>
    set (adj_of adj' x) = set (adj_of adj x) \<union> {y. \<exists>k. (x, y, k) \<in> edge_key ` set es}"
    using assms(2)
  proof (induction es arbitrary: ks adj)
    case (Cons e es)
    obtain f t k where c: "chk ks e = Inr (f, t, k)"
      and rest: "check_edges chk es ((f, t, k) # ks) (adj_append f t adj) = Inr (ks', adj')"
      using Cons.prems by (auto split: sum.splits)
    from chk [OF c] have key: "edge_key e = (f, t, k)" by simp
    from Cons.IH [OF rest] show ?case by (auto simp: key)
  qed simp
  then show "set ks' = set ks \<union> edge_key ` set es"
    and "set (adj_of adj' x) = set (adj_of adj x) \<union> {y. \<exists>k. (x, y, k) \<in> edge_key ` set es}"
    by auto
qed

lemma check_edge_Inr:
  "check_edge reg nodes ks e = Inr k \<longleftrightarrow>
   (edge_shape_ok nodes e \<and> edge_allowed reg e) \<and> edge_key e \<notin> set ks \<and> k = edge_key e"
  by (cases "dep_DependsOn e")
    (auto simp: check_edge_def Let_def edge_shape_ok_def edge_allowed_def)

lemma check_legacy_edge_Inr:
  "check_legacy_edge nodes ks e = Inr k \<longleftrightarrow>
   edge_shape_ok nodes e \<and> edge_key e \<notin> set ks \<and> k = edge_key e"
  by (cases "dep_DependsOn e") (auto simp: check_legacy_edge_def Let_def edge_shape_ok_def)

lemma gget_map_values: "gget (map (\<lambda>(k, v). (k, f v)) m) x = map_option f (gget m x)"
  by (simp add: gget_def map_of_map)

lemma adj_of_sort [simp]: "set (adj_of (sort_adjacency m) x) = set (adj_of m x)"
  by (cases "gget m x") (simp_all add: adj_of_def sort_adjacency_def gget_map_values)

lemma adj_of_Nil [simp]: "adj_of [] x = []"
  by (simp add: adj_of_def)

section \<open>The searches\<close>

definition plan_adjacency :: "registry \<Rightarrow> PlanGraph \<Rightarrow> adjacency" where
  "plan_adjacency reg g =
    (case check_edges (check_edge reg (map node_key (Nodes g))) (Edges g) [] [] of
       Inl _ \<Rightarrow> [] | Inr (_, adjacency) \<Rightarrow> adjacency)"

definition legacy_adjacency :: "PlanGraph \<Rightarrow> adjacency" where
  "legacy_adjacency g =
    (case check_edges (check_legacy_edge (map node_key (Nodes g))) (Edges g) [] [] of
       Inl _ \<Rightarrow> [] | Inr (_, adjacency) \<Rightarrow> adjacency)"

lemma plan_edges_ok:
  "(\<exists>r. check_edges (check_edge reg nodes) es [] [] = Inr r) \<longleftrightarrow>
   (\<forall>e \<in> set es. edge_shape_ok nodes e \<and> edge_allowed reg e) \<and> distinct (map edge_key es)"
  by (subst check_edges_Inr [OF check_edge_Inr]) simp

lemma legacy_edges_ok:
  "(\<exists>r. check_edges (check_legacy_edge nodes) es [] [] = Inr r) \<longleftrightarrow>
   (\<forall>e \<in> set es. edge_shape_ok nodes e) \<and> distinct (map edge_key es)"
  by (subst check_edges_Inr [OF check_legacy_edge_Inr]) simp

lemma shape_endpoints:
  "edge_shape_ok nodes e \<Longrightarrow> edge_key e = (x, y, k) \<Longrightarrow> x \<in> set nodes \<and> y \<in> set nodes"
  by (auto simp: edge_shape_ok_def edge_key_def)

lemma built_adjacency:
  assumes "check_edges chk (Edges g) [] [] = Inr (ks, adj)"
    and "\<And>ks e k. chk ks e = Inr k \<Longrightarrow> k = edge_key e"
  shows "y \<in> set (adj_of adj x) \<longleftrightarrow> (x, y) \<in> graph_rel g"
  using check_edges_result(2) [where chk = chk, OF assms(2,1)] by (simp add: graph_rel_def)

lemma plan_adjacency_set:
  assumes "\<exists>r. check_edges (check_edge reg (map node_key (Nodes g))) (Edges g) [] [] = Inr r"
  shows "y \<in> set (adj_of (plan_adjacency reg g) x) \<longleftrightarrow> (x, y) \<in> graph_rel g"
proof -
  from assms obtain ks adj
    where r: "check_edges (check_edge reg (map node_key (Nodes g))) (Edges g) [] [] = Inr (ks, adj)"
    by auto
  show ?thesis using built_adjacency [OF r] by (simp add: plan_adjacency_def r check_edge_Inr)
qed

lemma legacy_adjacency_set:
  assumes "\<exists>r. check_edges (check_legacy_edge (map node_key (Nodes g))) (Edges g) [] [] = Inr r"
  shows "y \<in> set (adj_of (legacy_adjacency g) x) \<longleftrightarrow> (x, y) \<in> graph_rel g"
proof -
  from assms obtain ks adj
    where r: "check_edges (check_legacy_edge (map node_key (Nodes g))) (Edges g) [] [] = Inr (ks, adj)"
    by auto
  show ?thesis
    using built_adjacency [OF r] by (simp add: legacy_adjacency_def r check_legacy_edge_Inr)
qed

lemma rel_endpoints:
  assumes "(x, y) \<in> graph_rel g" and "\<And>e. e \<in> set (Edges g) \<Longrightarrow> edge_shape_ok nodes e"
  shows "x \<in> set nodes \<and> y \<in> set nodes"
proof -
  from assms(1) obtain k where "(x, y, k) \<in> edge_key ` set (Edges g)"
    by (auto simp: graph_rel_def)
  then obtain e where "e \<in> set (Edges g)" "edge_key e = (x, y, k)" by (metis imageE)
  with assms(2) show ?thesis by (metis shape_endpoints)
qed

lemma plan_adjacency_endpoints:
  assumes "y \<in> set (adj_of (plan_adjacency reg g) x)"
  shows "x \<in> set (map node_key (Nodes g)) \<and> y \<in> set (map node_key (Nodes g))"
proof -
  from assms have r: "\<exists>r. check_edges (check_edge reg (map node_key (Nodes g))) (Edges g) [] [] = Inr r"
    by (cases "check_edges (check_edge reg (map node_key (Nodes g))) (Edges g) [] []")
      (simp_all add: plan_adjacency_def)
  with assms have "(x, y) \<in> graph_rel g" by (simp add: plan_adjacency_set)
  moreover have "edge_shape_ok (map node_key (Nodes g)) e" if "e \<in> set (Edges g)" for e
    using r that unfolding plan_edges_ok by simp
  ultimately show ?thesis by (rule rel_endpoints)
qed

lemma legacy_adjacency_endpoints:
  assumes "y \<in> set (adj_of (legacy_adjacency g) x)"
  shows "x \<in> set (map node_key (Nodes g)) \<and> y \<in> set (map node_key (Nodes g))"
proof -
  from assms have r: "\<exists>r. check_edges (check_legacy_edge (map node_key (Nodes g))) (Edges g) [] [] = Inr r"
    by (cases "check_edges (check_legacy_edge (map node_key (Nodes g))) (Edges g) [] []")
      (simp_all add: legacy_adjacency_def)
  with assms have "(x, y) \<in> graph_rel g" by (simp add: legacy_adjacency_set)
  moreover have "edge_shape_ok (map node_key (Nodes g)) e" if "e \<in> set (Edges g)" for e
    using r that unfolding legacy_edges_ok by simp
  ultimately show ?thesis by (rule rel_endpoints)
qed

interpretation plan_search: cycle_search
  "\<lambda>(reg, g). adj_of (sort_adjacency (plan_adjacency reg g))"
  "\<lambda>(reg, g). map node_key (Nodes g)"
  by unfold_locales (auto dest!: plan_adjacency_endpoints)

interpretation legacy_search: cycle_search
  "\<lambda>g. adj_of (legacy_adjacency g)" "\<lambda>g. map node_key (Nodes g)"
  by unfold_locales (auto dest!: legacy_adjacency_endpoints)

lemma search_error_None: "search_error r = None \<longleftrightarrow> (\<exists>st. r = Some (Inr st))"
  by (auto simp: search_error_def split: option.splits sum.splits)

lemma search_error_Diverged: "search_error r = Some Diverged \<longleftrightarrow> r = None"
  by (auto simp: search_error_def split: option.splits sum.splits)

lemma plan_edges_result:
  assumes "check_edges (check_edge reg (map node_key (Nodes g))) (Edges g) [] [] = Inr (ks, adj)"
  shows "adj = plan_adjacency reg g" and "set ks = edge_key ` set (Edges g)"
    and "succs_rel (adj_of (sort_adjacency adj)) = graph_rel g"
proof -
  show a: "adj = plan_adjacency reg g" by (simp add: plan_adjacency_def assms)
  show "set ks = edge_key ` set (Edges g)"
    using check_edges_result(1) [OF _ assms] by (simp add: check_edge_Inr)
  show "succs_rel (adj_of (sort_adjacency adj)) = graph_rel g"
    using assms by (auto simp: succs_rel_def a plan_adjacency_set)
qed

lemma legacy_edges_result:
  assumes "check_edges (check_legacy_edge (map node_key (Nodes g))) (Edges g) [] [] = Inr (ks, adj)"
  shows "adj = legacy_adjacency g" and "succs_rel (adj_of adj) = graph_rel g"
proof -
  show a: "adj = legacy_adjacency g" by (simp add: legacy_adjacency_def assms)
  show "succs_rel (adj_of adj) = graph_rel g"
    using assms by (auto simp: succs_rel_def a legacy_adjacency_set)
qed

lemma cover_roots:
  assumes "adj_of (sort_adjacency (plan_adjacency reg g)) x \<noteq> []"
  shows "x \<in> set (map node_key (Nodes g))"
  using hd_in_set [OF assms] plan_adjacency_endpoints unfolding adj_of_sort by blast

lemma legacy_cover_roots:
  assumes "adj_of (legacy_adjacency g) x \<noteq> []"
  shows "x \<in> set (map node_key (Nodes g))"
  using hd_in_set [OF assms] legacy_adjacency_endpoints by blast

lemma check_async_None:
  assumes "set ks = edge_key ` set (Edges g)"
  shows "first_error (check_async ks) (map node_key (Nodes g)) = None \<longleftrightarrow> async_ok g"
  by (auto simp: first_error_None_iff check_async_def async_ok_def assms node_key_def)

section \<open>The searches return\<close>

lemma check_nodes_Diverged: "check_nodes known ord ns \<noteq> Inl Diverged"
  by (induction ns arbitrary: ord) (auto simp: Let_def)

lemma check_edge_Diverged: "check_edge reg nodes ks e \<noteq> Inl Diverged"
  by (auto simp: check_edge_def Let_def)

lemma check_legacy_edge_Diverged: "check_legacy_edge nodes ks e \<noteq> Inl Diverged"
  by (auto simp: check_legacy_edge_def Let_def)

lemma check_edges_Diverged:
  "(\<And>ks e. chk ks e \<noteq> Inl Diverged) \<Longrightarrow> check_edges chk es ks adj \<noteq> Inl Diverged"
  by (induction es arbitrary: ks adj) (auto split: sum.splits)

lemma check_async_Diverged: "first_error (check_async ks) ns \<noteq> Some Diverged"
  by (auto simp: check_async_def dest!: first_error_SomeD split: if_splits)

lemma plan_search_returns:
  fixes g :: PlanGraph
  assumes "check_edges (check_edge reg (map node_key (Nodes g))) (Edges g) [] [] = Inr (ks, adj)"
  shows "visit_all (adj_of (sort_adjacency adj)) (Suc (length (Nodes g)))
    (sort_key (\<lambda>(s, g). (g, s)) (map node_key (Nodes g))) \<noteq> None"
  using plan_search.returns [of "sort_key (\<lambda>(s, g). (g, s)) (map node_key (Nodes g))" "(reg, g)"
      "Suc (length (Nodes g))"] plan_edges_result(1) [OF assms] by auto

lemma legacy_search_returns:
  fixes g :: PlanGraph
  assumes "check_edges (check_legacy_edge (map node_key (Nodes g))) (Edges g) [] [] = Inr (ks, adj)"
  shows "visit_all (adj_of adj) (Suc (length (Nodes g))) (map node_key (Nodes g)) \<noteq> None"
  using legacy_search.returns [of "map node_key (Nodes g)" g "Suc (length (Nodes g))"]
    legacy_edges_result(1) [OF assms] by auto

section \<open>Properties of the validators\<close>

lemma validate_None_iff:
  "validatePlanGraphWithRegistry g reg = None \<longleftrightarrow> plan_graph_ok reg g"
proof (cases "check_nodes knownPhase1Nodes [] (Nodes g)")
  case (Inl err)
  then have "\<not> nodes_ok knownPhase1Nodes g" using check_nodes_ok [of knownPhase1Nodes g] by auto
  with Inl show ?thesis by (simp add: validatePlanGraphWithRegistry_def plan_graph_ok_def)
next
  case (Inr nodes)
  then have n: "nodes_ok knownPhase1Nodes g" "nodes = map node_key (Nodes g)"
    using check_nodes_ok [of knownPhase1Nodes g] by auto
  note iff = plan_edges_ok [of reg "map node_key (Nodes g)" "Edges g"]
  show ?thesis
  proof (cases "check_edges (check_edge reg nodes) (Edges g) [] []")
    case (Inl err)
    with Inr iff show ?thesis
      by (auto simp: validatePlanGraphWithRegistry_def plan_graph_ok_def n(2))
  next
    case edges: (Inr r)
    obtain ks adj where r: "r = (ks, adj)" by (cases r)
    note res = plan_edges_result [OF edges [unfolded r n(2)]]
    have "(\<exists>st. visit_all (adj_of (sort_adjacency adj)) (Suc (length nodes))
        (sort_key (\<lambda>(s, g). (g, s)) nodes) = Some (Inr st)) \<longleftrightarrow> acyclic (graph_rel g)"
      using plan_search.success_iff_acyclic
        [of "sort_key (\<lambda>(s, g). (g, s)) nodes" "(reg, g)" "Suc (length nodes)"]
        cover_roots [of reg g] res(3)
      by (simp add: n(2) res(1))
    then show ?thesis
      using Inr edges r iff n check_async_None [OF res(2)]
      by (auto simp: validatePlanGraphWithRegistry_def plan_graph_ok_def search_error_None
          split: option.splits)
  qed
qed

text \<open>C0: \<open>ValidatePlanGraph\<close> accepts exactly the well-formed plan graphs: known node types in
  positive generations without duplicates, edges between two different nodes of one generation
  that the registry allows, no duplicate edge, a success edge to \<open>media_visible\<close> from every
  asynchronous node, and no cycle.\<close>

theorem ValidatePlanGraph_exact:
  "validatePlanGraphWithRegistry g reg = None \<longleftrightarrow> plan_graph_ok reg g"
  by (rule validate_None_iff)

text \<open>C0: The graph validators always return: the search never runs out of its bound, whatever
  the graph, cyclic ones included.\<close>

theorem ValidatePlanGraph_returns:
  "validatePlanGraphWithRegistry g reg \<noteq> Some Diverged \<and> validateLegacyV2Graph g \<noteq> Some Diverged"
proof
  show "validatePlanGraphWithRegistry g reg \<noteq> Some Diverged"
    unfolding validatePlanGraphWithRegistry_def
    using plan_search_returns [of reg g] check_nodes_Diverged check_async_Diverged
      check_edges_Diverged [OF check_edge_Diverged]
    by (auto simp: search_error_Diverged check_nodes_ok split: sum.splits option.splits)
  show "validateLegacyV2Graph g \<noteq> Some Diverged"
    unfolding validateLegacyV2Graph_def
    using legacy_search_returns [of g] check_nodes_Diverged
      check_edges_Diverged [OF check_legacy_edge_Diverged]
    by (auto simp: search_error_Diverged check_nodes_ok split: sum.splits)
qed

text \<open>C0: \<open>validateLegacyV2Graph\<close> accepts exactly the acyclic graphs over the legacy step types
  whose edges join different nodes of one generation, without duplicates.\<close>

theorem validateLegacyV2Graph_exact:
  "validateLegacyV2Graph g = None \<longleftrightarrow> legacy_graph_ok g"
proof (cases "check_nodes known_legacy [] (Nodes g)")
  case (Inl err)
  then have "\<not> nodes_ok known_legacy g" using check_nodes_ok [of known_legacy g] by auto
  with Inl show ?thesis by (simp add: validateLegacyV2Graph_def legacy_graph_ok_def)
next
  case (Inr nodes)
  then have n: "nodes_ok known_legacy g" "nodes = map node_key (Nodes g)"
    using check_nodes_ok [of known_legacy g] by auto
  note iff = legacy_edges_ok [of "map node_key (Nodes g)" "Edges g"]
  show ?thesis
  proof (cases "check_edges (check_legacy_edge nodes) (Edges g) [] []")
    case (Inl err)
    with Inr iff show ?thesis by (auto simp: validateLegacyV2Graph_def legacy_graph_ok_def n(2))
  next
    case edges: (Inr r)
    obtain ks adj where r: "r = (ks, adj)" by (cases r)
    note res = legacy_edges_result [OF edges [unfolded r n(2)]]
    have "(\<exists>st. visit_all (adj_of adj) (Suc (length nodes)) nodes = Some (Inr st)) \<longleftrightarrow>
        acyclic (graph_rel g)"
      using legacy_search.success_iff_acyclic [of nodes g "Suc (length nodes)"]
        legacy_cover_roots [of g] res(2)
      by (simp add: n(2) res(1))
    then show ?thesis
      using Inr edges r iff n
      by (auto simp: validateLegacyV2Graph_def legacy_graph_ok_def search_error_None)
  qed
qed

section \<open>Encrypted sources\<close>

type_synonym EncryptedSourceStrategy = string

definition EncryptedSourceStreamDecrypt :: EncryptedSourceStrategy where
  "EncryptedSourceStreamDecrypt = ''stream_decrypt''"
definition EncryptedSourceMaterializeTemp :: EncryptedSourceStrategy where
  "EncryptedSourceMaterializeTemp = ''materialize_temp''"
definition EncryptedSourceDerivative :: EncryptedSourceStrategy where
  "EncryptedSourceDerivative = ''encrypted_derivative''"

lemmas strategy_names = EncryptedSourceStreamDecrypt_def EncryptedSourceMaterializeTemp_def
  EncryptedSourceDerivative_def

record EncryptedSourceContract =
  Strategy :: EncryptedSourceStrategy
  Validated :: bool

record phase1TaskDescriptor =
  async :: bool
  retryAfterPlaintextRetirement :: bool

definition phase1TaskDescriptors :: "(StepType, phase1TaskDescriptor) gmap" where
  "phase1TaskDescriptors =
    (let plain = \<lparr>async = False, retryAfterPlaintextRetirement = False\<rparr>;
         retry = \<lparr>async = False, retryAfterPlaintextRetirement = True\<rparr>;
         asyncRetry = \<lparr>async = True, retryAfterPlaintextRetirement = True\<rparr>;
         asyncOnly = \<lparr>async = True, retryAfterPlaintextRetirement = False\<rparr>
     in
     [(StepPoster, retry), (StepThumbnail, retry), (StepScrape, asyncRetry),
      (StepPreview, asyncRetry), (StepSubtitleExtract, asyncRetry),
      (StepAtrackExtract, asyncRetry), (StepSubtitleRecognize, asyncRetry),
      (StepKeyframeExtract, asyncRetry), (StepAIAnalysis, asyncRetry),
      (StepPrepare, asyncRetry), (StepMediaVisible, plain), (StepEncrypt, plain),
      (StepPackage, asyncOnly), (StepPretranscode, asyncOnly), (StepMetadata, plain)])"

definition requiresEncryptedSourceStrategy :: "StepType \<Rightarrow> bool" where
  "requiresEncryptedSourceStrategy step =
    (case gget phase1TaskDescriptors step of
       None \<Rightarrow> False | Some d \<Rightarrow> retryAfterPlaintextRetirement d)"

text \<open>
  An \<open>EncryptedSourceRegistry\<close> is its \<open>Contract\<close> method, here a function to an option; a nil
  registry holds no contract. \<open>StrategyRegistry\<close> is the map that implements it.
\<close>

type_synonym EncryptedSourceRegistry = "StepType \<Rightarrow> EncryptedSourceContract option"
type_synonym StrategyRegistry = "(StepType, EncryptedSourceContract) gmap"

definition Contract :: "StrategyRegistry \<Rightarrow> EncryptedSourceRegistry" where
  "Contract r step = gget r step"

definition known_strategy :: "EncryptedSourceStrategy \<Rightarrow> bool" where
  "known_strategy s \<longleftrightarrow> s = EncryptedSourceStreamDecrypt \<or> s = EncryptedSourceMaterializeTemp \<or>
     s = EncryptedSourceDerivative"

datatype StrategyError =
    DuplicateSelected StepType
  | LacksStrategy StepType
  | MissingContract StepType
  | InvalidStrategy EncryptedSourceStrategy StepType
  | MustUse StepType EncryptedSourceStrategy EncryptedSourceStrategy

fun select_contracts ::
  "EncryptedSourceRegistry \<Rightarrow> StepType list \<Rightarrow> StepType list \<Rightarrow> StrategyRegistry \<Rightarrow>
   StrategyError + StrategyRegistry" where
  "select_contracts registry [] seen out = Inr out"
| "select_contracts registry (step # rest) seen out =
    (if step \<in> set seen then Inl (DuplicateSelected step)
     else if \<not> requiresEncryptedSourceStrategy step
     then select_contracts registry rest (step # seen) out
     else (case registry step of
             None \<Rightarrow> Inl (LacksStrategy step)
           | Some contract \<Rightarrow>
               if \<not> Validated contract \<or> \<not> known_strategy (Strategy contract)
               then Inl (LacksStrategy step)
               else select_contracts registry rest (step # seen) (gput step contract out)))"

definition ValidateEncryptedSourceContracts ::
  "StepType list \<Rightarrow> bool \<Rightarrow> EncryptedSourceRegistry \<Rightarrow> StrategyError + StrategyRegistry" where
  "ValidateEncryptedSourceContracts selected cleanupEligible registry =
    (if \<not> cleanupEligible then Inr [] else select_contracts registry selected [] [])"

definition DefaultEncryptedSourceStrategies :: StrategyRegistry where
  "DefaultEncryptedSourceStrategies =
    (let c = (\<lambda>s. \<lparr>Strategy = s, Validated = True\<rparr>) in
     [(StepPoster, c EncryptedSourceDerivative), (StepThumbnail, c EncryptedSourceDerivative),
      (StepScrape, c EncryptedSourceDerivative), (StepPreview, c EncryptedSourceStreamDecrypt),
      (StepSubtitleExtract, c EncryptedSourceStreamDecrypt),
      (StepAtrackExtract, c EncryptedSourceStreamDecrypt),
      (StepSubtitleRecognize, c EncryptedSourceStreamDecrypt),
      (StepKeyframeExtract, c EncryptedSourceStreamDecrypt),
      (StepAIAnalysis, c EncryptedSourceDerivative),
      (StepPrepare, c EncryptedSourceStreamDecrypt)])"

text \<open>The body of the loop over the defaults; their order is that of the \<open>range\<close>.\<close>

definition check_strategy ::
  "EncryptedSourceRegistry \<Rightarrow> StepType \<times> EncryptedSourceContract \<Rightarrow> StrategyError option" where
  "check_strategy registry def_entry =
    (let step = fst def_entry in
     case registry step of
       None \<Rightarrow> Some (MissingContract step)
     | Some contract \<Rightarrow>
         if \<not> Validated contract then Some (MissingContract step)
         else if \<not> known_strategy (Strategy contract)
         then Some (InvalidStrategy (Strategy contract) step)
         else if Strategy contract \<noteq> Strategy (snd def_entry)
         then Some (MustUse step (Strategy (snd def_entry)) (Strategy contract))
         else None)"

definition ValidateStrategyRegistry :: "EncryptedSourceRegistry \<Rightarrow> StrategyError option" where
  "ValidateStrategyRegistry registry =
    first_error (check_strategy registry) DefaultEncryptedSourceStrategies"

section \<open>Capabilities and attempts\<close>

type_synonym CapabilityMatrix = "string list"

definition NewCapabilityMatrix :: "string list \<Rightarrow> CapabilityMatrix" where
  "NewCapabilityMatrix steps = filter (\<lambda>step. step \<noteq> '''') steps"

definition Available :: "CapabilityMatrix \<Rightarrow> string \<Rightarrow> bool" where
  "Available m step = (if step = '''' then False else step \<in> set m)"

definition DefaultLocalMaxAttempts :: int where "DefaultLocalMaxAttempts = 1"
definition DefaultNetworkMaxAttempts :: int where "DefaultNetworkMaxAttempts = 3"

text \<open>
  \<open>strings.ToLower\<close> on the letters of ASCII; it is compared with \<open>scrape\<close> only, none of whose
  letters is the lower case of a rune outside ASCII.
\<close>

definition ascii_lower :: "char \<Rightarrow> char" where
  "ascii_lower c =
    (let n = (of_char c :: nat) in if 65 \<le> n \<and> n \<le> 90 then char_of (n + 32) else c)"

definition DefaultMaxAttempts :: "string \<Rightarrow> int" where
  "DefaultMaxAttempts stepType =
    (if map ascii_lower (TrimSpace stepType) = StepScrape
     then DefaultNetworkMaxAttempts else DefaultLocalMaxAttempts)"

section \<open>Properties of the contracts\<close>

lemma select_contracts_Inr:
  assumes "\<And>s. requiresEncryptedSourceStrategy s \<Longrightarrow>
    \<exists>c. registry s = Some c \<and> Validated c \<and> known_strategy (Strategy c)"
    and "distinct selected" and "set selected \<inter> set seen = {}"
  shows "\<exists>out'. select_contracts registry selected seen out = Inr out' \<and>
    (\<forall>s. gget out' s = (if s \<in> set selected \<and> requiresEncryptedSourceStrategy s
                        then registry s else gget out s))"
  using assms(2,3)
proof (induction selected arbitrary: seen out)
  case (Cons s selected)
  show ?case
  proof (cases "requiresEncryptedSourceStrategy s")
    case True
    with assms(1) obtain c where c: "registry s = Some c" "Validated c" "known_strategy (Strategy c)"
      by blast
    from Cons.IH [of "s # seen" "gput s c out"] Cons.prems True c show ?thesis by auto
  next
    case False
    with Cons.IH [of "s # seen" out] Cons.prems show ?thesis by auto
  qed
qed simp

lemma requires_iff_default:
  "requiresEncryptedSourceStrategy s \<longleftrightarrow> s \<in> fst ` set DefaultEncryptedSourceStrategies"
  unfolding requiresEncryptedSourceStrategy_def phase1TaskDescriptors_def
    DefaultEncryptedSourceStrategies_def Let_def
  by (simp add: gget_Cons step_names)

lemma registry_accepted:
  assumes "ValidateStrategyRegistry registry = None" and "requiresEncryptedSourceStrategy s"
  shows "\<exists>c. registry s = Some c \<and> Validated c \<and> known_strategy (Strategy c)"
proof -
  from assms(2) obtain d where d: "d \<in> set DefaultEncryptedSourceStrategies" "fst d = s"
    unfolding requires_iff_default by blast
  with assms(1) have "check_strategy registry d = None"
    by (simp add: ValidateStrategyRegistry_def first_error_None_iff)
  with d(2) show ?thesis
    by (auto simp: check_strategy_def Let_def split: option.splits if_splits)
qed

text \<open>C0: A registry that passes \<open>ValidateStrategyRegistry\<close> never makes a cleanup-eligible plan
  fail: for a selection without duplicates the contracts are found, one for each selected step
  that is retried after its plaintext source is gone, and none for the others.\<close>

theorem validated_registry_serves_plans:
  assumes "ValidateStrategyRegistry registry = None" and "distinct selected"
  shows "\<exists>out. ValidateEncryptedSourceContracts selected True registry = Inr out \<and>
    (\<forall>s. gget out s = (if s \<in> set selected \<and> requiresEncryptedSourceStrategy s
                       then registry s else None))"
  using select_contracts_Inr [where registry = registry and seen = "[]" and out = "[]",
      OF registry_accepted [OF assms(1)] assms(2)]
  by (simp add: ValidateEncryptedSourceContracts_def cong: if_cong)

lemma default_registry_accepted:
  "ValidateStrategyRegistry (Contract DefaultEncryptedSourceStrategies) = None"
  unfolding ValidateStrategyRegistry_def first_error_None_iff
  by (simp add: DefaultEncryptedSourceStrategies_def Let_def check_strategy_def Contract_def
      gget_Cons step_names known_strategy_def)

theorem validated_registry_serves_plans_witness:
  "\<exists>out. ValidateEncryptedSourceContracts [StepPoster, StepEncrypt, StepPreview] True
      (Contract DefaultEncryptedSourceStrategies) = Inr out \<and>
    gget out StepPreview = Some \<lparr>Strategy = EncryptedSourceStreamDecrypt, Validated = True\<rparr> \<and>
    gget out StepEncrypt = None"
  using validated_registry_serves_plans [OF default_registry_accepted,
      of "[StepPoster, StepEncrypt, StepPreview]"]
  by (auto simp: step_names requires_iff_default)
    (auto simp: Contract_def DefaultEncryptedSourceStrategies_def Let_def gget_Cons step_names)

end
