(* ===== verification/Lib_Processing.thy ===== *)
theory Lib_Processing
  imports Vauldy_Prelude
begin

text \<open>
  Processing options of a library (\<open>internal/libraryprocessing/options.go\<close>): the options,
  their names, the dependency closure \<open>Close\<close> with its provenance, and \<open>RequiredBy\<close>.

  The closure is specified by \<open>option_rules\<close>, the table of direct dependencies per media
  family: \<open>Close_least\<close> shows that the statements of \<open>Close\<close>, executed once in their order,
  reach the least option set above the explicit one that satisfies every rule.
\<close>

section \<open>Options and their names\<close>

definition OptionPreview :: string where "OptionPreview = ''preview''"
definition OptionSubtitleExtract :: string where "OptionSubtitleExtract = ''subtitle_extract''"
definition OptionATrackExtract :: string where "OptionATrackExtract = ''atrack_extract''"
definition OptionSubtitleRecognize :: string where
  "OptionSubtitleRecognize = ''subtitle_recognize''"
definition OptionKeyframeExtract :: string where "OptionKeyframeExtract = ''keyframe_extract''"
definition OptionAIAnalysis :: string where "OptionAIAnalysis = ''ai_analysis''"
definition OptionLyricRecognize :: string where "OptionLyricRecognize = ''lyric_recognize''"
definition OptionAudioAnalysis :: string where "OptionAudioAnalysis = ''audio_analysis''"
definition OptionPhotoClassify :: string where "OptionPhotoClassify = ''photo_classify''"
definition OptionPhotoGeocode :: string where "OptionPhotoGeocode = ''photo_geocode''"
definition OptionPhotoFace :: string where "OptionPhotoFace = ''photo_face''"
definition OptionImageOCR :: string where "OptionImageOCR = ''image_ocr''"
definition OptionDocumentConvert :: string where "OptionDocumentConvert = ''document_convert''"
definition OptionDocumentFulltext :: string where "OptionDocumentFulltext = ''document_fulltext''"

lemmas option_names = OptionPreview_def OptionSubtitleExtract_def OptionATrackExtract_def
  OptionSubtitleRecognize_def OptionKeyframeExtract_def OptionAIAnalysis_def
  OptionLyricRecognize_def OptionAudioAnalysis_def OptionPhotoClassify_def
  OptionPhotoGeocode_def OptionPhotoFace_def OptionImageOCR_def OptionDocumentConvert_def
  OptionDocumentFulltext_def

record Options =
  Preview :: bool
  SubtitleExtract :: bool
  ATrackExtract :: bool
  SubtitleRecognize :: bool
  KeyframeExtract :: bool
  AIAnalysis :: bool
  LyricRecognize :: bool
  AudioAnalysis :: bool
  PhotoClassify :: bool
  PhotoGeocode :: bool
  PhotoFace :: bool
  ImageOCR :: bool
  DocumentConvert :: bool
  DocumentFulltext :: bool

record Provenance =
  Explicit :: "string list"
  DependencyAdded :: "string list"

definition allOptionNames :: "string list" where
  "allOptionNames =
    [OptionPreview, OptionSubtitleExtract, OptionATrackExtract, OptionSubtitleRecognize,
     OptionKeyframeExtract, OptionAIAnalysis, OptionLyricRecognize, OptionAudioAnalysis,
     OptionPhotoClassify, OptionPhotoGeocode, OptionPhotoFace, OptionImageOCR,
     OptionDocumentConvert, OptionDocumentFulltext]"

definition OptionEnabled :: "Options \<Rightarrow> string \<Rightarrow> bool" where
  "OptionEnabled options option =
    (if option = OptionPreview then Preview options
     else if option = OptionSubtitleExtract then SubtitleExtract options
     else if option = OptionATrackExtract then ATrackExtract options
     else if option = OptionSubtitleRecognize then SubtitleRecognize options
     else if option = OptionKeyframeExtract then KeyframeExtract options
     else if option = OptionAIAnalysis then AIAnalysis options
     else if option = OptionLyricRecognize then LyricRecognize options
     else if option = OptionAudioAnalysis then AudioAnalysis options
     else if option = OptionPhotoClassify then PhotoClassify options
     else if option = OptionPhotoGeocode then PhotoGeocode options
     else if option = OptionPhotoFace then PhotoFace options
     else if option = OptionImageOCR then ImageOCR options
     else if option = OptionDocumentConvert then DocumentConvert options
     else if option = OptionDocumentFulltext then DocumentFulltext options
     else False)"

definition enabledOptionNames :: "Options \<Rightarrow> string list" where
  "enabledOptionNames options = sort (filter (OptionEnabled options) allOptionNames)"

section \<open>The closure\<close>

text \<open>The statements of one case of the \<open>switch\<close>, in their order.\<close>

definition close_video :: "Options \<Rightarrow> Options" where
  "close_video o0 =
    (let o1 = (if AIAnalysis o0 then o0\<lparr>SubtitleRecognize := True, KeyframeExtract := True\<rparr> else o0)
     in if SubtitleRecognize o1 then o1\<lparr>SubtitleExtract := True, ATrackExtract := True\<rparr> else o1)"

definition close_audio :: "Options \<Rightarrow> Options" where
  "close_audio o0 = (if AIAnalysis o0 then o0\<lparr>LyricRecognize := True\<rparr> else o0)"

definition close_image :: "Options \<Rightarrow> Options" where
  "close_image o0 =
    (if AIAnalysis o0
     then o0\<lparr>PhotoClassify := True, PhotoGeocode := True, PhotoFace := True\<rparr> else o0)"

definition close_document :: "Options \<Rightarrow> Options" where
  "close_document o0 =
    (let o1 = (if AIAnalysis o0 then o0\<lparr>DocumentFulltext := True\<rparr> else o0);
         o2 = (if ImageOCR o1 then o1\<lparr>DocumentFulltext := True\<rparr> else o1);
         o3 = (if DocumentFulltext o2 then o2\<lparr>DocumentConvert := True\<rparr> else o2)
     in if DocumentConvert o3 then o3\<lparr>DocumentFulltext := True\<rparr> else o3)"

definition video_types :: "string list" where
  "video_types = [''movie'', ''tv'', ''video'', ''anime'']"
definition audio_types :: "string list" where
  "audio_types = [''music'', ''audio'', ''podcast'']"
definition image_types :: "string list" where
  "image_types = [''photo'', ''image'', ''picture'']"
definition document_types :: "string list" where
  "document_types = [''document'', ''book'', ''ebook'']"

lemmas family_types = video_types_def audio_types_def image_types_def document_types_def

definition Close :: "string \<Rightarrow> Options \<Rightarrow> Options \<times> Provenance" where
  "Close typ explicit =
    (let effective =
          (if typ \<in> set video_types then close_video explicit
           else if typ \<in> set audio_types then close_audio explicit
           else if typ \<in> set image_types then close_image explicit
           else if typ \<in> set document_types then close_document explicit
           else explicit)
     in (effective,
         \<lparr>Explicit = enabledOptionNames explicit,
          DependencyAdded =
            filter (\<lambda>option. \<not> OptionEnabled explicit option) (enabledOptionNames effective)\<rparr>))"

definition RequiredBy :: "Options \<Rightarrow> string \<Rightarrow> string list" where
  "RequiredBy effective option =
    (let ai = (if AIAnalysis effective then [OptionAIAnalysis] else []) in
     sort
      (if option = OptionSubtitleExtract \<or> option = OptionATrackExtract
       then (if SubtitleRecognize effective then [OptionSubtitleRecognize] else [])
       else if option = OptionSubtitleRecognize then ai
       else if option = OptionLyricRecognize then ai
       else if option = OptionAudioAnalysis then ai
       else if option = OptionPhotoClassify \<or> option = OptionPhotoGeocode \<or>
               option = OptionPhotoFace then ai
       else if option = OptionDocumentFulltext
       then ai @ (if ImageOCR effective then [OptionImageOCR] else [])
       else if option = OptionDocumentConvert
       then (if DocumentFulltext effective then [OptionDocumentFulltext] else [])
       else []))"

section \<open>Specification\<close>

text \<open>The direct dependencies of each family: an enabled left side enables the right side.\<close>

definition option_rules :: "string \<Rightarrow> (string \<times> string) list" where
  "option_rules typ =
    (if typ \<in> set video_types then
       [(OptionAIAnalysis, OptionSubtitleRecognize), (OptionAIAnalysis, OptionKeyframeExtract),
        (OptionSubtitleRecognize, OptionSubtitleExtract),
        (OptionSubtitleRecognize, OptionATrackExtract)]
     else if typ \<in> set audio_types then [(OptionAIAnalysis, OptionLyricRecognize)]
     else if typ \<in> set image_types then
       [(OptionAIAnalysis, OptionPhotoClassify), (OptionAIAnalysis, OptionPhotoGeocode),
        (OptionAIAnalysis, OptionPhotoFace)]
     else if typ \<in> set document_types then
       [(OptionAIAnalysis, OptionDocumentFulltext), (OptionImageOCR, OptionDocumentFulltext),
        (OptionDocumentFulltext, OptionDocumentConvert),
        (OptionDocumentConvert, OptionDocumentFulltext)]
     else [])"

definition rules_hold :: "string \<Rightarrow> Options \<Rightarrow> bool" where
  "rules_hold typ options =
    list_all (\<lambda>(a, b). OptionEnabled options a \<longrightarrow> OptionEnabled options b) (option_rules typ)"

definition options_le :: "Options \<Rightarrow> Options \<Rightarrow> bool" where
  "options_le o1 o2 =
    list_all (\<lambda>n. OptionEnabled o1 n \<longrightarrow> OptionEnabled o2 n) allOptionNames"

lemma enabled_simps [simp]:
  "OptionEnabled o1 OptionPreview = Preview o1"
  "OptionEnabled o1 OptionSubtitleExtract = SubtitleExtract o1"
  "OptionEnabled o1 OptionATrackExtract = ATrackExtract o1"
  "OptionEnabled o1 OptionSubtitleRecognize = SubtitleRecognize o1"
  "OptionEnabled o1 OptionKeyframeExtract = KeyframeExtract o1"
  "OptionEnabled o1 OptionAIAnalysis = AIAnalysis o1"
  "OptionEnabled o1 OptionLyricRecognize = LyricRecognize o1"
  "OptionEnabled o1 OptionAudioAnalysis = AudioAnalysis o1"
  "OptionEnabled o1 OptionPhotoClassify = PhotoClassify o1"
  "OptionEnabled o1 OptionPhotoGeocode = PhotoGeocode o1"
  "OptionEnabled o1 OptionPhotoFace = PhotoFace o1"
  "OptionEnabled o1 OptionImageOCR = ImageOCR o1"
  "OptionEnabled o1 OptionDocumentConvert = DocumentConvert o1"
  "OptionEnabled o1 OptionDocumentFulltext = DocumentFulltext o1"
  by (simp_all add: OptionEnabled_def option_names)

lemma enabled_known: "OptionEnabled o1 n \<Longrightarrow> n \<in> set allOptionNames"
  by (auto simp: OptionEnabled_def allOptionNames_def split: if_splits)

lemma distinct_allOptionNames: "distinct allOptionNames"
  by (simp add: allOptionNames_def option_names)

lemma set_enabledOptionNames: "set (enabledOptionNames o1) = {n. OptionEnabled o1 n}"
  by (auto simp: enabledOptionNames_def enabled_known)

lemma options_le_iff:
  "options_le o1 o2 \<longleftrightarrow>
   (Preview o1 \<longrightarrow> Preview o2) \<and> (SubtitleExtract o1 \<longrightarrow> SubtitleExtract o2) \<and>
   (ATrackExtract o1 \<longrightarrow> ATrackExtract o2) \<and> (SubtitleRecognize o1 \<longrightarrow> SubtitleRecognize o2) \<and>
   (KeyframeExtract o1 \<longrightarrow> KeyframeExtract o2) \<and> (AIAnalysis o1 \<longrightarrow> AIAnalysis o2) \<and>
   (LyricRecognize o1 \<longrightarrow> LyricRecognize o2) \<and> (AudioAnalysis o1 \<longrightarrow> AudioAnalysis o2) \<and>
   (PhotoClassify o1 \<longrightarrow> PhotoClassify o2) \<and> (PhotoGeocode o1 \<longrightarrow> PhotoGeocode o2) \<and>
   (PhotoFace o1 \<longrightarrow> PhotoFace o2) \<and> (ImageOCR o1 \<longrightarrow> ImageOCR o2) \<and>
   (DocumentConvert o1 \<longrightarrow> DocumentConvert o2) \<and> (DocumentFulltext o1 \<longrightarrow> DocumentFulltext o2)"
  by (simp add: options_le_def allOptionNames_def)

lemmas close_defs = Close_def close_video_def close_audio_def close_image_def close_document_def
  Let_def

section \<open>Properties\<close>

text \<open>C0: \<open>Close\<close> computes the least option set that contains the explicit options and
  satisfies every dependency of the library's media family: it keeps what was asked for, the
  result satisfies the rules, and every option set with both properties contains it.\<close>

theorem Close_least:
  "options_le explicit (fst (Close typ explicit)) \<and> rules_hold typ (fst (Close typ explicit)) \<and>
   (\<forall>other. options_le explicit other \<and> rules_hold typ other
      \<longrightarrow> options_le (fst (Close typ explicit)) other)"
proof -
  consider "typ \<in> set video_types" | "typ \<notin> set video_types" "typ \<in> set audio_types"
    | "typ \<notin> set video_types" "typ \<notin> set audio_types" "typ \<in> set image_types"
    | "typ \<notin> set video_types" "typ \<notin> set audio_types" "typ \<notin> set image_types"
        "typ \<in> set document_types"
    | "typ \<notin> set video_types" "typ \<notin> set audio_types" "typ \<notin> set image_types"
        "typ \<notin> set document_types"
    by blast
  then show ?thesis
    by cases (simp_all add: options_le_iff rules_hold_def option_rules_def close_defs)
qed

theorem Close_least_witness:
  "let e = \<lparr>Preview = True, SubtitleExtract = False, ATrackExtract = False,
       SubtitleRecognize = False, KeyframeExtract = False, AIAnalysis = True,
       LyricRecognize = False, AudioAnalysis = False, PhotoClassify = False,
       PhotoGeocode = False, PhotoFace = False, ImageOCR = False, DocumentConvert = False,
       DocumentFulltext = False\<rparr>;
     e' = e\<lparr>SubtitleExtract := True, ATrackExtract := True, SubtitleRecognize := True,
       KeyframeExtract := True\<rparr>
   in fst (Close ''movie'' e) = e' \<and> options_le (fst (Close ''movie'' e)) e'"
  using Close_least [of "\<lparr>Preview = True, SubtitleExtract = False, ATrackExtract = False,
       SubtitleRecognize = False, KeyframeExtract = False, AIAnalysis = True,
       LyricRecognize = False, AudioAnalysis = False, PhotoClassify = False,
       PhotoGeocode = False, PhotoFace = False, ImageOCR = False, DocumentConvert = False,
       DocumentFulltext = False\<rparr>" "''movie''"]
  by (simp add: options_le_iff rules_hold_def option_rules_def close_defs family_types)

text \<open>C0: The provenance of a closure splits its options: the two sorted lists are disjoint
  and free of duplicates, the first names the options asked for, and together they name the
  effective options.\<close>

theorem Close_provenance:
  fixes family :: string and explicit :: Options
  defines "prov \<equiv> snd (Close family explicit)"
  shows "distinct (Explicit prov @ DependencyAdded prov)"
    and "sorted (Explicit prov) \<and> sorted (DependencyAdded prov)"
    and "set (Explicit prov) = {n. OptionEnabled explicit n}"
    and "set (Explicit prov) \<union> set (DependencyAdded prov) =
         {n. OptionEnabled (fst (Close family explicit)) n}"
proof -
  have le: "options_le explicit (fst (Close family explicit))"
    by (simp add: options_le_iff close_defs)
  have E: "Explicit prov = enabledOptionNames explicit"
    and D: "DependencyAdded prov = filter (\<lambda>option. \<not> OptionEnabled explicit option)
              (enabledOptionNames (fst (Close family explicit)))"
    by (simp_all add: prov_def Close_def Let_def)
  show "distinct (Explicit prov @ DependencyAdded prov)"
    by (auto simp: E D set_enabledOptionNames)
      (auto simp: enabledOptionNames_def distinct_allOptionNames)
  show "sorted (Explicit prov) \<and> sorted (DependencyAdded prov)"
    by (simp add: E D enabledOptionNames_def sorted_wrt_filter)
  show "set (Explicit prov) = {n. OptionEnabled explicit n}"
    by (simp add: E set_enabledOptionNames)
  have "OptionEnabled explicit n \<Longrightarrow> OptionEnabled (fst (Close family explicit)) n" for n
    using le by (auto simp: options_le_def list_all_iff dest: enabled_known)
  then show "set (Explicit prov) \<union> set (DependencyAdded prov) =
      {n. OptionEnabled (fst (Close family explicit)) n}"
    by (auto simp: E D set_enabledOptionNames)
qed



end
