(* ===== verification/Ingest_Store.thy ===== *)
theory Ingest_Store
  imports Plan_Graph Lib_Processing
begin

text \<open>
  The tables behind ingest publication (\<open>internal/store\<close>: \<open>mediaIngestRunSchema\<close>,
  \<open>mediaIngestStepPhase5Schema\<close>, \<open>postIngestTaskPublicationSchema\<close>,
  \<open>scrapeTaskPublicationSchema\<close>, \<open>canonicalIngestDependencySchema\<close>,
  \<open>canonicalPlanCompletionSchema\<close>), as lists of rows in row-id order, and the configuration
  snapshot stored with a run.

  Columns that no modelled statement reads are left out: \<open>created_at\<close>, \<open>updated_at\<close> and the
  descriptive columns. A nullable column is an option. \<open>CURRENT_TIMESTAMP\<close> is the argument
  \<open>now\<close> of a statement. The three queue tables share one row type: \<open>q_error\<close> is \<open>last_error\<close>
  (\<open>message\<close>, \<open>error_message\<close>), \<open>q_finished\<close> is \<open>finished_at\<close> (\<open>completed_at\<close> of
  \<open>transcode_task\<close>), and \<open>q_attempts\<close> is \<open>attempts\<close> (\<open>fail_count\<close> of \<open>scrape_task\<close>). The table
  \<open>pretranscode_rendition_job\<close> exists in commercial builds only, so it is an option.
  A \<open>CHECK\<close> on the values of a column is its datatype, or the invariant \<open>step_status_ok\<close>;
  a \<open>UNIQUE\<close> constraint makes an insert fail.
\<close>

section \<open>Run states, statuses, reasons\<close>

datatype State = StateProcessing | StatePublished | StateDegraded | StateFailed | StateCancelled

datatype status = S_waiting | S_running | S_done | S_skipped | S_failed | S_cancelled
  | S_abandoned | S_paused

definition terminal_statuses :: "status list" where
  "terminal_statuses = [S_done, S_skipped, S_failed, S_cancelled]"

definition active_statuses :: "status list" where
  "active_statuses = [S_waiting, S_running]"

type_synonym PlanReason = string

definition PlanReasonScan :: PlanReason where "PlanReasonScan = ''scan''"
definition PlanReasonRepair :: PlanReason where "PlanReasonRepair = ''repair''"
definition PlanReasonManualRetry :: PlanReason where "PlanReasonManualRetry = ''manual_retry''"
definition PlanReasonEvent :: PlanReason where "PlanReasonEvent = ''event''"
definition PlanReasonUpload :: PlanReason where "PlanReasonUpload = ''upload''"
definition PlanReasonSourceReplaced :: PlanReason where
  "PlanReasonSourceReplaced = ''source_replaced''"

lemmas reason_names = PlanReasonScan_def PlanReasonRepair_def PlanReasonManualRetry_def
  PlanReasonEvent_def PlanReasonUpload_def PlanReasonSourceReplaced_def

section \<open>Error texts\<close>

text \<open>
  \<open>last_error\<close> holds a message, or the JSON of an \<open>impossibleDependencyReason\<close>, which the code
  writes with \<open>json.Marshal\<close> and reads back with \<open>json.Unmarshal\<close>: that text is kept as the
  value it encodes. \<open>err_string\<close> is the text of either, with an encoder for the latter.
\<close>

record impossibleDependencyReason =
  PredecessorID :: int
  PredecessorType :: StepType
  PredecessorState :: status
  reason_Kind :: DependencyKind
  reason_RetryRound :: int
  reason_Generation :: int

datatype err_text = Text string | Impossible impossibleDependencyReason

definition no_error :: err_text where "no_error = Text []"

text \<open>\<open>TRIM(COALESCE(e,)) = \<close>: SQLite trims spaces.\<close>

definition sql_blank :: "err_text \<Rightarrow> bool" where
  "sql_blank e = (case e of Text t \<Rightarrow> list_all (\<lambda>c. c = CHR 0x20) t | Impossible _ \<Rightarrow> False)"

section \<open>Rows\<close>

record MetadataAttempt =
  Attempted :: bool
  Fields :: "string list"
  Errors :: "(string \<times> string) list"

record EncryptionCleanupBasis =
  basis_Encryption :: bool
  basis_Package :: bool
  basis_CleanupEligible :: bool

record ConfigSnapshot =
  PolicyVersion :: int
  snap_LibraryID :: int
  snap_FileType :: string
  ProcessingExplicit :: Options
  ProcessingEffective :: Options
  ProcessingProvenance :: Provenance
  LegacyOptionDefaults :: "string list"
  EncryptedSourceStrategies :: StrategyRegistry
  CleanupBasis :: EncryptionCleanupBasis
  PreviewExtract :: bool
  snap_SubtitleAuto :: bool
  snap_ATrackAuto :: bool
  snap_Encrypt :: bool
  snap_Prepare :: bool
  snap_Steps :: "StepType list"
  snap_Metadata :: MetadataAttempt
  RequiredSteps :: "StepType list"
  OptionalSteps :: "StepType list"
  Dependencies :: "Dependency list"
  Graph :: PlanGraph

record media_row =
  m_id :: int
  m_library :: int
  m_file_type :: "string option"
  m_generation :: int
  m_state :: State
  m_published_at :: "int option"
  m_error :: string
  m_duration :: "int option"

text \<open>The flag columns of a library, by column name; an absent key is NULL.\<close>

record library_row =
  l_id :: int
  l_flags :: "(string, int) gmap"

record scan_row =
  sc_id :: int
  sc_library :: int
  sc_cancelled :: bool

record run_row =
  r_id :: int
  r_media :: int
  r_generation :: int
  r_scan_task :: "int option"
  r_ingest_item :: "int option"
  r_reason :: PlanReason
  r_status :: State
  r_preserve :: bool
  r_snapshot :: ConfigSnapshot
  r_policy_version :: int
  r_terminal_reason :: string
  r_error :: string
  r_superseded_by :: "int option"
  r_superseded_at :: "int option"
  r_finished :: "int option"

record step_row =
  s_id :: int
  s_run :: int
  s_media :: int
  s_generation :: int
  s_type :: StepType
  s_required :: bool
  s_status :: status
  s_attempts :: int
  s_max_attempts :: int
  s_retry_round :: int
  s_lease_owner :: "string option"
  s_lease_until :: "int option"
  s_error :: err_text
  s_started :: "int option"
  s_finished :: "int option"

record dep_row =
  d_step :: int
  d_on :: int
  d_kind :: DependencyKind

record queue_row =
  q_id :: int
  q_media :: int
  q_scan_task :: "int option"
  q_run :: "int option"
  q_step :: "int option"
  q_generation :: "int option"
  q_type :: StepType
  q_status :: status
  q_attempts :: int
  q_max_attempts :: int
  q_retry_round :: int
  q_lease_owner :: "string option"
  q_lease_until :: "int option"
  q_error :: err_text
  q_started :: "int option"
  q_finished :: "int option"
  q_available :: int
  q_removed :: "int option"
  q_priority :: int
  q_source_class :: int
  q_base_priority :: int
  q_library :: "int option"
  q_progress :: int

record job_row =
  j_id :: int
  j_task :: int
  j_status :: status
  j_error :: err_text
  j_progress :: int
  j_lease_owner :: "string option"
  j_lease_until :: "int option"
  j_completed :: "int option"

record completion_row =
  pc_run :: int
  pc_media :: int
  pc_generation :: int
  pc_all_terminal :: bool
  pc_total :: int
  pc_terminal :: int
  pc_waiting :: int
  pc_running :: int
  pc_done :: int
  pc_skipped :: int
  pc_failed :: int
  pc_cancelled :: int
  pc_completed_at :: "int option"

record audit_row =
  a_media :: int
  a_run :: int
  a_step :: int
  a_task :: int
  a_generation :: int
  a_family :: string
  a_type :: string
  a_actor :: int
  a_reason :: string
  a_queue_status :: status
  a_step_status :: status
  a_attempts :: int
  a_queue_error :: err_text
  a_step_error :: err_text
  a_retry_round :: int

text \<open>The domain tables \<open>subtitle_task\<close>, \<open>preview_task\<close>, \<open>atrack_task\<close>, \<open>keyframe_task\<close>: one row
  per media and task type.\<close>

record domain_row =
  t_type :: string
  t_media :: int
  t_status :: "string option"
  t_interval :: int
  t_count :: int

record db =
  medias :: "media_row list"
  libraries :: "library_row list"
  scans :: "scan_row list"
  runs :: "run_row list"
  steps :: "step_row list"
  deps :: "dep_row list"
  posts :: "queue_row list"
  scrapes :: "queue_row list"
  transcodes :: "queue_row list"
  jobs :: "job_row list option"
  completions :: "completion_row list"
  audits :: "audit_row list"
  domains :: "domain_row list"
  next_run :: int
  next_step :: int
  next_queue :: int

section \<open>Selecting rows\<close>

definition media_by_id :: "db \<Rightarrow> int \<Rightarrow> media_row option" where
  "media_by_id d i = find (\<lambda>m. m_id m = i) (medias d)"

definition library_by_id :: "db \<Rightarrow> int \<Rightarrow> library_row option" where
  "library_by_id d i = find (\<lambda>l. l_id l = i) (libraries d)"

definition run_by_id :: "db \<Rightarrow> int \<Rightarrow> run_row option" where
  "run_by_id d i = find (\<lambda>r. r_id r = i) (runs d)"

definition step_by_id :: "db \<Rightarrow> int \<Rightarrow> step_row option" where
  "step_by_id d i = find (\<lambda>s. s_id s = i) (steps d)"

definition run_steps :: "db \<Rightarrow> int \<Rightarrow> step_row list" where
  "run_steps d run = filter (\<lambda>s. s_run s = run) (steps d)"

lemma find_update_other:
  "(\<And>x. P (f x) = P x) \<Longrightarrow> find P (sql_update q f xs) = map_option (\<lambda>x. if q x then f x else x) (find P xs)"
  by (induction xs) (auto simp: sql_update_def)

lemma find_key_distinct:
  assumes "distinct (map key xs)" and "x \<in> set xs"
  shows "find (\<lambda>y. key y = key x) xs = Some x"
  using assms by (induction xs) (auto simp: rev_image_eqI)

section \<open>Invariants of the tables\<close>

definition step_status_ok :: "step_row \<Rightarrow> bool" where
  "step_status_ok s \<longleftrightarrow> s_status s \<in> set (active_statuses @ terminal_statuses)"

text \<open>The constraints of the schema: primary keys, unique constraints, the foreign key of a
  step to its run by id, media and generation, and the ranges of the generated ids.\<close>

definition ingest_ok :: "db \<Rightarrow> bool" where
  "ingest_ok d \<longleftrightarrow>
    distinct (map m_id (medias d)) \<and> distinct (map r_id (runs d)) \<and> distinct (map s_id (steps d)) \<and>
    distinct (map (\<lambda>r. (r_media r, r_generation r)) (runs d)) \<and>
    distinct (map (\<lambda>s. (s_run s, s_type s)) (steps d)) \<and>
    (\<forall>s \<in> set (steps d). step_status_ok s \<and> 0 < s_id s \<and> s_id s < next_step d \<and>
       (\<exists>r \<in> set (runs d). r_id r = s_run s \<and> r_media r = s_media s \<and>
          r_generation r = s_generation s)) \<and>
    (\<forall>r \<in> set (runs d). 0 < r_id r \<and> r_id r < next_run d \<and> 0 < r_generation r) \<and>
    (\<forall>e \<in> set (deps d). \<exists>s \<in> set (steps d). s_id s = d_step e) \<and>
    (\<forall>e \<in> set (deps d). \<exists>s \<in> set (steps d). s_id s = d_on e) \<and>
    0 < next_run d \<and> 0 < next_step d"

section \<open>A sample database\<close>

text \<open>One library with subtitle recognition and AI analysis, one video in generation 0 and the
  scan that found it; no run yet. The witnesses evaluate on it.\<close>

definition sample_media :: media_row where
  "sample_media = \<lparr>m_id = 1, m_library = 7, m_file_type = Some ''video'', m_generation = 0,
    m_state = StateProcessing, m_published_at = None, m_error = [], m_duration = Some 60\<rparr>"

definition sample_library :: library_row where
  "sample_library = \<lparr>l_id = 7, l_flags = [(''preview_extract'', 1), (''ai_analysis'', 1)]\<rparr>"

definition sample_db :: db where
  "sample_db = \<lparr>medias = [sample_media], libraries = [sample_library],
    scans = [\<lparr>sc_id = 5, sc_library = 7, sc_cancelled = False\<rparr>], runs = [], steps = [],
    deps = [], posts = [], scrapes = [], transcodes = [], jobs = None, completions = [],
    audits = [], domains = [], next_run = 1, next_step = 1, next_queue = 1\<rparr>"

lemma sample_lookups:
  "media_by_id sample_db 1 = Some sample_media" "library_by_id sample_db 7 = Some sample_library"
  by (simp_all add: media_by_id_def library_by_id_def sample_db_def sample_media_def
      sample_library_def)

lemma sample_ok: "ingest_ok sample_db"
  by (simp add: ingest_ok_def sample_db_def)

text \<open>The same media in generation 1, with a run whose recognition step failed while the AI
  analysis that depends on it still waits.\<close>

definition sample_step :: "int \<Rightarrow> StepType \<Rightarrow> bool \<Rightarrow> status \<Rightarrow> step_row" where
  "sample_step i typ req st = \<lparr>s_id = i, s_run = 1, s_media = 1, s_generation = 1, s_type = typ,
    s_required = req, s_status = st, s_attempts = 0, s_max_attempts = 1, s_retry_round = 0,
    s_lease_owner = None, s_lease_until = None, s_error = no_error, s_started = None,
    s_finished = None\<rparr>"

definition sample_queue :: "int \<Rightarrow> int \<Rightarrow> StepType \<Rightarrow> status \<Rightarrow> queue_row" where
  "sample_queue i step typ st = \<lparr>q_id = i, q_media = 1, q_scan_task = None, q_run = Some 1,
    q_step = Some step, q_generation = Some 1, q_type = typ, q_status = st, q_attempts = 0,
    q_max_attempts = 1, q_retry_round = 0, q_lease_owner = None, q_lease_until = None,
    q_error = no_error, q_started = None, q_finished = None, q_available = 0, q_removed = None,
    q_priority = 0, q_source_class = 200, q_base_priority = 200, q_library = Some 7,
    q_progress = 0\<rparr>"

definition sample_snapshot :: ConfigSnapshot where
  "sample_snapshot = (let o1 = \<lparr>Preview = False, SubtitleExtract = False, ATrackExtract = False,
      SubtitleRecognize = False, KeyframeExtract = False, AIAnalysis = False,
      LyricRecognize = False, AudioAnalysis = False, PhotoClassify = False, PhotoGeocode = False,
      PhotoFace = False, ImageOCR = False, DocumentConvert = False, DocumentFulltext = False\<rparr> in
    \<lparr>PolicyVersion = 3, snap_LibraryID = 7, snap_FileType = [], ProcessingExplicit = o1,
     ProcessingEffective = o1, ProcessingProvenance = \<lparr>Explicit = [], DependencyAdded = []\<rparr>,
     LegacyOptionDefaults = [], EncryptedSourceStrategies = [],
     CleanupBasis = \<lparr>basis_Encryption = False, basis_Package = False,
       basis_CleanupEligible = False\<rparr>,
     PreviewExtract = False, snap_SubtitleAuto = False, snap_ATrackAuto = False,
     snap_Encrypt = False, snap_Prepare = False, snap_Steps = [],
     snap_Metadata = \<lparr>Attempted = False, Fields = [], Errors = []\<rparr>,
     RequiredSteps = [], OptionalSteps = [], Dependencies = [],
     Graph = \<lparr>Nodes = [], Edges = []\<rparr>\<rparr>)"

definition sample_run :: run_row where
  "sample_run = \<lparr>r_id = 1, r_media = 1, r_generation = 1, r_scan_task = Some 5,
    r_ingest_item = None, r_reason = PlanReasonScan, r_status = StateProcessing,
    r_preserve = False, r_snapshot = sample_snapshot, r_policy_version = 3,
    r_terminal_reason = [], r_error = [], r_superseded_by = None, r_superseded_at = None,
    r_finished = None\<rparr>"

definition sample_run_db :: db where
  "sample_run_db = sample_db\<lparr>medias := [sample_media\<lparr>m_generation := 1\<rparr>], runs := [sample_run],
    steps := [sample_step 1 StepPoster True S_waiting,
      sample_step 2 StepMediaVisible False S_done,
      sample_step 3 StepSubtitleRecognize False S_failed,
      sample_step 4 StepAIAnalysis False S_waiting],
    deps := [\<lparr>d_step = 3, d_on = 2, d_kind = DependencySuccess\<rparr>,
      \<lparr>d_step = 4, d_on = 2, d_kind = DependencySuccess\<rparr>,
      \<lparr>d_step = 4, d_on = 3, d_kind = DependencySuccess\<rparr>],
    posts := [sample_queue 1 1 StepPoster S_waiting,
      sample_queue 2 3 StepSubtitleRecognize S_failed, sample_queue 3 4 StepAIAnalysis S_waiting],
    next_run := 2, next_step := 5, next_queue := 4\<rparr>"

lemmas sample_defs = sample_run_db_def sample_db_def sample_run_def sample_step_def
  sample_queue_def sample_media_def

lemma sample_run_ok: "ingest_ok sample_run_db"
  by (simp add: ingest_ok_def sample_defs step_names step_status_ok_def active_statuses_def
      terminal_statuses_def)

end
