(* ===== verification/Media_Templates.thy ===== *)
theory Media_Templates
  imports Ingest_Store
begin

text \<open>
  Media categories and their plan templates (\<open>publication/media_templates.go\<close>): the steps a
  category always runs, the steps an option enables, and the edges of AI analysis.

  A Go map from option names to steps is ranged over to find one matching entry, so its order
  does not matter; it is an association list.
\<close>

type_synonym MediaFileCategory = string

definition MediaCategoryVideo :: MediaFileCategory where "MediaCategoryVideo = ''video''"
definition MediaCategoryImage :: MediaFileCategory where "MediaCategoryImage = ''image''"
definition MediaCategoryAudio :: MediaFileCategory where "MediaCategoryAudio = ''audio''"
definition MediaCategoryDocument :: MediaFileCategory where "MediaCategoryDocument = ''document''"

lemmas category_names = MediaCategoryVideo_def MediaCategoryImage_def MediaCategoryAudio_def
  MediaCategoryDocument_def

definition ClassifyMediaType :: "string \<Rightarrow> MediaFileCategory" where
  "ClassifyMediaType fileType =
    (if fileType \<in> {''video'', ''movie'', ''tv''} then MediaCategoryVideo
     else if fileType \<in> {''photo'', ''image'', ''picture''} then MediaCategoryImage
     else if fileType \<in> {''music'', ''audio'', ''podcast''} then MediaCategoryAudio
     else if fileType \<in> {''document'', ''book'', ''ebook''} then MediaCategoryDocument
     else fileType)"

definition isMediaCategory :: "string \<Rightarrow> bool" where
  "isMediaCategory fileType \<longleftrightarrow>
    (let c = ClassifyMediaType fileType in
     c = MediaCategoryVideo \<or> c = MediaCategoryImage \<or> c = MediaCategoryAudio \<or>
     c = MediaCategoryDocument)"

record MediaTemplate =
  Category :: MediaFileCategory
  PrimaryRequired :: StepType
  AllRequired :: "StepType list"
  AllOptional :: "StepType list"
  optionStep :: "(string, StepType) gmap"

definition audioTemplate :: MediaTemplate where
  "audioTemplate =
    \<lparr>Category = MediaCategoryAudio, PrimaryRequired = StepPoster, AllRequired = [StepPoster],
     AllOptional = [StepMediaVisible, StepScrape, StepLyricRecognize, StepAudioAnalysis,
       StepAIAnalysis],
     optionStep = [(OptionLyricRecognize, StepLyricRecognize),
       (OptionAudioAnalysis, StepAudioAnalysis), (OptionAIAnalysis, StepAIAnalysis)]\<rparr>"

definition imageTemplate :: MediaTemplate where
  "imageTemplate =
    \<lparr>Category = MediaCategoryImage, PrimaryRequired = StepThumbnail,
     AllRequired = [StepThumbnail],
     AllOptional = [StepMediaVisible, StepScrape, StepPhotoClassify, StepPhotoGeocode,
       StepPhotoFace, StepImageOCR, StepAIAnalysis],
     optionStep = [(OptionPhotoClassify, StepPhotoClassify),
       (OptionPhotoGeocode, StepPhotoGeocode), (OptionPhotoFace, StepPhotoFace),
       (OptionImageOCR, StepImageOCR), (OptionAIAnalysis, StepAIAnalysis)]\<rparr>"

definition documentTemplate :: MediaTemplate where
  "documentTemplate =
    \<lparr>Category = MediaCategoryDocument, PrimaryRequired = StepPoster, AllRequired = [StepPoster],
     AllOptional = [StepMediaVisible, StepScrape, StepDocumentConvert, StepDocumentFulltext,
       StepImageOCR, StepAIAnalysis],
     optionStep = [(OptionDocumentConvert, StepDocumentConvert),
       (OptionDocumentFulltext, StepDocumentFulltext), (OptionImageOCR, StepImageOCR),
       (OptionAIAnalysis, StepAIAnalysis)]\<rparr>"

definition videoTemplate :: MediaTemplate where
  "videoTemplate =
    \<lparr>Category = MediaCategoryVideo, PrimaryRequired = StepPoster, AllRequired = [StepPoster],
     AllOptional = [StepMediaVisible, StepScrape, StepPreview, StepSubtitleExtract,
       StepAtrackExtract, StepSubtitleRecognize, StepKeyframeExtract, StepAIAnalysis],
     optionStep = [(OptionPreview, StepPreview), (OptionSubtitleExtract, StepSubtitleExtract),
       (OptionATrackExtract, StepAtrackExtract),
       (OptionSubtitleRecognize, StepSubtitleRecognize),
       (OptionKeyframeExtract, StepKeyframeExtract), (OptionAIAnalysis, StepAIAnalysis)]\<rparr>"

lemmas template_defs = audioTemplate_def imageTemplate_def documentTemplate_def videoTemplate_def

definition lookupTemplate :: "string \<Rightarrow> MediaTemplate option" where
  "lookupTemplate fileType =
    (let c = ClassifyMediaType fileType in
     if c = MediaCategoryVideo then Some videoTemplate
     else if c = MediaCategoryImage then Some imageTemplate
     else if c = MediaCategoryAudio then Some audioTemplate
     else if c = MediaCategoryDocument then Some documentTemplate
     else None)"

definition enabledSteps :: "MediaTemplate \<Rightarrow> Options \<Rightarrow> StepType list" where
  "enabledSteps t options =
    filter (\<lambda>step. step = StepMediaVisible \<or> step = StepScrape \<or>
        list_ex (\<lambda>(optName, optStep). optStep = step \<and> OptionEnabled options optName) (optionStep t))
      (AllOptional t)"

text \<open>The targets of the AI edges; every edge is \<open>ai_analysis\<close> on success of its target.\<close>

definition ai_targets :: "Options \<Rightarrow> MediaFileCategory \<Rightarrow> StepType list" where
  "ai_targets options category =
    (if \<not> AIAnalysis options then []
     else if category = MediaCategoryVideo then [StepSubtitleRecognize]
     else if category = MediaCategoryAudio then
       (if LyricRecognize options then [StepLyricRecognize] else []) @
       (if AudioAnalysis options then [StepAudioAnalysis] else [])
     else if category = MediaCategoryImage then
       (if PhotoClassify options then [StepPhotoClassify] else []) @
       (if PhotoGeocode options then [StepPhotoGeocode] else []) @
       (if PhotoFace options then [StepPhotoFace] else [])
     else if category = MediaCategoryDocument then
       (if DocumentFulltext options then [StepDocumentFulltext] else [])
     else [])"

definition phase5AIEdges :: "Options \<Rightarrow> MediaFileCategory \<Rightarrow> Dependency list" where
  "phase5AIEdges options category =
    map (\<lambda>t. \<lparr>dep_Step = StepAIAnalysis, dep_Kind = DependencySuccess, dep_DependsOn = Some t,
              dep_Generation = 0, dep_DependsOnGeneration = 0\<rparr>)
      (ai_targets options category)"

datatype TemplateError =
    UnknownRequired StepType MediaFileCategory
  | UnknownOptional StepType MediaFileCategory

definition step_known :: "StepType \<Rightarrow> bool" where
  "step_known step \<longleftrightarrow> step \<in> set knownPhase1Nodes \<or> step \<in> set knownPhase5Nodes"

definition validatePhase5Template :: "MediaTemplate \<Rightarrow> TemplateError option" where
  "validatePhase5Template t =
    first_some
      (map (\<lambda>s. if step_known s then None else Some (UnknownRequired s (Category t))) (AllRequired t) @
       map (\<lambda>s. if step_known s then None else Some (UnknownOptional s (Category t))) (AllOptional t))"

section \<open>Template facts\<close>

lemma templates_valid:
  "lookupTemplate ft = Some t \<Longrightarrow> validatePhase5Template t = None"
  by (auto simp: lookupTemplate_def Let_def validatePhase5Template_def first_error_None_iff
      template_defs step_known_def knownPhase1Nodes_def split: if_splits)

lemma isMediaCategory_template: "isMediaCategory ft \<longleftrightarrow> (\<exists>t. lookupTemplate ft = Some t)"
  by (auto simp: isMediaCategory_def lookupTemplate_def Let_def)

lemma template_shape:
  assumes "lookupTemplate ft = Some t"
  shows "\<exists>p \<in> {StepPoster, StepThumbnail}. AllRequired t = [p]"
    and "\<exists>rest. AllOptional t = StepMediaVisible # StepScrape # rest \<and>
      distinct (StepMediaVisible # StepScrape # rest) \<and>
      set rest \<subseteq> set asyncPhase1Nodes - {StepPrepare}"
  using assms
  by (auto simp: lookupTemplate_def Let_def template_defs asyncPhase1Nodes_def step_names
      split: if_splits)

lemma enabledSteps_Cons:
  assumes "lookupTemplate ft = Some t"
  shows "\<exists>rest. enabledSteps t options = StepMediaVisible # StepScrape # rest \<and>
      distinct (StepMediaVisible # StepScrape # rest) \<and>
      set rest \<subseteq> set asyncPhase1Nodes - {StepPrepare}"
proof -
  obtain rest where r: "AllOptional t = StepMediaVisible # StepScrape # rest"
    "distinct (StepMediaVisible # StepScrape # rest)" "set rest \<subseteq> set asyncPhase1Nodes - {StepPrepare}"
    using template_shape(2) [OF assms] by blast
  show ?thesis
    by (rule exI, rule conjI, simp add: enabledSteps_def r(1)) (use r(2,3) in auto)
qed

end
