(* ===== verification/Plan_Build.thy ===== *)
theory Plan_Build
  imports Media_Templates
begin

text \<open>
  Building an ingest plan (\<open>publication/planner.go\<close>, \<open>buildCurrentPolicyTx\<close>): the policy read
  from the media and library rows, the selected steps, the dependency edges, the graph and the
  configuration snapshot.

  \<open>build_never_invalid\<close> shows that the graph the planner builds always passes the validator
  it is then given to. The prepare planner, the encryption validator, the capability registry
  and the executable adapters are supplied by other packages: they are fields of \<open>PlanOptions\<close>
  and the theorems hold for all of them. Cancellation of the context is not modelled.
\<close>

section \<open>Options and results\<close>

type_synonym prepare_planner = "db \<Rightarrow> int \<Rightarrow> int \<Rightarrow> int \<Rightarrow> int \<Rightarrow> db option"

record PlanOptions =
  opt_SubtitleAuto :: bool
  opt_ATrackAuto :: bool
  opt_EncryptGlobal :: bool
  opt_PreparePlanner :: "prepare_planner option"
  opt_Capabilities :: "(string \<Rightarrow> bool) option"
  opt_ExecutableAdapters :: "(StepType \<Rightarrow> StepType option) option"
  opt_EncryptionValidator :: "(db \<Rightarrow> int \<Rightarrow> bool) option"
  opt_EncryptedSourceStrategies :: EncryptedSourceRegistry

record currentPolicy =
  libraryID :: int
  generation :: int
  fileType :: string
  explicit_options :: Options
  libraryEncrypt :: bool
  jitPrepare :: bool
  cleanupPackage :: bool
  cleanupEncrypted :: bool

record currentPlan =
  plan_mediaID :: int
  plan_scanTaskID :: int
  plan_ingestItemID :: int
  plan_policy :: currentPolicy
  plan_reason :: PlanReason
  plan_preserve :: bool
  plan_required :: "StepType list"
  plan_optional :: "StepType list"
  plan_steps :: "StepType list"
  plan_dependencies :: "Dependency list"
  plan_graph :: PlanGraph
  plan_snapshot :: ConfigSnapshot

datatype PlannerError =
    InvalidMediaId
  | MediaNotFound
  | ScanTaskNotFound
  | ScanTaskOtherLibrary
  | CapabilityUnavailable StepType
  | NoTemplate string
  | InvalidTemplate TemplateError
  | EncryptedLibraryInvalid int
  | InvalidGraph GraphError
  | InvalidStrategies StrategyError
  | InvalidScanTaskId
  | EmptyFileType
  | FileTypeMismatch string string
  | InvalidReplacementReason string
  | GenerationConflict
  | InsertRunConflict
  | InsertStepConflict StepType
  | PrepareFailed
  | EnqueueConflict StepType
  | NoMappedStep StepType
  | NoMappedTarget StepType
  | DependencyMissing
  | DependencyForeign
  | DependencySelf
  | DependencyCycle
  | DependencyConflict
  | SupersedeInvalid
  | SupersedeNoRun

definition hasExecutableAdapter :: "(StepType \<Rightarrow> StepType option) option \<Rightarrow> StepType \<Rightarrow> bool" where
  "hasExecutableAdapter registry step =
    (case registry of
       None \<Rightarrow> False
     | Some reg \<Rightarrow> (case reg step of None \<Rightarrow> False | Some adapter \<Rightarrow> adapter = step))"

section \<open>The policy\<close>

definition flag :: "library_row \<Rightarrow> string \<Rightarrow> bool" where
  "flag l column \<longleftrightarrow> gget0 (l_flags l) column = 1"

definition library_options :: "library_row \<Rightarrow> Options" where
  "library_options l =
    \<lparr>Preview = flag l ''preview_extract'', SubtitleExtract = flag l ''subtitle_extract'',
     ATrackExtract = flag l ''atrack_extract'', SubtitleRecognize = flag l ''subtitle_recognize'',
     KeyframeExtract = flag l ''keyframe_extract'', AIAnalysis = flag l ''ai_analysis'',
     LyricRecognize = flag l ''lyric_recognize'', AudioAnalysis = flag l ''audio_analysis'',
     PhotoClassify = flag l ''photo_classify'', PhotoGeocode = flag l ''photo_geocode'',
     PhotoFace = flag l ''photo_face'', ImageOCR = flag l ''image_ocr'',
     DocumentConvert = flag l ''document_convert'',
     DocumentFulltext = flag l ''document_fulltext''\<rparr>"

definition read_policy :: "db \<Rightarrow> int \<Rightarrow> currentPolicy option" where
  "read_policy d mediaID =
    (case media_by_id d mediaID of
       None \<Rightarrow> None
     | Some m \<Rightarrow>
         (case library_by_id d (m_library m) of
            None \<Rightarrow> None
          | Some l \<Rightarrow>
              Some \<lparr>libraryID = m_library m, generation = m_generation m,
                    fileType = TrimSpace (case m_file_type m of None \<Rightarrow> '''' | Some t \<Rightarrow> t),
                    explicit_options = library_options l,
                    libraryEncrypt = flag l ''encrypted_assets_enabled'',
                    jitPrepare = flag l ''jit_prepare_on_ingest'',
                    cleanupPackage = flag l ''cleanup_local_source_after_package'',
                    cleanupEncrypted = flag l ''encrypted_assets_cleanup_plaintext''\<rparr>))"

text \<open>The check of the scan task's library, for a plan whose reason is a scan.\<close>

definition check_scan :: "db \<Rightarrow> PlanReason \<Rightarrow> int \<Rightarrow> currentPolicy \<Rightarrow> PlannerError option" where
  "check_scan d reason scanTaskID policy =
    (if reason = PlanReasonScan
     then (case find (\<lambda>s. sc_id s = scanTaskID) (scans d) of
             None \<Rightarrow> Some ScanTaskNotFound
           | Some s \<Rightarrow> if sc_library s \<noteq> libraryID policy then Some ScanTaskOtherLibrary else None)
     else None)"

definition no_options :: Options where
  "no_options =
    \<lparr>Preview = False, SubtitleExtract = False, ATrackExtract = False, SubtitleRecognize = False,
     KeyframeExtract = False, AIAnalysis = False, LyricRecognize = False, AudioAnalysis = False,
     PhotoClassify = False, PhotoGeocode = False, PhotoFace = False, ImageOCR = False,
     DocumentConvert = False, DocumentFulltext = False\<rparr>"

record selection =
  sel_explicit :: Options
  sel_effective :: Options
  sel_provenance :: Provenance
  sel_legacy :: "string list"

text \<open>The explicit and effective options, with the legacy defaults of the process options.\<close>

definition select_options :: "PlanOptions \<Rightarrow> currentPolicy \<Rightarrow> selection" where
  "select_options opts policy =
    (let (effective, provenance) = Close (fileType policy) (explicit_options policy);
         addSub = opt_SubtitleAuto opts \<and> \<not> SubtitleExtract effective;
         effective = (if addSub then effective\<lparr>SubtitleExtract := True\<rparr> else effective);
         addTrack = opt_ATrackAuto opts \<and> \<not> ATrackExtract effective;
         effective = (if addTrack then effective\<lparr>ATrackExtract := True\<rparr> else effective);
         legacy = (if addSub then [OptionSubtitleExtract] else []) @
                  (if addTrack then [OptionATrackExtract] else [])
     in
     if fileType policy \<noteq> ''video'' then
       (let (eff, prov) = Close (fileType policy) no_options in
        \<lparr>sel_explicit = no_options, sel_effective = eff, sel_provenance = prov,
         sel_legacy = legacy\<rparr>)
     else \<lparr>sel_explicit = explicit_options policy, sel_effective = effective,
           sel_provenance = provenance, sel_legacy = legacy\<rparr>)"

definition adapter_error :: "PlanOptions \<Rightarrow> Options \<Rightarrow> PlannerError option" where
  "adapter_error opts effective =
    first_error
      (\<lambda>step.
         let selected = (step = StepSubtitleRecognize \<and> SubtitleRecognize effective) \<or>
                        (step = StepAIAnalysis \<and> AIAnalysis effective) in
         if selected \<and> \<not> hasExecutableAdapter (opt_ExecutableAdapters opts) step
         then Some (CapabilityUnavailable step) else None)
      [StepSubtitleRecognize, StepAIAnalysis]"

section \<open>Steps and edges\<close>

definition add_missing :: "StepType list \<Rightarrow> StepType \<Rightarrow> StepType list" where
  "add_missing ss step = (if step \<in> set ss then ss else ss @ [step])"

definition prepare_enabled :: "PlanOptions \<Rightarrow> currentPolicy \<Rightarrow> bool" where
  "prepare_enabled opts policy \<longleftrightarrow>
    opt_PreparePlanner opts \<noteq> None \<and>
    (case opt_Capabilities opts of None \<Rightarrow> False | Some available \<Rightarrow> available StepPrepare) \<and>
    jitPrepare policy \<and> fileType policy = ''video''"

definition optional_steps :: "MediaTemplate \<Rightarrow> Options \<Rightarrow> bool \<Rightarrow> StepType list" where
  "optional_steps t effective prepare =
    add_missing (add_missing (enabledSteps t effective) StepMediaVisible) StepScrape @
    (if prepare then [StepPrepare] else [])"

definition required_steps :: "MediaTemplate \<Rightarrow> bool \<Rightarrow> StepType list" where
  "required_steps t encrypt = AllRequired t @ (if encrypt then [StepEncrypt] else [])"

definition plan_nodes :: "int \<Rightarrow> StepType list \<Rightarrow> StepType list \<Rightarrow> PlanNode list" where
  "plan_nodes gen required optional =
    map (\<lambda>s. \<lparr>node_Step = s, node_Generation = gen, node_Required = s \<in> set required\<rparr>)
      (required @ optional)"

text \<open>The arguments of the calls of \<open>addEdge\<close>, in their order; every kind is success.\<close>

definition edge_pairs ::
  "string \<Rightarrow> Options \<Rightarrow> bool \<Rightarrow> StepType list \<Rightarrow> StepType list \<Rightarrow> (StepType \<times> StepType) list" where
  "edge_pairs ft effective encrypt required optional =
    map (\<lambda>s. (s, StepMediaVisible)) (filter (\<lambda>s. s \<noteq> StepMediaVisible) optional) @
    (if encrypt then [(StepEncrypt, hd required)] else []) @
    (if ft = ''video'' \<and> SubtitleRecognize effective
     then [(StepSubtitleRecognize, StepSubtitleExtract), (StepSubtitleRecognize, StepAtrackExtract)]
     else []) @
    map (\<lambda>e. (dep_Step e, the (dep_DependsOn e))) (phase5AIEdges effective (ClassifyMediaType ft)) @
    (if ClassifyMediaType ft = MediaCategoryDocument then
       (if ImageOCR effective then [(StepImageOCR, StepDocumentFulltext)] else []) @
       (if DocumentFulltext effective \<and> \<not> ImageOCR effective
        then [(StepDocumentFulltext, StepDocumentConvert)] else []) @
       (if DocumentConvert effective \<and> \<not> DocumentFulltext effective
        then [(StepDocumentConvert, StepDocumentFulltext)] else [])
     else [])"

definition addEdge :: "int \<Rightarrow> StepType \<times> StepType \<Rightarrow> Dependency" where
  "addEdge gen p =
    \<lparr>dep_Step = fst p, dep_Kind = DependencySuccess, dep_DependsOn = Some (snd p),
     dep_Generation = gen, dep_DependsOnGeneration = gen\<rparr>"

definition plan_graph_of ::
  "int \<Rightarrow> string \<Rightarrow> Options \<Rightarrow> bool \<Rightarrow> StepType list \<Rightarrow> StepType list \<Rightarrow> PlanGraph" where
  "plan_graph_of gen ft effective encrypt required optional =
    \<lparr>Nodes = plan_nodes gen required optional,
     Edges = map (addEdge gen) (edge_pairs ft effective encrypt required optional)\<rparr>"

section \<open>The plan\<close>

definition assemble_plan ::
  "db \<Rightarrow> PlanOptions \<Rightarrow> int \<Rightarrow> int \<Rightarrow> PlanReason \<Rightarrow> bool \<Rightarrow> MetadataAttempt \<Rightarrow> currentPolicy \<Rightarrow>
   selection \<Rightarrow> MediaTemplate \<Rightarrow> PlannerError + currentPlan" where
  "assemble_plan d opts mediaID scanTaskID reason preserve metadata policy sel t =
    (let effective = sel_effective sel;
         encrypt = opt_EncryptGlobal opts \<and> libraryEncrypt policy;
         prepare = prepare_enabled opts policy;
         required = required_steps t encrypt;
         optional = optional_steps t effective prepare;
         gen = generation policy + 1;
         graph = plan_graph_of gen (fileType policy) effective encrypt required optional;
         cleanEnc = encrypt \<and> cleanupEncrypted policy;
         basis = \<lparr>basis_Encryption = cleanEnc, basis_Package = cleanupPackage policy,
                  basis_CleanupEligible = cleanEnc \<or> cleanupPackage policy\<rparr>;
         policy = policy\<lparr>explicit_options := sel_explicit sel\<rparr>
     in
     if encrypt \<and> (case opt_EncryptionValidator opts of
                     None \<Rightarrow> False | Some valid \<Rightarrow> \<not> valid d (libraryID policy))
     then Inl (EncryptedLibraryInvalid (libraryID policy))
     else (case ValidatePlanGraph graph of
             Some e \<Rightarrow> Inl (InvalidGraph e)
           | None \<Rightarrow>
               (case ValidateEncryptedSourceContracts (required @ optional)
                       (basis_CleanupEligible basis) (opt_EncryptedSourceStrategies opts) of
                  Inl e \<Rightarrow> Inl (InvalidStrategies e)
                | Inr strategies \<Rightarrow>
                    Inr \<lparr>plan_mediaID = mediaID, plan_scanTaskID = scanTaskID,
                         plan_ingestItemID = 0, plan_policy = policy, plan_reason = reason,
                         plan_preserve = preserve, plan_required = required,
                         plan_optional = optional, plan_steps = required @ optional,
                         plan_dependencies = Edges graph, plan_graph = graph,
                         plan_snapshot =
                           \<lparr>PolicyVersion = 3, snap_LibraryID = libraryID policy,
                            snap_FileType = fileType policy,
                            ProcessingExplicit = sel_explicit sel,
                            ProcessingEffective = effective,
                            ProcessingProvenance = sel_provenance sel,
                            LegacyOptionDefaults = sel_legacy sel,
                            EncryptedSourceStrategies = strategies, CleanupBasis = basis,
                            PreviewExtract = Preview (sel_explicit sel),
                            snap_SubtitleAuto = SubtitleExtract (sel_explicit sel),
                            snap_ATrackAuto = ATrackExtract (sel_explicit sel),
                            snap_Encrypt = encrypt, snap_Prepare = prepare,
                            snap_Steps = required @ optional, snap_Metadata = metadata,
                            RequiredSteps = required, OptionalSteps = optional,
                            Dependencies = Edges graph, Graph = graph\<rparr>\<rparr>)))"

definition buildCurrentPolicyTx ::
  "PlanOptions \<Rightarrow> db \<Rightarrow> int \<Rightarrow> int \<Rightarrow> PlanReason \<Rightarrow> bool \<Rightarrow> MetadataAttempt \<Rightarrow>
   PlannerError + currentPlan option" where
  "buildCurrentPolicyTx opts d mediaID scanTaskID reason preserve metadata =
    (if mediaID \<le> 0 then Inl InvalidMediaId
     else (case read_policy d mediaID of
             None \<Rightarrow> Inl MediaNotFound
           | Some policy \<Rightarrow>
               (case check_scan d reason scanTaskID policy of
                  Some e \<Rightarrow> Inl e
                | None \<Rightarrow>
                    if fileType policy \<noteq> ''video'' \<and> fileType policy \<noteq> ''image'' \<and>
                       \<not> isMediaCategory (fileType policy)
                    then Inr None
                    else
                      (let sel = select_options opts policy in
                       case adapter_error opts (sel_effective sel) of
                         Some e \<Rightarrow> Inl e
                       | None \<Rightarrow>
                           (case lookupTemplate (fileType policy) of
                              None \<Rightarrow> Inl (NoTemplate (fileType policy))
                            | Some t \<Rightarrow>
                                (case validatePhase5Template t of
                                   Some e \<Rightarrow> Inl (InvalidTemplate e)
                                 | None \<Rightarrow>
                                     and_then
                                       (assemble_plan d opts mediaID scanTaskID reason preserve
                                          metadata policy sel t)
                                       (\<lambda>plan. Inr (Some plan))))))))"

section \<open>The graph the planner builds\<close>

text \<open>A plan given by its steps and its pairs, all edges on success in one generation.\<close>

definition step_rank :: "StepType \<Rightarrow> nat" where
  "step_rank s =
    (if s \<in> {StepMediaVisible, StepPoster, StepThumbnail} then 0
     else if s = StepAIAnalysis then 3
     else if s = StepSubtitleRecognize then 2 else 1)"

lemma registry_allows_iff:
  "registry_allows allowedPhase1Edges a b DependencySuccess \<longleftrightarrow>
   (a, b) \<in> set allowed_pairs"
proof -
  have "gget (map (\<lambda>e. (e, [DependencySuccess])) es) k =
      (if k \<in> set es then Some [DependencySuccess] else None)" for es :: "(StepType \<times> StepType) list" and k
    by (induction es) (auto simp: gget_Cons)
  then show ?thesis
    by (simp add: registry_allows_def allowedPhase1Edges_def)
qed

lemma edge_key_addEdge [simp]:
  "edge_key (addEdge gen p) = ((fst p, gen), (snd p, gen), DependencySuccess)"
  by (simp add: edge_key_def addEdge_def)

lemma node_key_plan_nodes [simp]:
  "map node_key (plan_nodes gen required optional) = map (\<lambda>s. (s, gen)) (required @ optional)"
  by (simp add: plan_nodes_def node_key_def)

lemma pairs_graph_ok:
  assumes gen: "0 < gen" and steps: "distinct (required @ optional)"
      "set (required @ optional) \<subseteq> set knownPhase1Nodes"
    and pairs: "distinct ps" "fst ` set ps \<subseteq> set (required @ optional)"
      "snd ` set ps \<subseteq> set (required @ optional)"
    and allowed: "\<And>a b. (a, b) \<in> set ps \<Longrightarrow>
      (a, b) \<in> set allowed_pairs \<and> step_rank b < step_rank a \<and> a \<noteq> ''''"
    and async: "\<And>s. s \<in> set (required @ optional) \<Longrightarrow> s \<in> set asyncPhase1Nodes \<Longrightarrow>
      (s, StepMediaVisible) \<in> set ps"
  shows "plan_graph_ok allowedPhase1Edges
    \<lparr>Nodes = plan_nodes gen required optional, Edges = map (addEdge gen) ps\<rparr>"
proof -
  let ?g = "\<lparr>Nodes = plan_nodes gen required optional, Edges = map (addEdge gen) ps\<rparr>"
  have "nodes_ok knownPhase1Nodes ?g"
    using gen steps by (auto simp: nodes_ok_def distinct_map inj_on_def simp flip: map_append)
      (auto simp: plan_nodes_def)
  moreover have "edge_shape_ok (map node_key (Nodes ?g)) e \<and> edge_allowed allowedPhase1Edges e"
    if "e \<in> set (Edges ?g)" for e
  proof -
    from that obtain a b where ab: "(a, b) \<in> set ps" "e = addEdge gen (a, b)" by auto
    have "a \<in> set (required @ optional)" "b \<in> set (required @ optional)"
      using ab(1) pairs(2,3) by force+
    moreover have "a \<noteq> b" using allowed [OF ab(1)] by auto
    ultimately show ?thesis using allowed [OF ab(1)] gen
      by (auto simp: ab(2) addEdge_def edge_shape_ok_def edge_allowed_def registry_allows_iff)
  qed
  moreover have "distinct (map edge_key (Edges ?g))"
    using pairs(1) by (auto simp: distinct_map inj_on_def comp_def)
  moreover have "async_ok ?g"
    unfolding async_ok_def
  proof (intro ballI impI)
    fix n assume n: "n \<in> set (Nodes ?g)" and a: "node_Step n \<in> set asyncPhase1Nodes"
    from n have "node_Step n \<in> set (required @ optional)" and g: "node_Generation n = gen"
      by (auto simp: plan_nodes_def)
    from async [OF this(1) a] have "(node_Step n, StepMediaVisible) \<in> set ps" .
    then have "edge_key (addEdge gen (node_Step n, StepMediaVisible)) \<in> edge_key ` addEdge gen ` set ps"
      by (intro imageI)
    then show "(node_key n, (StepMediaVisible, node_Generation n), DependencySuccess)
        \<in> edge_key ` set (Edges ?g)"
      by (simp add: node_key_def g del: image_image)
  qed
  moreover have "acyclic (graph_rel ?g)"
    by (rule acyclic_rank [where rank = "\<lambda>x. step_rank (fst x)"])
      (use allowed in \<open>auto simp: graph_rel_def\<close>)
  ultimately show ?thesis by (simp add: plan_graph_ok_def)
qed

lemma close_no_options: "fst (Close ft no_options) = no_options"
  by (simp add: Close_def Let_def close_video_def close_audio_def close_image_def
      close_document_def no_options_def)

lemma enabled_no_options [simp]: "\<not> OptionEnabled no_options n"
  by (auto simp: OptionEnabled_def no_options_def)

lemma set_enabled_video:
  "set (enabledSteps videoTemplate e) =
    {StepMediaVisible, StepScrape} \<union> (if Preview e then {StepPreview} else {}) \<union>
    (if SubtitleExtract e then {StepSubtitleExtract} else {}) \<union>
    (if ATrackExtract e then {StepAtrackExtract} else {}) \<union>
    (if SubtitleRecognize e then {StepSubtitleRecognize} else {}) \<union>
    (if KeyframeExtract e then {StepKeyframeExtract} else {}) \<union>
    (if AIAnalysis e then {StepAIAnalysis} else {})"
  by (auto simp: enabledSteps_def videoTemplate_def step_names split: if_splits)

text \<open>The effective options of a video satisfy the dependencies the edges rely on; those of any
  other file type are empty.\<close>

lemma select_video:
  assumes "fileType policy = ''video''"
  shows "AIAnalysis (sel_effective (select_options opts policy)) \<Longrightarrow>
      SubtitleRecognize (sel_effective (select_options opts policy))"
    and "SubtitleRecognize (sel_effective (select_options opts policy)) \<Longrightarrow>
      SubtitleExtract (sel_effective (select_options opts policy)) \<and>
      ATrackExtract (sel_effective (select_options opts policy))"
  using assms
  by (auto simp: select_options_def Close_def close_video_def Let_def video_types_def
      split: if_splits)

lemma select_other:
  assumes "fileType policy \<noteq> ''video''"
  shows "sel_effective (select_options opts policy) = no_options"
  using assms close_no_options [of "fileType policy"]
  by (auto simp: select_options_def Let_def split: prod.splits)

lemma template_enabled_other:
  assumes "lookupTemplate ft = Some t"
  shows "enabledSteps t no_options = [StepMediaVisible, StepScrape]"
  using assms
  by (auto simp: lookupTemplate_def Let_def template_defs enabledSteps_def step_names list_ex_iff
      split: if_splits)

lemma optional_steps_eq:
  assumes "lookupTemplate ft = Some t"
  shows "optional_steps t e prepare = enabledSteps t e @ (if prepare then [StepPrepare] else [])"
  using enabledSteps_Cons [OF assms, of e] by (auto simp: optional_steps_def add_missing_def)

lemma known_async: "set asyncPhase1Nodes \<subseteq> set knownPhase1Nodes"
  by (auto simp: asyncPhase1Nodes_def knownPhase1Nodes_def)

lemma pairs_other:
  assumes "ft \<noteq> ''video''"
  shows "edge_pairs ft no_options encrypt required optional =
    map (\<lambda>s. (s, StepMediaVisible)) (filter (\<lambda>s. s \<noteq> StepMediaVisible) optional) @
    (if encrypt then [(StepEncrypt, hd required)] else [])"
  using assms by (simp add: edge_pairs_def phase5AIEdges_def ai_targets_def no_options_def)

lemma pairs_video:
  "edge_pairs ''video'' e encrypt required optional =
    map (\<lambda>s. (s, StepMediaVisible)) (filter (\<lambda>s. s \<noteq> StepMediaVisible) optional) @
    (if encrypt then [(StepEncrypt, hd required)] else []) @
    (if SubtitleRecognize e
     then [(StepSubtitleRecognize, StepSubtitleExtract), (StepSubtitleRecognize, StepAtrackExtract)]
     else []) @
    (if AIAnalysis e then [(StepAIAnalysis, StepSubtitleRecognize)] else [])"
  by (simp add: edge_pairs_def phase5AIEdges_def ai_targets_def ClassifyMediaType_def
      category_names)

text \<open>Edges to \<open>media_visible\<close> and from \<open>encrypt\<close>, which every plan has, with the extra pairs
  of a video.\<close>

lemma plan_pairs_ok:
  assumes gen: "0 < gen" and p: "p \<in> {StepPoster, StepThumbnail}"
    and required: "required = p # (if encrypt then [StepEncrypt] else [])"
    and optional: "optional = StepMediaVisible # rest" "distinct rest"
      "set rest \<subseteq> set asyncPhase1Nodes - {StepPackage, StepPretranscode}"
    and extra: "distinct extra" "\<And>a b. (a, b) \<in> set extra \<Longrightarrow>
      a \<in> set rest \<and> b \<in> set rest \<and> (a, b) \<in> set allowed_pairs \<and> step_rank b < step_rank a"
  shows "plan_graph_ok allowedPhase1Edges
    \<lparr>Nodes = plan_nodes gen required optional,
     Edges = map (addEdge gen)
      (map (\<lambda>s. (s, StepMediaVisible)) (filter (\<lambda>s. s \<noteq> StepMediaVisible) optional) @
       (if encrypt then [(StepEncrypt, hd required)] else []) @ extra)\<rparr>"
proof (rule pairs_graph_ok [OF gen])
  have out: "StepMediaVisible \<notin> set asyncPhase1Nodes" "StepEncrypt \<notin> set asyncPhase1Nodes"
    "p \<notin> set asyncPhase1Nodes" "p \<noteq> StepEncrypt" "p \<noteq> StepMediaVisible"
    "StepEncrypt \<noteq> StepMediaVisible"
    using p by (auto simp: asyncPhase1Nodes_def step_names)
  have to_visible: "(a, StepMediaVisible) \<in> set allowed_pairs \<and>
      step_rank StepMediaVisible < step_rank a \<and> a \<noteq> ''''" if "a \<in> set asyncPhase1Nodes" for a
    using that by (auto simp: asyncPhase1Nodes_def allowed_pairs_def step_rank_def step_names)
  have vis: "filter (\<lambda>s. s \<noteq> StepMediaVisible) optional = rest"
    using optional out(1) by (auto simp: filter_id_conv)
  show "distinct (required @ optional)"
    using out optional by (auto simp: required)
  show "set (required @ optional) \<subseteq> set knownPhase1Nodes"
    using p optional known_async by (auto simp: required knownPhase1Nodes_def)
  let ?ps = "map (\<lambda>s. (s, StepMediaVisible)) (filter (\<lambda>s. s \<noteq> StepMediaVisible) optional) @
    (if encrypt then [(StepEncrypt, hd required)] else []) @ extra"
  have e: "a \<in> set rest \<and> b \<in> set rest" if "(a, b) \<in> set extra" for a b
    using extra(2) that by blast
  show "distinct ?ps"
    using extra(1) optional out e by (auto simp: vis distinct_map inj_on_def required)
  show "fst ` set ?ps \<subseteq> set (required @ optional)"
    using e by (fastforce simp: vis required optional(1))
  show "snd ` set ?ps \<subseteq> set (required @ optional)"
    using e by (fastforce simp: vis required optional(1))
  show "(a, b) \<in> set allowed_pairs \<and> step_rank b < step_rank a \<and> a \<noteq> ''''" if ab: "(a, b) \<in> set ?ps" for a b
  proof -
    consider "a \<in> set rest" "b = StepMediaVisible" | "a = StepEncrypt" "b = p" | "(a, b) \<in> set extra"
      using ab by (auto simp: vis required split: if_splits)
    then show ?thesis
    proof cases
      case 1
      then show ?thesis using to_visible optional(3) by blast
    next
      case 2
      then show ?thesis using p by (auto simp: allowed_pairs_def step_rank_def step_names)
    next
      case 3
      then have "a \<in> set asyncPhase1Nodes" using e optional(3) by blast
      then show ?thesis using extra(2) [OF 3] to_visible by blast
    qed
  qed
  show "(s, StepMediaVisible) \<in> set ?ps"
    if "s \<in> set (required @ optional)" "s \<in> set asyncPhase1Nodes" for s
    using that out by (auto simp: vis required optional(1) split: if_splits)
qed


section \<open>Properties of the planner\<close>

lemma video_pairs_allowed:
  "(StepSubtitleRecognize, StepSubtitleExtract) \<in> set allowed_pairs"
  "(StepSubtitleRecognize, StepAtrackExtract) \<in> set allowed_pairs"
  "(StepAIAnalysis, StepSubtitleRecognize) \<in> set allowed_pairs"
  "step_rank StepSubtitleExtract < step_rank StepSubtitleRecognize"
  "step_rank StepAtrackExtract < step_rank StepSubtitleRecognize"
  "step_rank StepSubtitleRecognize < step_rank StepAIAnalysis"
  by (simp_all add: allowed_pairs_def step_rank_def step_names)

lemma planned_graph_ok:
  fixes opts :: PlanOptions and policy :: currentPolicy
  assumes t: "lookupTemplate (fileType policy) = Some t" and gen: "0 \<le> generation policy"
  defines "e \<equiv> sel_effective (select_options opts policy)"
  shows "plan_graph_ok allowedPhase1Edges
    (plan_graph_of (generation policy + 1) (fileType policy) e encrypt (required_steps t encrypt)
      (optional_steps t e (prepare_enabled opts policy)))"
proof -
  obtain p where p: "p \<in> {StepPoster, StepThumbnail}" "AllRequired t = [p]"
    using template_shape(1) [OF t] by blast
  obtain rest where rest: "enabledSteps t e = StepMediaVisible # StepScrape # rest"
    "distinct (StepMediaVisible # StepScrape # rest)" "set rest \<subseteq> set asyncPhase1Nodes - {StepPrepare}"
    using enabledSteps_Cons [OF t] by blast
  have sub: "set (enabledSteps t e) \<subseteq> set (AllOptional t)" by (auto simp: enabledSteps_def)
  have nopack: "StepPackage \<notin> set (AllOptional t)" "StepPretranscode \<notin> set (AllOptional t)"
    using t by (auto simp: lookupTemplate_def Let_def template_defs step_names split: if_splits)
  let ?prep = "if prepare_enabled opts policy then [StepPrepare] else []"
  have opt: "optional_steps t e (prepare_enabled opts policy) =
      StepMediaVisible # (StepScrape # rest @ ?prep)"
    by (simp add: optional_steps_eq [OF t] rest(1))
  have scrape: "StepScrape \<in> set asyncPhase1Nodes" "StepPrepare \<in> set asyncPhase1Nodes"
    "StepScrape \<noteq> StepPrepare" "StepScrape \<notin> {StepPackage, StepPretranscode}"
    "StepPrepare \<notin> {StepPackage, StepPretranscode}"
    by (auto simp: asyncPhase1Nodes_def step_names)
  have sub2: "set (StepScrape # rest @ ?prep) \<subseteq> set asyncPhase1Nodes - {StepPackage, StepPretranscode}"
    using rest sub nopack scrape by (auto simp: rest(1))
  have dist: "distinct (StepScrape # rest @ ?prep)"
    using rest(2,3) scrape(3) by auto
  note ok = plan_pairs_ok [OF _ p(1) refl refl dist sub2, where gen = "generation policy + 1" and encrypt = encrypt]
  have req: "required_steps t encrypt = p # (if encrypt then [StepEncrypt] else [])"
    by (simp add: required_steps_def p(2))
  show ?thesis
  proof (cases "fileType policy = ''video''")
    case True
    then have tv: "t = videoTemplate"
      using t by (simp add: lookupTemplate_def ClassifyMediaType_def category_names)
    have inrest: "s \<in> set rest"
      if "s \<in> set (enabledSteps videoTemplate e)" "s \<noteq> StepMediaVisible" "s \<noteq> StepScrape" for s
      using that rest(1) by (auto simp: tv)
    have mem: "SubtitleRecognize e \<Longrightarrow> StepSubtitleRecognize \<in> set rest \<and>
        StepSubtitleExtract \<in> set rest \<and> StepAtrackExtract \<in> set rest"
      "AIAnalysis e \<Longrightarrow> StepAIAnalysis \<in> set rest \<and> StepSubtitleRecognize \<in> set rest"
      using select_video [OF True, of opts, folded e_def]
      by (auto intro!: inrest simp: set_enabled_video) (simp_all add: step_names)
    let ?extra = "(if SubtitleRecognize e
       then [(StepSubtitleRecognize, StepSubtitleExtract), (StepSubtitleRecognize, StepAtrackExtract)]
       else []) @ (if AIAnalysis e then [(StepAIAnalysis, StepSubtitleRecognize)] else [])"
    have "distinct ?extra" by (simp add: step_names)
    moreover have "a \<in> set rest \<and> b \<in> set rest \<and> (a, b) \<in> set allowed_pairs \<and> step_rank b < step_rank a"
      if "(a, b) \<in> set ?extra" for a b
      using that mem video_pairs_allowed by (auto split: if_splits)
    ultimately show ?thesis
      unfolding plan_graph_of_def req opt True pairs_video using gen by (intro ok) simp_all
  next
    case False
    have "e = no_options" by (simp add: e_def select_other [OF False])
    then have ep: "edge_pairs (fileType policy) e encrypt r o' =
        map (\<lambda>s. (s, StepMediaVisible)) (filter (\<lambda>s. s \<noteq> StepMediaVisible) o') @
        (if encrypt then [(StepEncrypt, hd r)] else []) @ []" for r o'
      by (simp add: pairs_other [OF False])
    show ?thesis
      unfolding plan_graph_of_def req opt ep using gen by (intro ok) simp_all
  qed
qed

lemma assemble_error:
  assumes "assemble_plan d opts mediaID scanTaskID reason preserve metadata policy sel t = Inl x"
  shows "x = EncryptedLibraryInvalid (libraryID policy) \<or> (\<exists>e. x = InvalidStrategies e) \<or>
    (\<exists>encrypt e. x = InvalidGraph e \<and> ValidatePlanGraph
      (plan_graph_of (generation policy + 1) (fileType policy) (sel_effective sel) encrypt
        (required_steps t encrypt)
        (optional_steps t (sel_effective sel) (prepare_enabled opts policy))) = Some e)"
  using assms unfolding assemble_plan_def Let_def
  by (cases "opt_EncryptGlobal opts \<and> libraryEncrypt policy")
    (auto split: if_splits option.splits sum.splits)

lemma build_error:
  assumes "buildCurrentPolicyTx opts d mediaID scanTaskID reason preserve metadata = Inl x"
  shows "x = InvalidMediaId \<or> x = MediaNotFound \<or>
    (\<exists>policy. read_policy d mediaID = Some policy \<and>
      (check_scan d reason scanTaskID policy = Some x \<or>
       adapter_error opts (sel_effective (select_options opts policy)) = Some x \<or>
       (\<exists>t. lookupTemplate (fileType policy) = Some t \<and>
         assemble_plan d opts mediaID scanTaskID reason preserve metadata policy
           (select_options opts policy) t = Inl x)))"
proof (cases "mediaID \<le> 0 \<or> read_policy d mediaID = None")
  case True
  with assms show ?thesis by (auto simp: buildCurrentPolicyTx_def split: if_splits)
next
  case False
  then obtain policy where p: "read_policy d mediaID = Some policy" and id: "\<not> mediaID \<le> 0"
    by auto
  have cat: "\<exists>t. lookupTemplate (fileType policy) = Some t"
    if "fileType policy = ''video'' \<or> fileType policy = ''image'' \<or> isMediaCategory (fileType policy)"
    using that isMediaCategory_template [of "fileType policy"]
    by (auto simp: isMediaCategory_def ClassifyMediaType_def category_names Let_def)
  note b = assms [unfolded buildCurrentPolicyTx_def p Let_def]
  show ?thesis
  proof (cases "check_scan d reason scanTaskID policy")
    case (Some e)
    then show ?thesis using b p id by simp
  next
    case no_scan: None
    note b' = b
    show ?thesis
    proof (cases "adapter_error opts (sel_effective (select_options opts policy))")
      case (Some e)
      then show ?thesis using b' no_scan p id by (simp split: if_splits)
    next
      case no_adapter: None
      from b' no_scan no_adapter id obtain t where "lookupTemplate (fileType policy) = Some t"
        using cat by (auto split: if_splits)
      then show ?thesis using b' no_scan no_adapter p id templates_valid [of "fileType policy" t]
        by (auto simp: and_then_Inl_iff split: if_splits)
    qed
  qed
qed

lemma adapter_error_only: "adapter_error opts e = Some x \<Longrightarrow> \<exists>s. x = CapabilityUnavailable s"
  by (auto simp: adapter_error_def Let_def split: if_splits)

lemma check_scan_only:
  "check_scan d reason scanTaskID policy = Some x \<Longrightarrow> x = ScanTaskNotFound \<or> x = ScanTaskOtherLibrary"
  by (auto simp: check_scan_def split: if_splits option.splits)

text \<open>C0: The planner never rejects its own plan: whatever the library's options, the process
  options and the file type, for a media row whose generation is not negative the graph built
  by \<open>buildCurrentPolicyTx\<close> passes \<open>ValidatePlanGraph\<close>, and a template is never refused.\<close>

theorem build_never_invalid:
  assumes "media_by_id d mediaID = Some m" and "0 \<le> m_generation m"
  shows "buildCurrentPolicyTx opts d mediaID scanTaskID reason preserve metadata
    \<notin> {Inl (InvalidGraph e), Inl (InvalidTemplate te), Inl (NoTemplate ft)}"
proof -
  have valid: "ValidatePlanGraph (plan_graph_of (generation policy + 1) (fileType policy)
      (sel_effective (select_options opts policy)) encrypt (required_steps t encrypt)
      (optional_steps t (sel_effective (select_options opts policy))
        (prepare_enabled opts policy))) = None"
    if "lookupTemplate (fileType policy) = Some t" "0 \<le> generation policy" for policy t encrypt
    using planned_graph_ok [OF that] validate_None_iff by (simp add: ValidatePlanGraph_def)
  have gen: "0 \<le> generation policy" if "read_policy d mediaID = Some policy" for policy
    using that assms by (auto simp: read_policy_def split: option.splits)
  have "x \<notin> {InvalidGraph e, InvalidTemplate te, NoTemplate ft}"
    if "buildCurrentPolicyTx opts d mediaID scanTaskID reason preserve metadata = Inl x" for x
    using build_error [OF that] gen valid
    by (auto dest!: assemble_error adapter_error_only check_scan_only)
  then show ?thesis by auto
qed

definition sample_options :: PlanOptions where
  "sample_options =
    \<lparr>opt_SubtitleAuto = False, opt_ATrackAuto = True, opt_EncryptGlobal = True,
     opt_PreparePlanner = None, opt_Capabilities = None,
     opt_ExecutableAdapters = Some (\<lambda>s. Some s), opt_EncryptionValidator = None,
     opt_EncryptedSourceStrategies = Contract DefaultEncryptedSourceStrategies\<rparr>"

definition no_metadata :: MetadataAttempt where
  "no_metadata = \<lparr>Attempted = False, Fields = [], Errors = []\<rparr>"

theorem build_never_invalid_witness:
  "media_by_id sample_db 1 = Some sample_media \<and>
   buildCurrentPolicyTx sample_options sample_db 1 5 PlanReasonScan False no_metadata
    \<notin> {Inl (InvalidGraph MalformedEndpoint), Inl (InvalidTemplate (UnknownRequired [] [])),
       Inl (NoTemplate [])}"
  using build_never_invalid [OF sample_lookups(1)] sample_lookups(1)
  by (simp add: sample_media_def)

lemma assemble_plan_Inr:
  assumes "assemble_plan d opts mediaID scanTaskID reason preserve metadata policy sel t = Inr plan"
  defines "encrypt \<equiv> opt_EncryptGlobal opts \<and> libraryEncrypt policy"
  shows "plan_required plan = required_steps t encrypt"
    and "plan_optional plan = optional_steps t (sel_effective sel) (prepare_enabled opts policy)"
    and "plan_steps plan = plan_required plan @ plan_optional plan"
    and "plan_graph plan = plan_graph_of (generation policy + 1) (fileType policy)
      (sel_effective sel) encrypt (plan_required plan) (plan_optional plan)"
    and "plan_dependencies plan = Edges (plan_graph plan)"
    and "ValidatePlanGraph (plan_graph plan) = None"
    and "ProcessingEffective (plan_snapshot plan) = sel_effective sel"
    and "plan_policy plan = policy\<lparr>explicit_options := sel_explicit sel\<rparr>"
    and "plan_mediaID plan = mediaID" and "plan_scanTaskID plan = scanTaskID"
    and "plan_reason plan = reason" and "plan_preserve plan = preserve"
  using assms unfolding assemble_plan_def Let_def
  by (auto split: if_splits option.splits sum.splits)

lemma build_Some:
  assumes "buildCurrentPolicyTx opts d mediaID scanTaskID reason preserve metadata = Inr (Some plan)"
  obtains policy t where "read_policy d mediaID = Some policy"
    "lookupTemplate (fileType policy) = Some t"
    "assemble_plan d opts mediaID scanTaskID reason preserve metadata policy
       (select_options opts policy) t = Inr plan" "0 < mediaID"
  using assms unfolding buildCurrentPolicyTx_def Let_def
  by (auto split: if_splits option.splits simp: and_then_Inr_iff)

lemma video_option_steps:
  "(opt, step) \<in> set (optionStep videoTemplate) \<Longrightarrow> step \<in> set (AllOptional videoTemplate)"
  "StepMediaVisible \<in> set (AllOptional videoTemplate)" "StepScrape \<in> set (AllOptional videoTemplate)"
  by (auto simp: videoTemplate_def)


definition sample_policy :: currentPolicy where
  "sample_policy =
    \<lparr>libraryID = 7, generation = 0, fileType = ''video'',
     explicit_options = no_options\<lparr>Preview := True, AIAnalysis := True\<rparr>,
     libraryEncrypt = False, jitPrepare = False, cleanupPackage = False, cleanupEncrypted = False\<rparr>"

lemma sample_read_policy: "read_policy sample_db 1 = Some sample_policy"
proof -
  have "TrimSpace ''video'' = ''video''" by code_simp
  then show ?thesis
    by (simp add: read_policy_def sample_lookups)
      (simp add: sample_media_def sample_library_def sample_policy_def
        library_options_def flag_def gget_Cons gget0_def no_options_def library_by_id_def sample_db_def)
qed

lemma sample_effective:
  "sel_effective (select_options sample_options sample_policy) =
    no_options\<lparr>Preview := True, AIAnalysis := True, SubtitleRecognize := True,
      KeyframeExtract := True, SubtitleExtract := True, ATrackExtract := True\<rparr>"
  by (simp add: select_options_def Close_def close_video_def Let_def video_types_def
      sample_options_def sample_policy_def no_options_def)

lemma sample_template: "lookupTemplate (fileType sample_policy) = Some videoTemplate"
  by (simp add: sample_policy_def lookupTemplate_def ClassifyMediaType_def category_names)

lemma sample_build:
  "\<exists>plan. buildCurrentPolicyTx sample_options sample_db 1 5 PlanReasonScan False no_metadata =
    Inr (Some plan)"
proof -
  have "adapter_error sample_options (sel_effective (select_options sample_options sample_policy)) = None"
    by (simp add: adapter_error_def Let_def hasExecutableAdapter_def sample_options_def)
  moreover have "check_scan sample_db PlanReasonScan 5 sample_policy = None"
    by (simp add: check_scan_def sample_db_def sample_policy_def)
  moreover have "isMediaCategory (fileType sample_policy)"
    using isMediaCategory_template sample_template by blast
  moreover have "\<exists>plan. assemble_plan sample_db sample_options 1 5 PlanReasonScan False no_metadata
      sample_policy (select_options sample_options sample_policy) videoTemplate = Inr plan"
  proof -
    have "opt_EncryptionValidator sample_options = None" by (simp add: sample_options_def)
    moreover have "\<not> libraryEncrypt sample_policy" "\<not> cleanupPackage sample_policy"
      "0 \<le> generation sample_policy" by (simp_all add: sample_policy_def)
    moreover note planned_graph_ok [OF sample_template this(3), of sample_options False]
    ultimately show ?thesis
      unfolding assemble_plan_def Let_def
      by (simp add: ValidateEncryptedSourceContracts_def ValidatePlanGraph_def
          iffD2 [OF validate_None_iff])
  qed
  ultimately show ?thesis
    using templates_valid [OF sample_template]
    by (auto simp: buildCurrentPolicyTx_def sample_read_policy sample_template Let_def)
qed


end
