(* ===== verification/Run_Dependencies.thy ===== *)
theory Run_Dependencies
  imports Ingest_Store
begin

text \<open>
  Dependency propagation and plan completion (\<open>publication/dependencies.go\<close>,
  \<open>publication/plan_completion.go\<close>).

  \<open>PropagateImpossibleDependenciesTx\<close> repeats a query and a batch of updates until the query is
  empty. The model bounds the number of rounds by the number of steps of the run, and
  \<open>propagate_returns\<close> shows that the bound is never reached. \<open>Propagate_exact\<close> states which steps
  it skips: the least set closed under the rule of \<open>impossible\<close>.
\<close>

datatype IngestError =
    InvalidRun
  | RunNotFound int
  | MediaRowNotFound int
  | MalformedGeneration int
  | NoQueueFamily StepType
  | OrphanQueue int
  | EmptyPlan int
  | MalformedPlan int
  | InvalidTerminalRun
  | ReopenNeedsActor
  | ReopenTargetMismatch
  | ReopenGenerationFence
  | ReopenRequired
  | ReopenNotAllowed StepType
  | ReopenNotTerminal int
  | ReopenPredecessorNotDone
  | ReopenPredecessorNotTerminal
  | ReopenUnknownKind DependencyKind
  | ReopenNoPredecessors
  | QueueAmbiguous
  | QueueMissing
  | RetryRoundDesync
  | RetryRoundFence
  | StepNotReopened int
  | QueueNotReopened int
  | StepNotFound int
  | ClaimTransition
  | PrepareIdentity
  | PrepareParentMismatch
  | PrepareStepMismatch
  | InvalidSupersede
  | SupersededRunMissing
  | BarrierFailed
  | LoopDiverged

section \<open>Queues\<close>

datatype QueueFamily = QueuePostIngest | QueueScrape | QueuePrepare

definition queueFamilyForStep :: "StepType \<Rightarrow> QueueFamily option" where
  "queueFamilyForStep stepType =
    (if stepType = StepScrape then Some QueueScrape
     else if stepType = StepPrepare then Some QueuePrepare
     else if stepType \<in> {StepPreview, StepSubtitle, StepSubtitleExtract, StepAtrackExtract,
       StepSubtitleRecognize, StepKeyframeExtract, StepAIAnalysis, StepPoster, StepThumbnail,
       StepKeyframe, StepAtrack, StepEncrypt, StepPackage, StepPretranscode, StepMetadata}
     then Some QueuePostIngest
     else None)"

definition queue_rows :: "QueueFamily \<Rightarrow> db \<Rightarrow> queue_row list" where
  "queue_rows fam d =
    (case fam of QueuePostIngest \<Rightarrow> posts d | QueueScrape \<Rightarrow> scrapes d | QueuePrepare \<Rightarrow> transcodes d)"

definition set_queue :: "QueueFamily \<Rightarrow> queue_row list \<Rightarrow> db \<Rightarrow> db" where
  "set_queue fam rows d =
    (case fam of
       QueuePostIngest \<Rightarrow> d\<lparr>posts := rows\<rparr>
     | QueueScrape \<Rightarrow> d\<lparr>scrapes := rows\<rparr>
     | QueuePrepare \<Rightarrow> d\<lparr>transcodes := rows\<rparr>)"

text \<open>The queue row of a step: linked by step, run and generation.\<close>

definition linked :: "int \<Rightarrow> int \<Rightarrow> int \<Rightarrow> queue_row \<Rightarrow> bool" where
  "linked stepID runID gen q \<longleftrightarrow>
    q_step q = Some stepID \<and> q_run q = Some runID \<and> q_generation q = Some gen"

text \<open>\<open>COALESCE(column,CURRENT_TIMESTAMP)\<close>\<close>

definition coalesce :: "'a option \<Rightarrow> 'a \<Rightarrow> 'a option" where
  "coalesce v now = (case v of None \<Rightarrow> Some now | Some x \<Rightarrow> Some x)"

section \<open>Impossible dependencies\<close>

definition dependencyReason :: "step_row \<Rightarrow> step_row \<Rightarrow> DependencyKind \<Rightarrow> impossibleDependencyReason" where
  "dependencyReason s p kind =
    \<lparr>PredecessorID = s_id p, PredecessorType = s_type p, PredecessorState = s_status p,
     reason_Kind = kind, reason_RetryRound = s_retry_round s, reason_Generation = s_generation s\<rparr>"

definition skip_queue_row :: "int \<Rightarrow> err_text \<Rightarrow> queue_row \<Rightarrow> queue_row" where
  "skip_queue_row now reason q =
    q\<lparr>q_status := S_skipped, q_error := reason, q_lease_owner := None, q_lease_until := None,
      q_finished := coalesce (q_finished q) now\<rparr>"

definition syncSkippedQueueForStepTx ::
  "int \<Rightarrow> step_row \<Rightarrow> err_text \<Rightarrow> db \<Rightarrow> IngestError + db" where
  "syncSkippedQueueForStepTx now s reason d =
    (if s_type s = StepMediaVisible then Inr d
     else (case queueFamilyForStep (s_type s) of
             None \<Rightarrow> Inl (NoQueueFamily (s_type s))
           | Some fam \<Rightarrow>
               (let p = (\<lambda>q. linked (s_id s) (s_run s) (s_generation s) q \<and> q_status q = S_waiting) in
                if sql_affected p (queue_rows fam d) = 0 then Inl (OrphanQueue (s_id s))
                else Inr (set_queue fam (sql_update p (skip_queue_row now reason) (queue_rows fam d)) d))))"

text \<open>The \<open>SELECT\<close> of the loop: a waiting step of the run with a success dependency on a step
  that cannot succeed any more.\<close>

definition blocking :: "status \<Rightarrow> bool" where
  "blocking st \<longleftrightarrow> st \<in> {S_failed, S_cancelled, S_skipped}"

definition impossible_rows :: "int \<Rightarrow> db \<Rightarrow> (step_row \<times> dep_row \<times> step_row) list" where
  "impossible_rows runID d =
    sort_key (\<lambda>(s, e, p). (s_id s, d_on e))
      [(s, e, p). s \<leftarrow> steps d, s_run s = runID \<and> s_status s = S_waiting,
        e \<leftarrow> deps d, d_step e = s_id s \<and> d_kind e = DependencySuccess,
        p \<leftarrow> steps d, s_id p = d_on e \<and> blocking (s_status p)]"

definition skip_step :: "int \<Rightarrow> err_text \<Rightarrow> step_row \<Rightarrow> step_row" where
  "skip_step now reason s =
    s\<lparr>s_status := S_skipped, s_error := reason, s_lease_owner := None, s_lease_until := None,
      s_finished := coalesce (s_finished s) now\<rparr>"

fun skip_batch ::
  "int \<Rightarrow> int \<Rightarrow> (step_row \<times> dep_row \<times> step_row) list \<Rightarrow> db \<Rightarrow> IngestError + db" where
  "skip_batch now runID [] d = Inr d"
| "skip_batch now runID ((s, e, p) # rest) d =
    (let reason = Impossible (dependencyReason s p (d_kind e));
         w = (\<lambda>x. s_id x = s_id s \<and> s_run x = runID \<and> s_generation x = s_generation s \<and>
                  s_status x = S_waiting)
     in
     if sql_affected w (steps d) = 0 then skip_batch now runID rest d
     else (case syncSkippedQueueForStepTx now s reason
                  (d\<lparr>steps := sql_update w (skip_step now reason) (steps d)\<rparr>) of
             Inl err \<Rightarrow> Inl err
           | Inr d' \<Rightarrow> skip_batch now runID rest d'))"

fun propagate :: "nat \<Rightarrow> int \<Rightarrow> int \<Rightarrow> db \<Rightarrow> (IngestError + db) option" where
  "propagate 0 now runID d = None"
| "propagate (Suc fuel) now runID d =
    (if impossible_rows runID d = [] then Some (Inr d)
     else (case skip_batch now runID (impossible_rows runID d) d of
             Inl err \<Rightarrow> Some (Inl err)
           | Inr d' \<Rightarrow> propagate fuel now runID d'))"

definition malformed_dep :: "db \<Rightarrow> int \<Rightarrow> dep_row \<Rightarrow> bool" where
  "malformed_dep d runID e \<longleftrightarrow>
    list_ex (\<lambda>s. s_id s = d_step e \<and> s_run s = runID \<and>
      (case step_by_id d (d_on e) of
         None \<Rightarrow> True
       | Some p \<Rightarrow> s_run p \<noteq> s_run s \<or> s_media p \<noteq> s_media s \<or> s_generation p \<noteq> s_generation s))
      (steps d)"

definition PropagateImpossibleDependenciesTx :: "int \<Rightarrow> int \<Rightarrow> db \<Rightarrow> IngestError + db" where
  "PropagateImpossibleDependenciesTx now runID d =
    (if runID \<le> 0 then Inl InvalidRun
     else if list_ex (malformed_dep d runID) (deps d) then Inl (MalformedGeneration runID)
     else (case propagate (Suc (length (run_steps d runID))) now runID d of
             None \<Rightarrow> Inl LoopDiverged
           | Some r \<Rightarrow> r))"

section \<open>Plan completion\<close>

definition count_status :: "status \<Rightarrow> step_row list \<Rightarrow> int" where
  "count_status st rows = int (length (filter (\<lambda>s. s_status s = st) rows))"

definition completion_of :: "int \<Rightarrow> run_row \<Rightarrow> step_row list \<Rightarrow> completion_row option \<Rightarrow> completion_row" where
  "completion_of now r rows old =
    (let total = int (length rows);
         terminal = int (length (filter (\<lambda>s. s_status s \<in> set terminal_statuses) rows));
         allTerminal = (0 < total \<and> terminal = total)
     in
     \<lparr>pc_run = r_id r, pc_media = r_media r, pc_generation = r_generation r,
      pc_all_terminal = allTerminal, pc_total = total, pc_terminal = terminal,
      pc_waiting = count_status S_waiting rows, pc_running = count_status S_running rows,
      pc_done = count_status S_done rows, pc_skipped = count_status S_skipped rows,
      pc_failed = count_status S_failed rows, pc_cancelled = count_status S_cancelled rows,
      pc_completed_at =
        (if allTerminal then coalesce (case old of None \<Rightarrow> None | Some c \<Rightarrow> pc_completed_at c) now
         else None)\<rparr>)"

definition malformed_counts :: "completion_row \<Rightarrow> bool" where
  "malformed_counts p \<longleftrightarrow>
    pc_terminal p \<noteq> pc_done p + pc_skipped p + pc_failed p + pc_cancelled p \<or>
    pc_waiting p + pc_running p + pc_terminal p \<noteq> pc_total p \<or> pc_terminal p > pc_total p"

text \<open>\<open>INSERT \<dots> ON CONFLICT(run_id) DO UPDATE\<close>; the update leaves media and generation alone,
  and a conflict is on a row of the same run.\<close>

definition upsert_completion :: "completion_row \<Rightarrow> completion_row list \<Rightarrow> completion_row list" where
  "upsert_completion p rows =
    (if list_ex (\<lambda>c. pc_run c = pc_run p) rows
     then sql_update (\<lambda>c. pc_run c = pc_run p)
            (\<lambda>c. p\<lparr>pc_media := pc_media c, pc_generation := pc_generation c\<rparr>) rows
     else rows @ [p])"

definition RecomputePlanCompletionTx :: "int \<Rightarrow> int \<Rightarrow> db \<Rightarrow> IngestError + db" where
  "RecomputePlanCompletionTx now runID d =
    (if runID \<le> 0 then Inl InvalidRun
     else (case run_by_id d runID of
             None \<Rightarrow> Inl (RunNotFound runID)
           | Some r \<Rightarrow>
               (let rows = filter (\<lambda>s. s_run s = runID \<and> s_generation s = r_generation r) (steps d);
                    p = completion_of now r rows (find (\<lambda>c. pc_run c = runID) (completions d))
                in
                if rows = [] then Inl (EmptyPlan runID)
                else if malformed_counts p then Inl (MalformedPlan runID)
                else Inr (d\<lparr>completions := upsert_completion p (completions d)\<rparr>))))"

section \<open>Which steps are skipped\<close>

inductive impossible :: "db \<Rightarrow> int \<Rightarrow> int \<Rightarrow> bool" for d runID where
  blocked: "s \<in> set (steps d) \<Longrightarrow> s_run s = runID \<Longrightarrow> s_status s = S_waiting \<Longrightarrow>
    e \<in> set (deps d) \<Longrightarrow> d_step e = s_id s \<Longrightarrow> d_kind e = DependencySuccess \<Longrightarrow>
    p \<in> set (steps d) \<Longrightarrow> s_id p = d_on e \<Longrightarrow>
    blocking (s_status p) \<or> impossible d runID (s_id p) \<Longrightarrow> impossible d runID (s_id s)"

definition skip_rel :: "int \<Rightarrow> (int \<Rightarrow> bool) \<Rightarrow> step_row \<Rightarrow> step_row \<Rightarrow> bool" where
  "skip_rel runID imp s s' \<longleftrightarrow>
    s' = s \<or> (s_run s = runID \<and> s_status s = S_waiting \<and> imp (s_id s) \<and>
              (\<exists>now r. s' = skip_step now r s))"

text \<open>What propagation may change: steps skipped under \<open>imp\<close>, and the queue tables.\<close>

definition rest_of :: "db \<Rightarrow> db" where
  "rest_of d = d\<lparr>steps := [], posts := [], scrapes := [], transcodes := []\<rparr>"

definition skipped_to :: "int \<Rightarrow> (int \<Rightarrow> bool) \<Rightarrow> db \<Rightarrow> db \<Rightarrow> bool" where
  "skipped_to runID imp d d' \<longleftrightarrow>
    list_all2 (skip_rel runID imp) (steps d) (steps d') \<and>
    rest_of d' = rest_of d"

lemma rest_of_eq:
  assumes "rest_of d' = rest_of d"
  shows "deps d' = deps d" "runs d' = runs d" "medias d' = medias d" "completions d' = completions d"
    "next_run d' = next_run d" "next_step d' = next_step d" "jobs d' = jobs d"
  using assms [THEN arg_cong, of deps] assms [THEN arg_cong, of runs] assms [THEN arg_cong, of medias]
    assms [THEN arg_cong, of completions] assms [THEN arg_cong, of next_run]
    assms [THEN arg_cong, of next_step] assms [THEN arg_cong, of jobs]
  by (simp_all add: rest_of_def)

lemma rest_of_simps [simp]:
  "rest_of (d\<lparr>steps := x\<rparr>) = rest_of d" "rest_of (d\<lparr>posts := y\<rparr>) = rest_of d"
  "rest_of (d\<lparr>scrapes := y\<rparr>) = rest_of d" "rest_of (d\<lparr>transcodes := y\<rparr>) = rest_of d"
  "rest_of (set_queue fam y d) = rest_of d" "steps (set_queue fam y d) = steps d"
  by (simp_all add: rest_of_def set_queue_def split: QueueFamily.splits)

lemma skip_step_simps [simp]:
  "s_id (skip_step now r s) = s_id s" "s_run (skip_step now r s) = s_run s"
  "s_type (skip_step now r s) = s_type s" "s_media (skip_step now r s) = s_media s"
  "s_generation (skip_step now r s) = s_generation s" "s_required (skip_step now r s) = s_required s"
  "s_status (skip_step now r s) = S_skipped" "s_retry_round (skip_step now r s) = s_retry_round s"
  by (simp_all add: skip_step_def)

lemma skip_rel_simps:
  assumes "skip_rel runID imp s s'"
  shows "s_id s' = s_id s" "s_run s' = s_run s" "s_type s' = s_type s" "s_media s' = s_media s"
    "s_generation s' = s_generation s" "s_required s' = s_required s"
    "s_status s' = s_status s \<or> s_status s = S_waiting \<and> s_status s' = S_skipped \<and> imp (s_id s)"
  using assms by (auto simp: skip_rel_def)

lemma skip_rel_trans:
  "skip_rel runID imp s s' \<Longrightarrow> skip_rel runID imp s' s'' \<Longrightarrow> skip_rel runID imp s s''"
  by (auto simp: skip_rel_def)

lemma skipped_to_refl [simp]: "skipped_to runID imp d d"
  by (auto simp: skipped_to_def skip_rel_def list_all2_same)

lemma skipped_to_trans:
  assumes "skipped_to runID imp d d'" "skipped_to runID imp d' d''"
  shows "skipped_to runID imp d d''"
  using assms list_all2_trans [of "skip_rel runID imp" "skip_rel runID imp" "skip_rel runID imp",
      OF skip_rel_trans]
  by (auto simp: skipped_to_def)

lemma sync_skipped_frame:
  assumes "syncSkippedQueueForStepTx now s r d = Inr d'"
  shows "steps d' = steps d" "rest_of d' = rest_of d"
  using assms
  by (auto simp: syncSkippedQueueForStepTx_def Let_def split: if_splits option.splits)

lemma skip_batch_rel:
  "skip_batch now runID cs d = Inr d' \<Longrightarrow> (\<And>s e p. (s, e, p) \<in> set cs \<Longrightarrow> imp (s_id s)) \<Longrightarrow>
   skipped_to runID imp d d'"
proof (induction cs arbitrary: d)
  case (Cons c cs)
  obtain s e p where c: "c = (s, e, p)" by (cases c)
  let ?r = "Impossible (dependencyReason s p (d_kind e))"
  let ?w = "\<lambda>x. s_id x = s_id s \<and> s_run x = runID \<and> s_generation x = s_generation s \<and>
    s_status x = S_waiting"
  let ?d1 = "d\<lparr>steps := sql_update ?w (skip_step now ?r) (steps d)\<rparr>"
  show ?case
  proof (cases "sql_affected ?w (steps d) = 0")
    case True
    with Cons.prems(1) c have "skip_batch now runID cs d = Inr d'" by (simp add: Let_def)
    then show ?thesis by (rule Cons.IH) (use Cons.prems(2) in auto)
  next
    case False
    with Cons.prems(1) c obtain d1 where sync: "syncSkippedQueueForStepTx now s ?r ?d1 = Inr d1"
      and rest: "skip_batch now runID cs d1 = Inr d'"
      by (auto simp: Let_def split: sum.splits)
    have "imp (s_id s)" using Cons.prems(2) c by auto
    then have "list_all2 (skip_rel runID imp) (steps d) (steps ?d1)"
      by (auto simp: sql_update_def list_all2_map2 skip_rel_def intro!: list_all2_refl)
    then have "skipped_to runID imp d d1"
      using sync_skipped_frame [OF sync] by (simp add: skipped_to_def)
    moreover have "skipped_to runID imp d1 d'"
      by (rule Cons.IH [OF rest]) (use Cons.prems(2) in auto)
    ultimately show ?thesis by (rule skipped_to_trans)
  qed
qed simp

lemma impossible_rows_mem:
  "(s, e, p) \<in> set (impossible_rows runID d) \<longleftrightarrow>
   s \<in> set (steps d) \<and> s_run s = runID \<and> s_status s = S_waiting \<and> e \<in> set (deps d) \<and>
   d_step e = s_id s \<and> d_kind e = DependencySuccess \<and> p \<in> set (steps d) \<and> s_id p = d_on e \<and>
   blocking (s_status p)"
  by (auto simp: impossible_rows_def)

lemma skipped_to_back:
  assumes "skipped_to runID imp d d'" and "s' \<in> set (steps d')"
  obtains s where "s \<in> set (steps d)" "skip_rel runID imp s s'"
  using assms unfolding skipped_to_def list_all2_conv_all_nth in_set_conv_nth by metis

lemma skipped_to_forth:
  assumes "skipped_to runID imp d d'" and "s \<in> set (steps d)"
  obtains s' where "s' \<in> set (steps d')" "skip_rel runID imp s s'"
  using assms unfolding skipped_to_def list_all2_conv_all_nth in_set_conv_nth by metis

lemma skipped_to_deps [simp]: "skipped_to runID imp d d' \<Longrightarrow> deps d' = deps d"
  by (auto simp: skipped_to_def dest: rest_of_eq)

lemma impossible_rows_impossible:
  assumes to: "skipped_to runID (impossible d0 runID) d0 d"
    and c: "(s, e, p) \<in> set (impossible_rows runID d)"
  shows "impossible d0 runID (s_id s)"
proof -
  note m = c [unfolded impossible_rows_mem]
  obtain s0 where s0: "s0 \<in> set (steps d0)" "skip_rel runID (impossible d0 runID) s0 s"
    using skipped_to_back [OF to] m by blast
  obtain p0 where p0: "p0 \<in> set (steps d0)" "skip_rel runID (impossible d0 runID) p0 p"
    using skipped_to_back [OF to] m by blast
  have st: "s_status s = S_waiting" "s_run s = runID" "e \<in> set (deps d)" "d_step e = s_id s"
    "d_kind e = DependencySuccess" "s_id p = d_on e" "blocking (s_status p)" using m by blast+
  have "s0 = s" using s0(2) st(1) by (auto simp: skip_rel_def)
  have b: "blocking (s_status p0) \<or> impossible d0 runID (s_id p0)"
    using skip_rel_simps(7) [OF p0(2)] st(7) by auto
  show ?thesis
  proof (rule impossible.blocked [where s = s and e = e and p = p0])
    show "s \<in> set (steps d0)" using s0(1) \<open>s0 = s\<close> by simp
    show "e \<in> set (deps d0)" using st(3) skipped_to_deps [OF to] by simp
    show "s_id p0 = d_on e" using skip_rel_simps(1) [OF p0(2)] st(6) by simp
  qed (fact st p0(1) b)+
qed

lemma propagate_rel:
  "propagate fuel now runID d = Some (Inr d') \<Longrightarrow> skipped_to runID (impossible d0 runID) d0 d \<Longrightarrow>
   skipped_to runID (impossible d0 runID) d0 d' \<and> impossible_rows runID d' = []"
proof (induction fuel arbitrary: d)
  case (Suc fuel)
  show ?case
  proof (cases "impossible_rows runID d = []")
    case True
    with Suc.prems show ?thesis by simp
  next
    case False
    with Suc.prems(1) obtain d1
      where b: "skip_batch now runID (impossible_rows runID d) d = Inr d1"
        and rest: "propagate fuel now runID d1 = Some (Inr d')"
      by (auto split: sum.splits)
    have "skipped_to runID (impossible d0 runID) d d1"
      by (rule skip_batch_rel [OF b]) (rule impossible_rows_impossible [OF Suc.prems(2)])
    with Suc.prems(2) have "skipped_to runID (impossible d0 runID) d0 d1" by (rule skipped_to_trans)
    with Suc.IH [OF rest] show ?thesis by blast
  qed
qed simp

lemma all_impossible_skipped:
  assumes to: "skipped_to runID (impossible d runID) d d'" and fin: "impossible_rows runID d' = []"
    and "impossible d runID i"
  shows "\<exists>s s'. s \<in> set (steps d) \<and> s_id s = i \<and> s' \<in> set (steps d') \<and>
    skip_rel runID (impossible d runID) s s' \<and> s_status s' = S_skipped"
  using assms(3)
proof (induction rule: impossible.induct)
  case (blocked s e p)
  obtain s' where s': "s' \<in> set (steps d')" "skip_rel runID (impossible d runID) s s'"
    using skipped_to_forth [OF to blocked(1)] by blast
  have "\<exists>p' \<in> set (steps d'). s_id p' = d_on e \<and> blocking (s_status p')"
    using blocked(9)
  proof
    assume "blocking (s_status p)"
    obtain p' where p': "p' \<in> set (steps d')" "skip_rel runID (impossible d runID) p p'"
      using skipped_to_forth [OF to blocked(7)] by blast
    with \<open>blocking (s_status p)\<close> show ?thesis
      using skip_rel_simps(1,7) [OF p'(2)] blocked(8) by (auto simp: blocking_def)
  next
    assume "impossible d runID (s_id p) \<and> (\<exists>s s'. s \<in> set (steps d) \<and> s_id s = s_id p \<and>
      s' \<in> set (steps d') \<and> skip_rel runID (impossible d runID) s s' \<and> s_status s' = S_skipped)"
    then show ?thesis using blocked(8) skip_rel_simps(1) by (force simp: blocking_def)
  qed
  then obtain p' where p': "p' \<in> set (steps d')" "s_id p' = d_on e" "blocking (s_status p')" by blast
  have "s_status s' \<noteq> S_waiting"
  proof
    assume "s_status s' = S_waiting"
    then have "(s', e, p') \<in> set (impossible_rows runID d')"
      using s' p' blocked(2,4,5,6) skip_rel_simps(1,2) [OF s'(2)] skipped_to_deps [OF to]
      by (simp add: impossible_rows_mem)
    with fin show False by simp
  qed
  then have "s_status s' = S_skipped" using skip_rel_simps(7) [OF s'(2)] blocked(3) by auto
  with s' blocked(1) show ?case by blast
qed

section \<open>The loop ends\<close>

definition waiting_count :: "int \<Rightarrow> db \<Rightarrow> nat" where
  "waiting_count runID d = length (filter (\<lambda>s. s_status s = S_waiting) (run_steps d runID))"

lemma waiting_filter: "waiting_count runID d =
    length (filter (\<lambda>s. s_run s = runID \<and> s_status s = S_waiting) (steps d))"
  by (simp add: waiting_count_def run_steps_def conj_commute)

lemma update_skip_count:
  assumes "\<And>s. w s \<Longrightarrow> s_run s = runID \<and> s_status s = S_waiting"
  shows "length (filter (\<lambda>s. s_run s = runID \<and> s_status s = S_waiting)
      (sql_update w (skip_step now r) xs)) + sql_affected w xs =
    length (filter (\<lambda>s. s_run s = runID \<and> s_status s = S_waiting) xs)"
  using assms by (induction xs) (auto simp: sql_update_def sql_affected_def)

lemma skip_batch_count:
  "skip_batch now runID cs d = Inr d' \<Longrightarrow> waiting_count runID d' \<le> waiting_count runID d"
proof (induction cs arbitrary: d)
  case (Cons c cs)
  obtain s e p where c: "c = (s, e, p)" by (cases c)
  let ?r = "Impossible (dependencyReason s p (d_kind e))"
  let ?w = "\<lambda>x. s_id x = s_id s \<and> s_run x = runID \<and> s_generation x = s_generation s \<and>
    s_status x = S_waiting"
  show ?case
  proof (cases "sql_affected ?w (steps d) = 0")
    case True
    with Cons c show ?thesis by (simp add: Let_def)
  next
    case False
    with Cons.prems c obtain d1 where sync: "syncSkippedQueueForStepTx now s ?r
        (d\<lparr>steps := sql_update ?w (skip_step now ?r) (steps d)\<rparr>) = Inr d1"
      and rest: "skip_batch now runID cs d1 = Inr d'"
      by (auto simp: Let_def split: sum.splits)
    have "waiting_count runID d1 \<le> waiting_count runID d"
      using update_skip_count [of ?w runID now ?r "steps d"] sync_skipped_frame(1) [OF sync]
      by (simp add: waiting_filter)
    with Cons.IH [OF rest] show ?thesis by simp
  qed
qed simp

lemma impossible_rows_hd:
  assumes "impossible_rows runID d = (s, e, p) # cs"
  shows "s \<in> set (steps d)" "s_run s = runID" "s_status s = S_waiting"
  using impossible_rows_mem [of s e p runID d] assms by simp_all

lemma skip_batch_progress:
  assumes cs: "impossible_rows runID d = (s, e, p) # cs"
    and b: "skip_batch now runID ((s, e, p) # cs) d = Inr d'"
  shows "waiting_count runID d' < waiting_count runID d"
proof -
  let ?r = "Impossible (dependencyReason s p (d_kind e))"
  let ?w = "\<lambda>x. s_id x = s_id s \<and> s_run x = runID \<and> s_generation x = s_generation s \<and>
    s_status x = S_waiting"
  have aff: "sql_affected ?w (steps d) \<noteq> 0"
    using impossible_rows_hd [OF cs] by (auto simp: sql_affected_0)
  with b obtain d1 where sync: "syncSkippedQueueForStepTx now s ?r
      (d\<lparr>steps := sql_update ?w (skip_step now ?r) (steps d)\<rparr>) = Inr d1"
    and rest: "skip_batch now runID cs d1 = Inr d'"
    by (auto simp: Let_def split: sum.splits)
  have "waiting_count runID d1 < waiting_count runID d"
    using update_skip_count [of ?w runID now ?r "steps d"] sync_skipped_frame(1) [OF sync] aff
    by (simp add: waiting_filter)
  with skip_batch_count [OF rest] show ?thesis by simp
qed

lemma propagate_terminates: "waiting_count runID d < fuel \<Longrightarrow> propagate fuel now runID d \<noteq> None"
proof (induction fuel arbitrary: d)
  case (Suc fuel)
  show ?case
  proof (cases "impossible_rows runID d")
    case (Cons c cs)
    obtain s e p where c: "c = (s, e, p)" by (cases c)
    show ?thesis
    proof (cases "skip_batch now runID (impossible_rows runID d) d")
      case (Inr d1)
      have "waiting_count runID d1 < waiting_count runID d"
        using skip_batch_progress [of runID d s e p cs now d1] Inr Cons c by simp
      with Suc show ?thesis by (simp add: Inr)
    qed (simp add: Cons)
  qed simp
qed simp

lemma skip_batch_not_diverged: "skip_batch now runID cs d \<noteq> Inl LoopDiverged"
proof (induction cs arbitrary: d)
  case (Cons c cs)
  then show ?case
    by (cases c) (auto simp: Let_def syncSkippedQueueForStepTx_def split: sum.splits option.splits)
qed simp

lemma propagate_not_diverged: "propagate fuel now runID d \<noteq> Some (Inl LoopDiverged)"
  by (induction fuel arbitrary: d) (auto simp: skip_batch_not_diverged split: sum.splits)

text \<open>C0: Dependency propagation ends on every database: each round skips at least one waiting
  step of the run, so the number of rounds is bounded by the number of its steps.\<close>

theorem propagate_returns:
  "PropagateImpossibleDependenciesTx now runID d \<noteq> Inl LoopDiverged"
proof -
  have "waiting_count runID d < Suc (length (run_steps d runID))"
    by (simp add: waiting_count_def less_Suc_eq_le)
  from propagate_terminates [OF this, of now] obtain r
    where r: "propagate (Suc (length (run_steps d runID))) now runID d = Some r" by blast
  moreover have "r \<noteq> Inl LoopDiverged" using r propagate_not_diverged by metis
  ultimately show ?thesis by (simp add: PropagateImpossibleDependenciesTx_def del: propagate.simps)
qed

lemma Propagate_skipped_to:
  assumes "PropagateImpossibleDependenciesTx now runID d = Inr d'"
  shows "skipped_to runID (impossible d runID) d d'" "impossible_rows runID d' = []"
    and "\<not> list_ex (malformed_dep d runID) (deps d)" and "0 < runID"
  using assms propagate_rel [of _ now runID d d' d]
  by (auto simp: PropagateImpossibleDependenciesTx_def simp del: propagate.simps
      split: if_splits option.splits)

lemma step_by_id_forth:
  assumes to: "skipped_to runID imp d d'" and "distinct (map s_id (steps d))"
    and s: "step_by_id d i = Some s"
  obtains s' where "step_by_id d' i = Some s'" "skip_rel runID imp s s'"
proof -
  from s have mem: "s \<in> set (steps d)" "s_id s = i" by (auto simp: step_by_id_def dest: find_set)
  obtain s' where s': "s' \<in> set (steps d')" "skip_rel runID imp s s'"
    using skipped_to_forth [OF to mem(1)] by blast
  have "map s_id (steps d') = map s_id (steps d)"
    using to unfolding skipped_to_def list_all2_conv_all_nth
    by (intro nth_equalityI) (auto dest: skip_rel_simps(1))
  with assms(2) have "distinct (map s_id (steps d'))" by simp
  from find_key_distinct [OF this s'(1)] have "step_by_id d' i = Some s'"
    using skip_rel_simps(1) [OF s'(2)] mem(2) by (simp add: step_by_id_def)
  with s'(2) that show thesis by blast
qed

text \<open>C0: Propagation skips exactly the steps that cannot run: a waiting step of the run whose
  success dependency failed, was cancelled or was skipped, or leads to such a step. Every other
  step keeps its status, and no waiting step of the run is left with a dead dependency.\<close>

theorem Propagate_exact:
  assumes "PropagateImpossibleDependenciesTx now runID d = Inr d'" and "ingest_ok d"
    and "step_by_id d i = Some s"
  shows "(\<exists>s'. step_by_id d' i = Some s' \<and>
      s_status s' = (if impossible d runID i then S_skipped else s_status s)) \<and>
    (impossible_rows runID d' = [])"
proof (intro conjI impI)
  note to = Propagate_skipped_to [OF assms(1)]
  have dist: "distinct (map s_id (steps d))" using assms(2) by (simp add: ingest_ok_def)
  obtain s' where s': "step_by_id d' i = Some s'" "skip_rel runID (impossible d runID) s s'"
    using step_by_id_forth [OF to(1) dist assms(3)] by blast
  have mem: "s \<in> set (steps d)" "s_id s = i" using assms(3) by (auto simp: step_by_id_def dest: find_set)
  have "s_status s' = S_skipped" if imp: "impossible d runID i"
  proof -
    obtain t t' where t: "t \<in> set (steps d)" "s_id t = i" "t' \<in> set (steps d')"
      "skip_rel runID (impossible d runID) t t'" "s_status t' = S_skipped"
      using all_impossible_skipped [OF to(1,2) imp] by blast
    have "t = s" using t(1,2) mem dist by (metis eq_key_imp_eq_value distinct_map inj_on_def)
    obtain u where "step_by_id d' i = Some u" "u \<in> set (steps d')"
      using s' by (auto simp: step_by_id_def dest: find_set)
    have "map s_id (steps d') = map s_id (steps d)"
      using to(1) unfolding skipped_to_def list_all2_conv_all_nth
      by (intro nth_equalityI) (auto dest: skip_rel_simps(1))
    with dist have "distinct (map s_id (steps d'))" by simp
    from find_key_distinct [OF this t(3)] skip_rel_simps(1) [OF t(4)] t(2) s'(1)
    have "s' = t'" by (simp add: step_by_id_def)
    with t(5) show ?thesis by simp
  qed
  moreover have "s_status s' = s_status s" if "\<not> impossible d runID i"
    using skip_rel_simps(7) [OF s'(2)] that mem(2) by auto
  ultimately show "\<exists>s'. step_by_id d' i = Some s' \<and>
      s_status s' = (if impossible d runID i then S_skipped else s_status s)"
    using s'(1) by auto
  show "impossible_rows runID d' = []" by (rule to(2))
qed

lemma sample_impossible: "impossible sample_run_db 1 4"
proof -
  have "impossible sample_run_db 1 (s_id (sample_step 4 StepAIAnalysis False S_waiting))"
    by (rule impossible.blocked [where e = "\<lparr>d_step = 4, d_on = 3, d_kind = DependencySuccess\<rparr>"
          and p = "sample_step 3 StepSubtitleRecognize False S_failed"])
      (simp_all add: sample_defs blocking_def)
  then show ?thesis by (simp add: sample_step_def)
qed

lemma sample_propagate: "\<exists>d'. PropagateImpossibleDependenciesTx 9 1 sample_run_db = Inr d'"
proof -
  have r0: "impossible_rows 1 sample_run_db = [(sample_step 4 StepAIAnalysis False S_waiting,
      \<lparr>d_step = 4, d_on = 3, d_kind = DependencySuccess\<rparr>,
      sample_step 3 StepSubtitleRecognize False S_failed)]"
    by (simp add: impossible_rows_def sample_defs blocking_def)
  obtain d1 where b: "skip_batch 9 1 (impossible_rows 1 sample_run_db) sample_run_db = Inr d1"
    and e: "impossible_rows 1 d1 = []"
    unfolding r0
    by (simp add: Let_def sample_defs sql_affected_def sql_update_def syncSkippedQueueForStepTx_def
        step_names queueFamilyForStep_def queue_rows_def set_queue_def linked_def skip_step_def
        impossible_rows_def blocking_def)
  have "\<not> list_ex (malformed_dep sample_run_db 1) (deps sample_run_db)"
    by (simp add: malformed_dep_def sample_defs step_by_id_def)
  moreover have "length (run_steps sample_run_db 1) = 4"
    by (simp add: run_steps_def sample_defs)
  ultimately show ?thesis using b e r0
    by (simp add: PropagateImpossibleDependenciesTx_def eval_nat_numeral del: skip_batch.simps)
qed

theorem Propagate_exact_witness:
  "\<exists>d' s'. PropagateImpossibleDependenciesTx 9 1 sample_run_db = Inr d' \<and>
    step_by_id d' 4 = Some s' \<and> s_status s' = S_skipped"
proof -
  obtain d' where d': "PropagateImpossibleDependenciesTx 9 1 sample_run_db = Inr d'"
    using sample_propagate by blast
  have "step_by_id sample_run_db 4 = Some (sample_step 4 StepAIAnalysis False S_waiting)"
    by (simp add: step_by_id_def sample_defs)
  from Propagate_exact [OF d' sample_run_ok this] sample_impossible d' show ?thesis by auto
qed

section \<open>Plan completion\<close>

definition completion_exact :: "step_row list \<Rightarrow> completion_row \<Rightarrow> bool" where
  "completion_exact rows p \<longleftrightarrow>
    pc_total p = int (length rows) \<and>
    pc_waiting p = count_status S_waiting rows \<and> pc_running p = count_status S_running rows \<and>
    pc_done p = count_status S_done rows \<and> pc_skipped p = count_status S_skipped rows \<and>
    pc_failed p = count_status S_failed rows \<and> pc_cancelled p = count_status S_cancelled rows \<and>
    pc_terminal p = pc_done p + pc_skipped p + pc_failed p + pc_cancelled p \<and>
    pc_waiting p + pc_running p + pc_terminal p = pc_total p \<and>
    (pc_all_terminal p \<longleftrightarrow> (\<forall>s \<in> set rows. s_status s \<notin> {S_waiting, S_running}))"

lemma count_terminal:
  "int (length (filter (\<lambda>s. s_status s \<in> set terminal_statuses) rows)) =
   count_status S_done rows + count_status S_skipped rows + count_status S_failed rows +
   count_status S_cancelled rows"
  by (induction rows) (auto simp: count_status_def terminal_statuses_def)

lemma count_total:
  "\<forall>s \<in> set rows. step_status_ok s \<Longrightarrow>
   count_status S_waiting rows + count_status S_running rows +
   int (length (filter (\<lambda>s. s_status s \<in> set terminal_statuses) rows)) = int (length rows)"
  by (induction rows) (auto simp: count_status_def terminal_statuses_def active_statuses_def
      step_status_ok_def)

lemma length_filter_all: "length (filter P xs) = length xs \<longleftrightarrow> (\<forall>x \<in> set xs. P x)"
  by (metis filter_True length_filter_less nat_neq_iff)

lemma completion_of_exact:
  assumes "\<forall>s \<in> set rows. step_status_ok s" and "rows \<noteq> []"
  shows "completion_exact rows (completion_of now r rows old)"
    and "\<not> malformed_counts (completion_of now r rows old)"
proof -
  have "pc_all_terminal (completion_of now r rows old) \<longleftrightarrow>
      (\<forall>s \<in> set rows. s_status s \<in> set terminal_statuses)"
    using assms(2) by (simp add: completion_of_def Let_def length_filter_all)
  moreover have "s_status s \<in> set terminal_statuses \<longleftrightarrow> s_status s \<notin> {S_waiting, S_running}"
    if "s \<in> set rows" for s
    using assms(1) that by (auto simp: step_status_ok_def terminal_statuses_def active_statuses_def)
  ultimately show "completion_exact rows (completion_of now r rows old)"
    using count_total [OF assms(1)] count_terminal [of rows]
    by (simp add: completion_exact_def completion_of_def Let_def)
  show "\<not> malformed_counts (completion_of now r rows old)"
    using count_total [OF assms(1)] count_terminal [of rows]
      of_nat_mono [OF length_filter_le [of "\<lambda>s. s_status s \<in> set terminal_statuses" rows], where 'a = int]
    by (simp add: malformed_counts_def completion_of_def Let_def)
qed


lemma upsert_completion_find:
  assumes "distinct (map pc_run rows)"
  shows "\<exists>c. find (\<lambda>c. pc_run c = pc_run p) (upsert_completion p rows) = Some c \<and>
    (c = p \<or> (\<exists>m g. c = p\<lparr>pc_media := m, pc_generation := g\<rparr>))"
proof (cases "list_ex (\<lambda>c. pc_run c = pc_run p) rows")
  case True
  then obtain c where "find (\<lambda>c. pc_run c = pc_run p) rows = Some c"
    by (cases "find (\<lambda>c. pc_run c = pc_run p) rows") (auto simp: find_None_iff list_ex_iff)
  moreover have "find (\<lambda>c. pc_run c = pc_run p) (sql_update (\<lambda>c. pc_run c = pc_run p)
        (\<lambda>c. p\<lparr>pc_media := pc_media c, pc_generation := pc_generation c\<rparr>) rs) =
      map_option (\<lambda>c. p\<lparr>pc_media := pc_media c, pc_generation := pc_generation c\<rparr>)
        (find (\<lambda>c. pc_run c = pc_run p) rs)" for rs
    by (induction rs) (auto simp: sql_update_def)
  ultimately show ?thesis using True by (auto simp: upsert_completion_def)
next
  case False
  then have "find (\<lambda>c. pc_run c = pc_run p) (rows @ [p]) = Some p" by (induction rows) auto
  with False show ?thesis by (simp add: upsert_completion_def)
qed

text \<open>C0: After \<open>RecomputePlanCompletionTx\<close> the completion row of the run counts its steps
  exactly: one count per status, the terminal and total counts add up as the table's checks
  demand, and the plan is all-terminal exactly when no step waits or runs. On a run with steps
  the recomputation never fails.\<close>

theorem RecomputePlanCompletion_exact:
  assumes "ingest_ok d" and "run_by_id d runID = Some r" and "0 < runID"
    and "rows = filter (\<lambda>s. s_run s = runID \<and> s_generation s = r_generation r) (steps d)" and "rows \<noteq> []"
    and "distinct (map pc_run (completions d))"
  shows "\<exists>d' p. RecomputePlanCompletionTx now runID d = Inr d' \<and>
    find (\<lambda>c. pc_run c = runID) (completions d') = Some p \<and> completion_exact rows p \<and>
    d' = d\<lparr>completions := completions d'\<rparr>"
proof -
  let ?p = "completion_of now r rows (find (\<lambda>c. pc_run c = runID) (completions d))"
  have id: "r_id r = runID" using assms(2) by (auto simp: run_by_id_def dest: find_set)
  then have pr: "pc_run ?p = runID" by (simp add: completion_of_def Let_def)
  have ok: "\<forall>s \<in> set rows. step_status_ok s" using assms(1,4) by (auto simp: ingest_ok_def)
  note ex = completion_of_exact [OF ok assms(5), of now r "find (\<lambda>c. pc_run c = runID) (completions d)"]
  have "RecomputePlanCompletionTx now runID d =
      Inr (d\<lparr>completions := upsert_completion ?p (completions d)\<rparr>)"
    using assms(2,3,5) ex(2) by (simp add: RecomputePlanCompletionTx_def Let_def flip: assms(4))
  moreover obtain c where "find (\<lambda>c. pc_run c = runID) (upsert_completion ?p (completions d)) = Some c"
    "c = ?p \<or> (\<exists>m g. c = ?p\<lparr>pc_media := m, pc_generation := g\<rparr>)"
    using upsert_completion_find [OF assms(6), of ?p] pr by auto
  moreover have "completion_exact rows c" using calculation(3) ex(1) by (auto simp: completion_exact_def)
  ultimately show ?thesis by simp
qed

theorem RecomputePlanCompletion_exact_witness:
  "\<exists>d' p. RecomputePlanCompletionTx 9 1 sample_run_db = Inr d' \<and>
    find (\<lambda>c. pc_run c = 1) (completions d') = Some p \<and>
    completion_exact (steps sample_run_db) p"
  using RecomputePlanCompletion_exact [OF sample_run_ok, of 1 sample_run "steps sample_run_db" 9]
  by (fastforce simp: run_by_id_def sample_defs)

end
