(* ===== verification/Run_Lifecycle.thy ===== *)
theory Run_Lifecycle
  imports Run_Dependencies
begin

text \<open>
  The life of an ingest run (\<open>publication/aggregate.go\<close>, \<open>terminal_convergence.go\<close>,
  \<open>lifecycle_finalize.go\<close>, \<open>cancel.go\<close>, \<open>supersede.go\<close>, \<open>prepare_completion.go\<close>): the aggregation of
  step states into the run and its media, convergence of the unfinished work of a terminal run,
  explicit cancellation, and supersession by a new generation.

  The retirement barrier is a hook that another package installs, or nil: it is the argument
  \<open>hook\<close>, and a theorem that needs it to leave these tables alone says so. The release of
  plaintext temporary files after a cancellation acts outside the database and is not modelled.
\<close>

section \<open>Diagnostics\<close>

definition maxPublicationErrorBytes :: nat where "maxPublicationErrorBytes = 1500"
definition publicationErrorEllipsis :: string where "publicationErrorEllipsis = ''...''"
definition requiredStepFallback :: string where "requiredStepFallback = ''required step exhausted''"

text \<open>\<open>utf8.RuneStart\<close>: not a continuation byte.\<close>

definition RuneStart :: "char \<Rightarrow> bool" where
  "RuneStart c \<longleftrightarrow> (let n = (of_char c :: nat) in \<not> (128 \<le> n \<and> n < 192))"

fun back_to_rune :: "string \<Rightarrow> nat \<Rightarrow> nat" where
  "back_to_rune message 0 = 0"
| "back_to_rune message (Suc limit) =
    (if RuneStart (message ! Suc limit) then Suc limit else back_to_rune message limit)"

definition truncatePublicationError :: "string \<Rightarrow> string" where
  "truncatePublicationError message =
    (if length message \<le> maxPublicationErrorBytes then message
     else take (back_to_rune message (maxPublicationErrorBytes - length publicationErrorEllipsis))
            message @ publicationErrorEllipsis)"

definition diagnostic_rank :: "StepType \<Rightarrow> nat" where
  "diagnostic_rank t =
    (if t = StepPoster then 1 else if t = StepThumbnail then 2 else if t = StepEncrypt then 3 else 4)"

fun join_with :: "string \<Rightarrow> string list \<Rightarrow> string" where
  "join_with sep [] = []"
| "join_with sep [x] = x"
| "join_with sep (x # y # xs) = x @ sep @ join_with sep (y # xs)"

text \<open>\<open>marshal\<close> is the text of the JSON kept as \<open>Impossible\<close>.\<close>

definition err_string :: "(impossibleDependencyReason \<Rightarrow> string) \<Rightarrow> err_text \<Rightarrow> string" where
  "err_string marshal e = (case e of Text t \<Rightarrow> t | Impossible r \<Rightarrow> marshal r)"

definition requiredDiagnostics :: "(impossibleDependencyReason \<Rightarrow> string) \<Rightarrow> db \<Rightarrow> int \<Rightarrow> string" where
  "requiredDiagnostics marshal d runID =
    (let rows = sort_key (\<lambda>s. (diagnostic_rank (s_type s), s_id s))
           (filter (\<lambda>s. s_required s \<and> s_status s \<in> {S_failed, S_cancelled}) (run_steps d runID));
         details = filter (\<lambda>s. err_string marshal (s_error s) \<noteq> []) rows
     in
     if details = [] then requiredStepFallback
     else truncatePublicationError
       (join_with ''; '' (map (\<lambda>s. s_type s @ '': '' @ err_string marshal (s_error s)) details)))"

section \<open>Cancelling rows\<close>

text \<open>The assignments the cancelling statements share; the error text is the caller's.\<close>

definition cancel_step :: "int \<Rightarrow> (err_text \<Rightarrow> err_text) \<Rightarrow> step_row \<Rightarrow> step_row" where
  "cancel_step now err s =
    s\<lparr>s_status := S_cancelled, s_lease_owner := None, s_lease_until := None,
      s_error := err (s_error s), s_finished := coalesce (s_finished s) now\<rparr>"

definition cancel_queue :: "int \<Rightarrow> (err_text \<Rightarrow> err_text) \<Rightarrow> (int \<Rightarrow> int) \<Rightarrow> queue_row \<Rightarrow> queue_row" where
  "cancel_queue now err prog q =
    q\<lparr>q_status := S_cancelled, q_lease_owner := None, q_lease_until := None,
      q_error := err (q_error q), q_progress := prog (q_progress q),
      q_finished := coalesce (q_finished q) now\<rparr>"

definition cancel_job :: "int \<Rightarrow> (err_text \<Rightarrow> err_text) \<Rightarrow> (int \<Rightarrow> int) \<Rightarrow> job_row \<Rightarrow> job_row" where
  "cancel_job now err prog j =
    j\<lparr>j_status := S_cancelled, j_lease_owner := None, j_lease_until := None,
      j_error := err (j_error j), j_progress := prog (j_progress j),
      j_completed := coalesce (j_completed j) now\<rparr>"

definition if_blank :: "string \<Rightarrow> err_text \<Rightarrow> err_text" where
  "if_blank msg e = (if sql_blank e then Text msg else e)"

definition if_empty :: "string \<Rightarrow> err_text \<Rightarrow> err_text" where
  "if_empty msg e = (if e = no_error then Text msg else e)"

definition full :: "int \<Rightarrow> int" where "full p = 100"

definition blockedRequiredCancelMessage :: string where
  "blockedRequiredCancelMessage = ''cancelled: blocked by required failure''"

definition cancelBlockedRequiredWaiting :: "int \<Rightarrow> int \<Rightarrow> db \<Rightarrow> db" where
  "cancelBlockedRequiredWaiting now runID d =
    (let err = if_blank blockedRequiredCancelMessage;
         d1 = d\<lparr>steps := sql_update
                  (\<lambda>s. s_run s = runID \<and> s_required s \<and> s_status s = S_waiting)
                  (cancel_step now err) (steps d)\<rparr>;
         dead = map s_id (filter (\<lambda>s. s_run s = runID \<and> s_required s \<and> s_status s = S_cancelled)
                  (steps d1));
         hit = (\<lambda>sts q. q_run q = Some runID \<and> q_status q \<in> sts \<and>
                        (\<exists>i. q_step q = Some i \<and> i \<in> set dead))
     in
     d1\<lparr>posts := sql_update (hit {S_waiting, S_running}) (cancel_queue now err id) (posts d1),
        scrapes := sql_update (hit {S_waiting, S_running, S_failed}) (cancel_queue now err full)
                     (scrapes d1),
        transcodes := sql_update (hit {S_waiting, S_running}) (cancel_queue now err full)
                        (transcodes d1)\<rparr>)"

definition active_of :: "int \<Rightarrow> int \<Rightarrow> queue_row \<Rightarrow> bool" where
  "active_of runID gen q \<longleftrightarrow>
    q_run q = Some runID \<and> q_generation q = Some gen \<and> q_status q \<in> {S_waiting, S_running}"

definition active_step_of :: "int \<Rightarrow> int \<Rightarrow> step_row \<Rightarrow> bool" where
  "active_step_of runID gen s \<longleftrightarrow>
    s_run s = runID \<and> s_generation s = gen \<and> s_status s \<in> {S_waiting, S_running}"

text \<open>The rendition jobs of the transcode tasks that satisfy \<open>p\<close>.\<close>

definition cancel_jobs ::
  "(queue_row \<Rightarrow> bool) \<Rightarrow> (job_row \<Rightarrow> job_row) \<Rightarrow> db \<Rightarrow> db" where
  "cancel_jobs p f d =
    d\<lparr>jobs := map_option (sql_update
        (\<lambda>j. j_status j \<in> {S_waiting, S_running} \<and>
             j_task j \<in> set (map q_id (filter p (transcodes d)))) f) (jobs d)\<rparr>"

definition parentRunFailedReason :: string where
  "parentRunFailedReason = ''cancelled: parent run failed''"
definition parentRunCancelledReason :: string where
  "parentRunCancelledReason = ''cancelled: parent run cancelled''"

definition convergeTerminalRunTx :: "int \<Rightarrow> int \<Rightarrow> int \<Rightarrow> State \<Rightarrow> db \<Rightarrow> IngestError + db" where
  "convergeTerminalRunTx now runID gen runStatus d =
    (if runID \<le> 0 \<or> gen \<le> 0 \<or> (runStatus \<noteq> StateFailed \<and> runStatus \<noteq> StateCancelled)
     then Inl InvalidTerminalRun
     else
       (let reason = (if runStatus = StateCancelled then parentRunCancelledReason
                      else parentRunFailedReason);
            err = (\<lambda>_. Text reason);
            of_run = (\<lambda>q. q_run q = Some runID \<and> q_generation q = Some gen);
            d = cancel_jobs of_run (cancel_job now err full) d
        in
        Inr (d\<lparr>posts := sql_update (active_of runID gen) (cancel_queue now err id) (posts d),
               scrapes := sql_update (active_of runID gen) (cancel_queue now err full) (scrapes d),
               transcodes := sql_update (active_of runID gen) (cancel_queue now err full)
                               (transcodes d),
               steps := sql_update (active_step_of runID gen) (cancel_step now err) (steps d)\<rparr>)))"

section \<open>Aggregation\<close>

definition completeVisibleBarrierTx :: "int \<Rightarrow> int \<Rightarrow> int \<Rightarrow> int \<Rightarrow> db \<Rightarrow> IngestError + db" where
  "completeVisibleBarrierTx now runID mediaID gen d =
    (let visible = (\<lambda>m. m_id m = mediaID \<and> m_generation m = gen \<and> m_published_at m \<noteq> None \<and>
                        m_state m \<in> {StatePublished, StateDegraded});
         w = (\<lambda>s. s_run s = runID \<and> s_media s = mediaID \<and> s_generation s = gen \<and>
                  s_type s = StepMediaVisible \<and> s_status s = S_waiting \<and>
                  list_ex visible (medias d))
     in
     if sql_affected w (steps d) = 0 then Inr d
     else RecomputePlanCompletionTx now runID
       (d\<lparr>steps := sql_update w (\<lambda>s. s\<lparr>s_status := S_done, s_finished := coalesce (s_finished s) now\<rparr>)
                     (steps d)\<rparr>))"

definition required_count :: "status \<Rightarrow> db \<Rightarrow> int \<Rightarrow> nat" where
  "required_count st d runID =
    length (filter (\<lambda>s. s_required s \<and> s_status s = st) (run_steps d runID))"

text \<open>The \<open>switch\<close> that chooses the next state, with the statements of its failure branch.\<close>

definition next_state :: "int \<Rightarrow> run_row \<Rightarrow> db \<Rightarrow> State \<times> db" where
  "next_state now r d =
    (if r_status r = StateCancelled then (StateCancelled, d)
     else if r_status r = StateFailed then (StateFailed, d)
     else if 0 < required_count S_running d (r_id r) then (StateProcessing, d)
     else if 0 < required_count S_failed d (r_id r) \<or> 0 < required_count S_cancelled d (r_id r)
     then (if r_preserve r then StateDegraded else StateFailed,
           cancelBlockedRequiredWaiting now (r_id r) d)
     else if 0 < required_count S_waiting d (r_id r) then (StateProcessing, d)
     else (StatePublished, d))"

definition update_run :: "int \<Rightarrow> State \<Rightarrow> string \<Rightarrow> run_row \<Rightarrow> run_row" where
  "update_run now next diagnostic r =
    r\<lparr>r_status := next,
      r_error := (if next = StateCancelled then r_error r
                  else if next \<in> {StateDegraded, StateFailed} then diagnostic else []),
      r_finished := (if next = StateProcessing then None else coalesce (r_finished r) now)\<rparr>"

definition update_media :: "db \<Rightarrow> int \<Rightarrow> (media_row \<Rightarrow> media_row) \<Rightarrow> db" where
  "update_media d mediaID f = d\<lparr>medias := sql_update (\<lambda>m. m_id m = mediaID) f (medias d)\<rparr>"

definition or_cancelled :: "string \<Rightarrow> string" where
  "or_cancelled reason = (if reason = [] then ''cancelled'' else reason)"

text \<open>The media row of a current run, by the next state.\<close>

definition project_media :: "int \<Rightarrow> run_row \<Rightarrow> State \<Rightarrow> string \<Rightarrow> db \<Rightarrow> IngestError + db" where
  "project_media now r next diagnostic d =
    (let set = update_media d (r_media r) in
     case next of
       StatePublished \<Rightarrow>
         completeVisibleBarrierTx now (r_id r) (r_media r) (r_generation r)
           (set (\<lambda>m. m\<lparr>m_state := StatePublished, m_published_at := coalesce (m_published_at m) now,
                       m_error := []\<rparr>))
     | StateDegraded \<Rightarrow>
         completeVisibleBarrierTx now (r_id r) (r_media r) (r_generation r)
           (set (\<lambda>m. m\<lparr>m_state := StateDegraded, m_error := diagnostic\<rparr>))
     | StateCancelled \<Rightarrow>
         Inr (set (\<lambda>m. if r_preserve r
                       then m\<lparr>m_state := StateDegraded, m_error := or_cancelled (r_terminal_reason r)\<rparr>
                       else m\<lparr>m_state := StateCancelled, m_published_at := None,
                              m_error := or_cancelled (r_terminal_reason r)\<rparr>))
     | StateFailed \<Rightarrow>
         Inr (set (\<lambda>m. m\<lparr>m_state := StateFailed,
                         m_published_at := (if r_reason r = PlanReasonRepair then m_published_at m
                                            else None),
                         m_error := diagnostic\<rparr>))
     | StateProcessing \<Rightarrow> Inr (set (\<lambda>m. m\<lparr>m_state := StateProcessing, m_error := []\<rparr>)))"

text \<open>The state the run enters, its diagnostic, and the tables after the \<open>UPDATE\<close> of the run.\<close>

definition enter_state ::
  "(impossibleDependencyReason \<Rightarrow> string) \<Rightarrow> int \<Rightarrow> run_row \<Rightarrow> db \<Rightarrow> State \<times> string \<times> db" where
  "enter_state marshal now r d =
    (let (next, d1) = next_state now r d;
         diagnostic = (if next = StateDegraded \<or> next = StateFailed
                       then requiredDiagnostics marshal d1 (r_id r) else [])
     in (next, diagnostic,
         d1\<lparr>runs := sql_update (\<lambda>x. r_id x = r_id r) (update_run now next diagnostic) (runs d1)\<rparr>))"

definition settle_terminal :: "int \<Rightarrow> run_row \<Rightarrow> State \<Rightarrow> db \<Rightarrow> IngestError + db" where
  "settle_terminal now r next d =
    (if next = StateFailed \<or> next = StateCancelled
     then and_then (convergeTerminalRunTx now (r_id r) (r_generation r) next d)
            (RecomputePlanCompletionTx now (r_id r))
     else Inr d)"

definition project_current :: "int \<Rightarrow> run_row \<Rightarrow> State \<Rightarrow> string \<Rightarrow> db \<Rightarrow> IngestError + db" where
  "project_current now r next diagnostic d =
    (case media_by_id d (r_media r) of
       None \<Rightarrow> Inl (MediaRowNotFound (r_media r))
     | Some m \<Rightarrow>
         if m_generation m \<noteq> r_generation r then Inr d
         else if next = StateProcessing \<and> r_preserve r then Inr d
         else project_media now r next diagnostic d)"

text \<open>A superseded run and a finished published or degraded run are left alone.\<close>

definition run_closed :: "run_row \<Rightarrow> bool" where
  "run_closed r \<longleftrightarrow>
    r_superseded_by r \<noteq> None \<or> r_superseded_at r \<noteq> None \<or>
    (r_finished r \<noteq> None \<and> r_status r \<in> {StatePublished, StateDegraded})"

definition AggregateTx ::
  "(impossibleDependencyReason \<Rightarrow> string) \<Rightarrow> int \<Rightarrow> int \<Rightarrow> db \<Rightarrow> IngestError + db" where
  "AggregateTx marshal now runID d =
    (if runID \<le> 0 then Inl InvalidRun
     else (case run_by_id d runID of
             None \<Rightarrow> Inl (RunNotFound runID)
           | Some r \<Rightarrow>
               if run_closed r then Inr d
               else (case enter_state marshal now r d of
                       (next, diagnostic, d1) \<Rightarrow>
                         and_then (settle_terminal now r next d1) (project_current now r next diagnostic))))"

section \<open>Finalising a transition\<close>

type_synonym barrier_hook = "(int \<Rightarrow> db \<Rightarrow> IngestError + db) option"

definition RecomputeRetirementBarrierTx :: "barrier_hook \<Rightarrow> int \<Rightarrow> db \<Rightarrow> IngestError + db" where
  "RecomputeRetirementBarrierTx hook runID d =
    (if runID \<le> 0 then Inl InvalidRun
     else (case hook of None \<Rightarrow> Inr d | Some f \<Rightarrow> f runID d))"

definition projectNodeTransitionTx :: "barrier_hook \<Rightarrow> int \<Rightarrow> int \<Rightarrow> db \<Rightarrow> IngestError + db" where
  "projectNodeTransitionTx hook now runID d =
    and_then (PropagateImpossibleDependenciesTx now runID d)
      (\<lambda>d. and_then (RecomputePlanCompletionTx now runID d) (RecomputeRetirementBarrierTx hook runID))"

definition FinalizeNodeTransitionTx ::
  "(impossibleDependencyReason \<Rightarrow> string) \<Rightarrow> barrier_hook \<Rightarrow> int \<Rightarrow> int \<Rightarrow> db \<Rightarrow> IngestError + db" where
  "FinalizeNodeTransitionTx marshal hook now runID d =
    (if runID \<le> 0 then Inl InvalidRun
     else and_then (projectNodeTransitionTx hook now runID d) (AggregateTx marshal now runID))"

definition FinalizeClaimTransitionTx :: "int \<Rightarrow> int \<Rightarrow> db \<Rightarrow> IngestError + db" where
  "FinalizeClaimTransitionTx now runID d =
    (if runID \<le> 0 then Inl InvalidRun else RecomputePlanCompletionTx now runID d)"

section \<open>Cancellation\<close>

definition cancellable_run :: "db \<Rightarrow> int \<Rightarrow> run_row \<Rightarrow> bool" where
  "cancellable_run d runID r \<longleftrightarrow>
    r_id r = runID \<and> r_status r = StateProcessing \<and> r_superseded_by r = None \<and>
    r_superseded_at r = None \<and>
    list_ex (\<lambda>m. m_id m = r_media r \<and> m_generation m = r_generation r) (medias d)"

definition of_run_in :: "int \<Rightarrow> status set \<Rightarrow> queue_row \<Rightarrow> bool" where
  "of_run_in runID sts q \<longleftrightarrow> q_run q = Some runID \<and> q_status q \<in> sts"

text \<open>The statements after the run has been marked, in their order.\<close>

definition cancel_work :: "int \<Rightarrow> int \<Rightarrow> string \<Rightarrow> db \<Rightarrow> db" where
  "cancel_work now runID reason d =
    (let err = if_empty reason;
         d = d\<lparr>steps := sql_update (\<lambda>s. s_run s = runID \<and> s_status s \<in> {S_waiting, S_running})
                          (cancel_step now err) (steps d),
               posts := sql_update (of_run_in runID {S_waiting, S_running})
                          (cancel_queue now err id) (posts d),
               scrapes := sql_update (of_run_in runID {S_waiting, S_running})
                            (cancel_queue now err id) (scrapes d),
               transcodes := sql_update (of_run_in runID {S_waiting, S_running, S_paused})
                               (cancel_queue now err id) (transcodes d)\<rparr>
     in cancel_jobs (\<lambda>q. q_run q = Some runID) (cancel_job now err id) d)"

definition CancelRunTx ::
  "(impossibleDependencyReason \<Rightarrow> string) \<Rightarrow> barrier_hook \<Rightarrow> int \<Rightarrow> int \<Rightarrow> string \<Rightarrow> db \<Rightarrow>
   IngestError + bool \<times> db" where
  "CancelRunTx marshal hook now runID reason d =
    (if runID \<le> 0 \<or> reason = [] then Inl InvalidRun
     else if sql_affected (cancellable_run d runID) (runs d) = 0 then Inr (False, d)
     else
       (let d = d\<lparr>runs := sql_update (cancellable_run d runID)
                    (\<lambda>r. r\<lparr>r_status := StateCancelled, r_terminal_reason := reason,
                           r_finished := coalesce (r_finished r) now\<rparr>) (runs d)\<rparr>
        in
        and_then (FinalizeNodeTransitionTx marshal hook now runID (cancel_work now runID reason d))
          (\<lambda>d. Inr (True, d))))"

text \<open>The join of \<open>CancelRunForRequiredStepTx\<close>.\<close>

definition prepare_target :: "db \<Rightarrow> int \<Rightarrow> int \<Rightarrow> int \<Rightarrow> bool" where
  "prepare_target d runID stepID taskID \<longleftrightarrow>
    list_ex (\<lambda>r. r_id r = runID \<and> r_status r = StateProcessing \<and> r_superseded_by r = None \<and>
        r_superseded_at r = None \<and>
        list_ex (\<lambda>m. m_id m = r_media r \<and> m_generation m = r_generation r) (medias d) \<and>
        list_ex (\<lambda>s. s_id s = stepID \<and> s_run s = r_id r \<and> s_media s = r_media r \<and>
            s_generation s = r_generation r \<and> s_type s = StepPrepare \<and> s_required s \<and>
            s_status s \<in> {S_waiting, S_running}) (steps d) \<and>
        list_ex (\<lambda>t. q_id t = taskID \<and> q_run t = Some (r_id r) \<and> q_step t = Some stepID \<and>
            q_media t = r_media r \<and> q_generation t = Some (r_generation r) \<and>
            q_type t = StepPretranscode \<and> q_status t \<in> {S_waiting, S_running, S_paused})
          (transcodes d))
      (runs d)"

definition CancelRunForRequiredStepTx ::
  "(impossibleDependencyReason \<Rightarrow> string) \<Rightarrow> barrier_hook \<Rightarrow> int \<Rightarrow> int \<Rightarrow> int \<Rightarrow> int \<Rightarrow> string \<Rightarrow> db \<Rightarrow>
   IngestError + bool \<times> db" where
  "CancelRunForRequiredStepTx marshal hook now runID stepID taskID reason d =
    (if runID \<le> 0 \<or> stepID \<le> 0 \<or> taskID \<le> 0 \<or> reason = [] then Inl InvalidRun
     else if \<not> prepare_target d runID stepID taskID then Inr (False, d)
     else CancelRunTx marshal hook now runID reason d)"

section \<open>Supersession\<close>

definition supersededTerminalReason :: string where
  "supersededTerminalReason = ''superseded_by_policy_v2''"

definition supersede_run :: "int \<Rightarrow> int \<Rightarrow> run_row \<Rightarrow> run_row" where
  "supersede_run now newGeneration r =
    (let processing = (r_status r = StateProcessing) in
     r\<lparr>r_status := (if processing then StateCancelled else r_status r),
       r_terminal_reason := (if processing then supersededTerminalReason else r_terminal_reason r),
       r_superseded_by := Some newGeneration,
       r_superseded_at := coalesce (r_superseded_at r) now,
       r_finished := (if processing then coalesce (r_finished r) now else r_finished r)\<rparr>)"

definition supersedeGeneration :: "int \<Rightarrow> int \<Rightarrow> int \<Rightarrow> int \<Rightarrow> db \<Rightarrow> IngestError + db" where
  "supersedeGeneration now mediaID oldGeneration newGeneration d =
    (if mediaID \<le> 0 \<or> oldGeneration < 0 \<or> newGeneration \<le> oldGeneration then Inl InvalidSupersede
     else if oldGeneration = 0 then Inr d
     else (case find (\<lambda>r. r_media r = mediaID \<and> r_generation r = oldGeneration) (runs d) of
             None \<Rightarrow> Inl SupersededRunMissing
           | Some r \<Rightarrow>
               (let runID = r_id r;
                    of_run = (\<lambda>q. q_run q = Some runID \<and> q_generation q = Some oldGeneration);
                    d = d\<lparr>runs := sql_update (\<lambda>x. r_id x = runID) (supersede_run now newGeneration)
                                   (runs d),
                          steps := sql_update (active_step_of runID oldGeneration)
                                     (cancel_step now id) (steps d),
                          posts := sql_update (active_of runID oldGeneration)
                                     (cancel_queue now id id) (posts d),
                          scrapes := sql_update (active_of runID oldGeneration)
                                       (cancel_queue now id id) (scrapes d)\<rparr>;
                    d = cancel_jobs of_run (cancel_job now id id) d
                in
                Inr (d\<lparr>transcodes := sql_update (active_of runID oldGeneration)
                                       (cancel_queue now id id) (transcodes d)\<rparr>))))"

section \<open>Completion of a prepare task\<close>

record PrepareParentIdentity =
  pp_TaskID :: int
  pp_RunID :: int
  pp_StepID :: int
  pp_MediaID :: int
  pp_Generation :: int
  pp_Owner :: string
  pp_RetryRound :: int

definition prepare_parent :: "db \<Rightarrow> PrepareParentIdentity \<Rightarrow> queue_row \<Rightarrow> bool" where
  "prepare_parent d p t \<longleftrightarrow>
    q_id t = pp_TaskID p \<and> q_media t = pp_MediaID p \<and> q_run t = Some (pp_RunID p) \<and>
    q_step t = Some (pp_StepID p) \<and> q_generation t = Some (pp_Generation p) \<and>
    q_retry_round t = pp_RetryRound p \<and> q_status t = S_running \<and>
    q_lease_owner t = Some (pp_Owner p) \<and>
    list_ex (\<lambda>m. m_id m = pp_MediaID p \<and> m_generation m = pp_Generation p) (medias d) \<and>
    list_ex (\<lambda>r. r_id r = pp_RunID p \<and> r_media r = pp_MediaID p \<and>
        r_generation r = pp_Generation p \<and>
        r_status r \<in> {StateProcessing, StatePublished, StateDegraded} \<and>
        r_superseded_at r = None \<and> r_superseded_by r = None) (runs d)"

definition prepare_step :: "PrepareParentIdentity \<Rightarrow> step_row \<Rightarrow> bool" where
  "prepare_step p s \<longleftrightarrow>
    s_id s = pp_StepID p \<and> s_run s = pp_RunID p \<and> s_media s = pp_MediaID p \<and>
    s_generation s = pp_Generation p \<and> s_type s = StepPrepare \<and> s_status s = S_running \<and>
    s_lease_owner s = Some (pp_Owner p)"

definition finish_prepare_task :: "int \<Rightarrow> status \<Rightarrow> string \<Rightarrow> queue_row \<Rightarrow> queue_row" where
  "finish_prepare_task now st err t =
    t\<lparr>q_status := st, q_error := Text err, q_finished := Some now, q_lease_owner := None,
      q_lease_until := None\<rparr>"

definition finish_prepare_step :: "int \<Rightarrow> status \<Rightarrow> string \<Rightarrow> step_row \<Rightarrow> step_row" where
  "finish_prepare_step now st err s =
    s\<lparr>s_status := st, s_attempts := (if st = S_failed then s_max_attempts s else s_attempts s),
      s_error := Text err, s_finished := Some now, s_lease_owner := None, s_lease_until := None\<rparr>"

definition CompletePrepareTx ::
  "(impossibleDependencyReason \<Rightarrow> string) \<Rightarrow> barrier_hook \<Rightarrow> int \<Rightarrow> PrepareParentIdentity \<Rightarrow> bool \<Rightarrow>
   string \<Rightarrow> db \<Rightarrow> IngestError + db" where
  "CompletePrepareTx marshal hook now p success lastError d =
    (if pp_TaskID p \<le> 0 \<or> pp_RunID p \<le> 0 \<or> pp_StepID p \<le> 0 \<or> pp_MediaID p \<le> 0 \<or>
        pp_Generation p \<le> 0 \<or> pp_Owner p = []
     then Inl PrepareIdentity
     else
       (let st = (if success then S_done else S_failed);
            err = (if \<not> success \<and> lastError = [] then ''prepare failed'' else lastError);
            d1 = d\<lparr>transcodes := sql_update (prepare_parent d p) (finish_prepare_task now st err)
                     (transcodes d)\<rparr>
        in
        if sql_affected (prepare_parent d p) (transcodes d) \<noteq> 1 then Inl PrepareParentMismatch
        else if sql_affected (prepare_step p) (steps d1) \<noteq> 1 then Inl PrepareStepMismatch
        else
          FinalizeNodeTransitionTx marshal hook now (pp_RunID p)
            (d1\<lparr>steps := sql_update (prepare_step p) (finish_prepare_step now st err) (steps d1)\<rparr>)))"

end
