(* ===== verification/Run_Transitions.thy ===== *)
theory Run_Transitions
  imports Run_Lifecycle
begin

text \<open>
  Claiming and reopening work (\<open>publication/eligibility.go\<close>, \<open>publication/plan_completion.go\<close>):
  the eligibility predicates of the queue families, the atomic claim of a candidate with the
  transition of its step, and the operator's reopening of an optional step.
\<close>

section \<open>Eligibility\<close>

definition familyDue :: "QueueFamily \<Rightarrow> int \<Rightarrow> db \<Rightarrow> queue_row \<Rightarrow> bool" where
  "familyDue fam now d q =
    (case fam of
       QueuePostIngest \<Rightarrow>
         q_status q = S_waiting \<and> q_removed q = None \<and> q_available q \<le> now \<and>
         q_attempts q < q_max_attempts q \<and>
         (case q_scan_task q of
            None \<Rightarrow> True
          | Some i \<Rightarrow> list_ex (\<lambda>sc. sc_id sc = i \<and> \<not> sc_cancelled sc) (scans d))
     | QueueScrape \<Rightarrow>
         q_status q \<in> {S_waiting, S_failed} \<and> q_attempts q < DefaultNetworkMaxAttempts \<and>
         q_available q \<le> now \<and>
         (case q_lease_until q of None \<Rightarrow> True | Some t \<Rightarrow> t < now)
     | QueuePrepare \<Rightarrow>
         q_status q = S_waiting \<and> q_type q = StepPretranscode \<and>
         (case q_lease_until q of None \<Rightarrow> True | Some t \<Rightarrow> t < now))"

definition familyLegacy :: "queue_row \<Rightarrow> bool" where
  "familyLegacy q \<longleftrightarrow>
    q_run q = None \<and> q_step q = None \<and> (q_generation q = None \<or> q_generation q = Some 0)"

text \<open>The \<open>NOT EXISTS\<close> over the dependencies of a step.\<close>

definition dependency_met :: "db \<Rightarrow> step_row \<Rightarrow> dep_row \<Rightarrow> bool" where
  "dependency_met d st e \<longleftrightarrow>
    (case step_by_id d (d_on e) of
       None \<Rightarrow> False
     | Some p \<Rightarrow>
         s_run p = s_run st \<and> s_media p = s_media st \<and> s_generation p = s_generation st \<and>
         ((d_kind e = DependencySuccess \<and> s_status p = S_done) \<or>
          (d_kind e = DependencyTerminal \<and> s_status p \<in> set terminal_statuses)))"

definition dependencies_met :: "db \<Rightarrow> step_row \<Rightarrow> bool" where
  "dependencies_met d st \<longleftrightarrow> list_all (dependency_met d st) (filter (\<lambda>e. d_step e = s_id st) (deps d))"

definition no_required_in :: "db \<Rightarrow> int \<Rightarrow> status set \<Rightarrow> bool" where
  "no_required_in d runID sts \<longleftrightarrow>
    list_all (\<lambda>rr. \<not> (s_run rr = runID \<and> s_required rr \<and> s_status rr \<in> sts)) (steps d)"

text \<open>The admission of a step by the state of its run and its media.\<close>

definition run_admits :: "db \<Rightarrow> step_row \<Rightarrow> run_row \<Rightarrow> media_row \<Rightarrow> bool" where
  "run_admits d st r m \<longleftrightarrow>
    (s_required st \<and> r_status r = StateProcessing) \<or>
    (\<not> s_required st \<and> m_published_at m \<noteq> None \<and>
     ((r_status r = StateProcessing \<and>
         m_state m \<in> {StateProcessing, StatePublished, StateDegraded}) \<or>
      (r_status r = StatePublished \<and>
         no_required_in d (r_id r) (- {S_done, S_skipped})) \<or>
      (r_status r = StateDegraded \<and> no_required_in d (r_id r) {S_waiting, S_running})))"

definition linkedEligible :: "db \<Rightarrow> queue_row \<Rightarrow> bool" where
  "linkedEligible d q \<longleftrightarrow>
    (case (q_run q, q_step q, q_generation q) of
       (Some runID, Some stepID, Some gen) \<Rightarrow>
         (case (step_by_id d stepID, run_by_id d runID) of
            (Some st, Some r) \<Rightarrow>
              (case media_by_id d (s_media st) of
                 None \<Rightarrow> False
               | Some m \<Rightarrow>
                   s_run st = runID \<and> s_media st = q_media q \<and> s_generation st = gen \<and>
                   r_media r = s_media st \<and> r_generation r = s_generation st \<and>
                   r_superseded_at r = None \<and> r_superseded_by r = None \<and>
                   m_generation m = s_generation st \<and> s_status st = S_waiting \<and>
                   run_admits d st r m \<and> dependencies_met d st)
          | _ \<Rightarrow> False)
     | _ \<Rightarrow> False)"

definition repairEligible :: "db \<Rightarrow> queue_row \<Rightarrow> bool" where
  "repairEligible d q \<longleftrightarrow>
    q_type q = ''poster_repair'' \<and> q_step q = None \<and>
    (case (q_run q, q_generation q) of
       (Some runID, Some gen) \<Rightarrow>
         0 < gen \<and>
         list_ex (\<lambda>m. m_id m = q_media q \<and> m_generation m = gen \<and>
             m_state m \<in> {StatePublished, StateDegraded} \<and> m_published_at m \<noteq> None \<and>
             list_ex (\<lambda>r. r_id r = runID \<and> r_media r = q_media q \<and> r_generation r = gen \<and>
                 r_superseded_at r = None \<and> r_superseded_by r = None) (runs d)) (medias d)
     | _ \<Rightarrow> False)"

section \<open>Claims\<close>

definition claim_lease :: int where "claim_lease = 90"

definition claim_row :: "QueueFamily \<Rightarrow> int \<Rightarrow> string \<Rightarrow> queue_row \<Rightarrow> queue_row" where
  "claim_row fam now owner q =
    (let q' = q\<lparr>q_status := S_running, q_lease_owner := Some owner,
                q_lease_until := Some (now + claim_lease), q_started := coalesce (q_started q) now\<rparr>
     in
     case fam of
       QueuePostIngest \<Rightarrow> q'\<lparr>q_attempts := q_attempts q + 1\<rparr>
     | QueueScrape \<Rightarrow> q'\<lparr>q_attempts := q_attempts q + 1, q_progress := 15,
                         q_error := Text ''scraping...''\<rparr>
     | QueuePrepare \<Rightarrow> q')"

definition claimable :: "QueueFamily \<Rightarrow> string \<Rightarrow> int \<Rightarrow> db \<Rightarrow> queue_row \<Rightarrow> bool" where
  "claimable fam taskType now d q \<longleftrightarrow>
    familyDue fam now d q \<and>
    (familyLegacy q \<or> linkedEligible d q \<or>
     (fam = QueuePostIngest \<and> taskType = ''poster_repair'' \<and> repairEligible d q))"

definition claim_attempts :: "QueueFamily \<Rightarrow> queue_row \<Rightarrow> int" where
  "claim_attempts fam q = (if fam = QueuePrepare then 1 else q_attempts q)"

definition claim_step :: "int \<Rightarrow> string \<Rightarrow> int \<Rightarrow> int option \<Rightarrow> step_row \<Rightarrow> step_row" where
  "claim_step now owner attempts lease s =
    s\<lparr>s_status := S_running, s_attempts := attempts, s_lease_owner := Some owner,
      s_lease_until := lease, s_started := coalesce (s_started s) now\<rparr>"

definition updateFamilyClaim ::
  "QueueFamily \<Rightarrow> string \<Rightarrow> int \<Rightarrow> int \<Rightarrow> string \<Rightarrow> db \<Rightarrow> IngestError + queue_row option \<times> db" where
  "updateFamilyClaim fam taskType now qid owner d =
    (let p = (\<lambda>q. q_id q = qid \<and> claimable fam taskType now d q) in
     case find p (queue_rows fam d) of
       None \<Rightarrow> Inr (None, d)
     | Some q0 \<Rightarrow>
         (let d' = set_queue fam (sql_update p (claim_row fam now owner) (queue_rows fam d)) d;
              q = claim_row fam now owner q0
          in
          case q_step q of
            None \<Rightarrow> Inr (Some q, d')
          | Some stepID \<Rightarrow>
              (let w = (\<lambda>s. s_id s = stepID \<and> s_status s = S_waiting) in
               if sql_affected w (steps d') \<noteq> 1 then Inl ClaimTransition
               else
                 (let d'' = d'\<lparr>steps := sql_update w
                        (claim_step now owner (claim_attempts fam q) (q_lease_until q)) (steps d')\<rparr>
                  in
                  case q_run q of
                    None \<Rightarrow> Inr (Some q, d'')
                  | Some runID \<Rightarrow>
                      and_then (FinalizeClaimTransitionTx now runID d'') (\<lambda>x. Inr (Some q, x))))))"

section \<open>Reopening\<close>

record ReopenRequest =
  ro_RunID :: int
  ro_StepID :: int
  ro_ActorID :: int
  ro_Target :: StepType
  ro_Reason :: string
  ro_ExpectedGeneration :: int
  ro_ExpectedRetryRound :: int

definition resolveQueueIdentity ::
  "db \<Rightarrow> int \<Rightarrow> int \<Rightarrow> int \<Rightarrow> StepType \<Rightarrow> IngestError + QueueFamily \<times> queue_row" where
  "resolveQueueIdentity d stepID runID gen stepType =
    (case queueFamilyForStep stepType of
       None \<Rightarrow> Inl (NoQueueFamily stepType)
     | Some fam \<Rightarrow>
         (case filter (linked stepID runID gen) (queue_rows fam d) of
            [] \<Rightarrow> Inl QueueMissing
          | [q] \<Rightarrow> Inr (fam, q)
          | _ \<Rightarrow> Inl QueueAmbiguous))"

definition family_name :: "QueueFamily \<Rightarrow> string" where
  "family_name fam =
    (case fam of QueuePostIngest \<Rightarrow> ''post_ingest'' | QueueScrape \<Rightarrow> ''scrape''
     | QueuePrepare \<Rightarrow> ''prepare'')"

definition writeReopenAudit ::
  "ReopenRequest \<Rightarrow> QueueFamily \<Rightarrow> queue_row \<Rightarrow> step_row \<Rightarrow> int \<Rightarrow> db \<Rightarrow> db" where
  "writeReopenAudit req fam q s nextRound d =
    d\<lparr>audits := audits d @
      [\<lparr>a_media = s_media s, a_run = s_run s, a_step = s_id s, a_task = q_id q,
        a_generation = s_generation s, a_family = family_name fam, a_type = s_type s,
        a_actor = ro_ActorID req, a_reason = ro_Reason req, a_queue_status = q_status q,
        a_step_status = s_status s, a_attempts = s_attempts s, a_queue_error = q_error q,
        a_step_error = s_error s, a_retry_round = nextRound\<rparr>]\<rparr>"

definition reopenable :: "status \<Rightarrow> bool" where
  "reopenable st \<longleftrightarrow> st \<in> {S_failed, S_cancelled, S_skipped}"

definition reopen_step :: "int \<Rightarrow> step_row \<Rightarrow> step_row" where
  "reopen_step nextRound s =
    s\<lparr>s_status := S_waiting, s_retry_round := nextRound, s_error := no_error,
      s_lease_owner := None, s_lease_until := None, s_finished := None\<rparr>"

definition reopen_queue :: "QueueFamily \<Rightarrow> int \<Rightarrow> int \<Rightarrow> queue_row \<Rightarrow> queue_row" where
  "reopen_queue fam now nextRound q =
    q\<lparr>q_status := S_waiting, q_error := no_error, q_retry_round := nextRound,
      q_lease_owner := None, q_lease_until := None, q_finished := None,
      q_available := (if fam = QueuePrepare then q_available q else now)\<rparr>"

definition reopenStepAndQueue ::
  "int \<Rightarrow> ReopenRequest \<Rightarrow> QueueFamily \<Rightarrow> queue_row \<Rightarrow> step_row \<Rightarrow> db \<Rightarrow> IngestError + db" where
  "reopenStepAndQueue now req fam q s d =
    (let nodeRound = s_retry_round s; gen = s_generation s; nextRound = nodeRound + 1 in
     if q_retry_round q \<noteq> nodeRound then Inl RetryRoundDesync
     else if ro_ExpectedRetryRound req \<noteq> nodeRound then Inl RetryRoundFence
     else
       (let d = writeReopenAudit req fam q s nextRound d;
            w = (\<lambda>x. s_id x = ro_StepID req \<and> s_run x = ro_RunID req \<and> s_generation x = gen \<and>
                     reopenable (s_status x) \<and> s_retry_round x = nodeRound);
            v = (\<lambda>x. q_id x = q_id q \<and> linked (ro_StepID req) (ro_RunID req) gen x \<and>
                     reopenable (q_status x) \<and> q_retry_round x = q_retry_round q)
        in
        if sql_affected w (steps d) \<noteq> 1 then Inl (StepNotReopened (ro_StepID req))
        else if sql_affected v (queue_rows fam d) \<noteq> 1 then Inl (QueueNotReopened (q_id q))
        else Inr (set_queue fam (sql_update v (reopen_queue fam now nextRound) (queue_rows fam d))
               (d\<lparr>steps := sql_update w (reopen_step nextRound) (steps d)\<rparr>))))"

text \<open>The rows of \<open>validateAIReopenPredecessors\<close>: dependencies joined with predecessors of the run
  and generation.\<close>

definition check_predecessor :: "DependencyKind \<times> status \<Rightarrow> IngestError option" where
  "check_predecessor ks =
    (if fst ks = DependencySuccess
     then (if snd ks \<noteq> S_done then Some ReopenPredecessorNotDone else None)
     else if fst ks = DependencyTerminal
     then (if snd ks \<notin> set terminal_statuses then Some ReopenPredecessorNotTerminal else None)
     else Some (ReopenUnknownKind (fst ks)))"

definition predecessor_rows :: "db \<Rightarrow> int \<Rightarrow> int \<Rightarrow> int \<Rightarrow> (DependencyKind \<times> status) list" where
  "predecessor_rows d stepID runID gen =
    [(d_kind e, s_status p). e \<leftarrow> deps d, d_step e = stepID,
      p \<leftarrow> steps d, s_id p = d_on e \<and> s_run p = runID \<and> s_generation p = gen]"

definition validateAIReopenPredecessors :: "db \<Rightarrow> int \<Rightarrow> int \<Rightarrow> int \<Rightarrow> IngestError option" where
  "validateAIReopenPredecessors d stepID runID gen =
    (let rows = predecessor_rows d stepID runID gen in
     case first_error check_predecessor rows of
       Some e \<Rightarrow> Some e
     | None \<Rightarrow> if rows = [] then Some ReopenNoPredecessors else None)"

definition cascade_reason :: "step_row \<Rightarrow> int \<Rightarrow> int \<Rightarrow> bool" where
  "cascade_reason s recognitionID gen \<longleftrightarrow>
    (case s_error s of
       Text _ \<Rightarrow> False
     | Impossible r \<Rightarrow>
         PredecessorID r = recognitionID \<and> PredecessorType r = StepSubtitleRecognize \<and>
         reason_Kind r = DependencySuccess \<and> reason_Generation r = gen \<and>
         reopenable (PredecessorState r))"

fun cascade_each ::
  "int \<Rightarrow> ReopenRequest \<Rightarrow> int \<Rightarrow> int \<Rightarrow> step_row list \<Rightarrow> db \<Rightarrow> IngestError + db" where
  "cascade_each now req recognitionID gen [] d = Inr d"
| "cascade_each now req recognitionID gen (c # cs) d =
    (if \<not> cascade_reason c recognitionID gen then cascade_each now req recognitionID gen cs d
     else
       and_then (resolveQueueIdentity d (s_id c) (ro_RunID req) gen StepAIAnalysis)
         (\<lambda>(fam, q). and_then
            (reopenStepAndQueue now
              (req\<lparr>ro_StepID := s_id c, ro_Target := StepAIAnalysis,
                   ro_ExpectedRetryRound := s_retry_round c\<rparr>) fam q c d)
            (cascade_each now req recognitionID gen cs)))"

definition cascadeRecognitionSkippedAI ::
  "int \<Rightarrow> ReopenRequest \<Rightarrow> int \<Rightarrow> int \<Rightarrow> int \<Rightarrow> db \<Rightarrow> IngestError + db" where
  "cascadeRecognitionSkippedAI now req recognitionID runID gen d =
    cascade_each now req recognitionID gen
      (sort_key s_id
        (filter (\<lambda>s. s_run s = runID \<and> s_generation s = gen \<and> s_type s = StepAIAnalysis \<and>
            s_status s = S_skipped \<and>
            list_ex (\<lambda>e. d_step e = s_id s \<and> d_on e = recognitionID \<and>
                d_kind e = DependencySuccess) (deps d)) (steps d))) d"

definition operator_reopenable :: "StepType list" where
  "operator_reopenable =
    [StepPreview, StepSubtitle, StepScrape, StepPrepare, StepSubtitleExtract, StepAtrackExtract,
     StepSubtitleRecognize, StepKeyframeExtract, StepAIAnalysis]"

definition ReopenNodeTx ::
  "(impossibleDependencyReason \<Rightarrow> string) \<Rightarrow> barrier_hook \<Rightarrow> int \<Rightarrow> ReopenRequest \<Rightarrow> db \<Rightarrow> IngestError + db" where
  "ReopenNodeTx marshal hook now req d =
    (if ro_RunID req \<le> 0 \<or> ro_StepID req \<le> 0 \<or> ro_ActorID req \<le> 0 \<or> ro_Reason req = []
     then Inl ReopenNeedsActor
     else (case find (\<lambda>s. s_id s = ro_StepID req \<and> s_run s = ro_RunID req) (steps d) of
             None \<Rightarrow> Inl (StepNotFound (ro_StepID req))
           | Some s \<Rightarrow>
               if ro_Target req \<noteq> '''' \<and> ro_Target req \<noteq> s_type s then Inl ReopenTargetMismatch
               else if ro_ExpectedGeneration req \<noteq> 0 \<and> ro_ExpectedGeneration req \<noteq> s_generation s
               then Inl ReopenGenerationFence
               else if s_required s then Inl ReopenRequired
               else if s_type s \<notin> set operator_reopenable then Inl (ReopenNotAllowed (s_type s))
               else if \<not> reopenable (s_status s) then Inl (ReopenNotTerminal (s_id s))
               else
                 (case (if s_type s = StepAIAnalysis
                        then validateAIReopenPredecessors d (ro_StepID req) (ro_RunID req) (s_generation s)
                        else None) of
                    Some e \<Rightarrow> Inl e
                  | None \<Rightarrow>
                      and_then
                        (resolveQueueIdentity d (ro_StepID req) (ro_RunID req) (s_generation s) (s_type s))
                        (\<lambda>(fam, q). and_then (reopenStepAndQueue now req fam q s d)
                           (\<lambda>d. and_then
                              (if s_type s = StepSubtitleRecognize
                               then cascadeRecognitionSkippedAI now req (ro_StepID req) (ro_RunID req)
                                      (s_generation s) d
                               else Inr d)
                              (FinalizeNodeTransitionTx marshal hook now (ro_RunID req)))))))"

end
