(* ===== verification/Run_Safety.thy ===== *)
theory Run_Safety
  imports Run_Transitions
begin

text \<open>
  What every transition of an ingest run keeps: steps keep their identity, a done step stays
  done, and no step runs or finishes before the steps it depends on have succeeded.

  The locale \<open>step_contract\<close> is the contract an operation on the tables has to meet; it is
  interpreted on each operation of \<open>Run_Lifecycle\<close> and \<open>Run_Transitions\<close>. \<open>run_step\<close> is the
  transition relation they form together; what it keeps, its steps keep
  (\<open>run_steps_preserve\<close>). The retirement hook is absent, as in this repository, which never
  installs one.
\<close>

section \<open>The contract\<close>

definition deps_done :: "db \<Rightarrow> int \<Rightarrow> bool" where
  "deps_done d i \<longleftrightarrow>
    (\<forall>e \<in> set (deps d). d_step e = i \<and> d_kind e = DependencySuccess \<longrightarrow>
       (\<exists>p \<in> set (steps d). s_id p = d_on e \<and> s_status p = S_done))"

text \<open>The barrier \<open>media_visible\<close> is completed by publication itself, not by a worker.\<close>

definition safe :: "db \<Rightarrow> bool" where
  "safe d \<longleftrightarrow>
    (\<forall>s \<in> set (steps d). (s_status s = S_running \<or> s_status s = S_done) \<longrightarrow>
       s_type s = StepMediaVisible \<or> deps_done d (s_id s))"

text \<open>The state machine of one step. A done step never moves again; a running step goes back to
  waiting when an attempt failed or its worker was lost; a step leaves a failed, cancelled or
  skipped state only by being reopened, which an operator may do to an optional
  step, and the recognition cascade to an analysis step.\<close>

inductive move :: "StepType \<Rightarrow> bool \<Rightarrow> status \<Rightarrow> status \<Rightarrow> bool" for stepType required where
  start: "move stepType required S_waiting S_running"
| succeed: "move stepType required S_running S_done"
| fail: "move stepType required S_running S_failed"
| skip: "move stepType required S_waiting S_skipped"
| cancel: "st \<in> {S_waiting, S_running} \<Longrightarrow> move stepType required st S_cancelled"
| retry: "move stepType required S_running S_waiting"
| publish: "stepType = StepMediaVisible \<Longrightarrow> move stepType required S_waiting S_done"
| reopen: "\<not> required \<or> stepType = StepAIAnalysis \<Longrightarrow> reopenable st \<Longrightarrow>
    move stepType required st S_waiting"

lemmas one_move = move.intros [THEN r_into_rtranclp [where r = "move t r" for t r]]

inductive_cases moveE: "move t r a b"
inductive_simps move_done: "move t r S_done b"
inductive_simps move_skipped: "move t r S_skipped b"

lemma no_move_from_done: "\<not> move t r S_done b"
  by (simp add: move_done reopenable_def)

lemma no_move_from_skipped: "t \<noteq> StepAIAnalysis \<Longrightarrow> \<not> move t True S_skipped b"
  by (simp add: move_skipped)

lemma moves_from_done: "(move t r)\<^sup>*\<^sup>* S_done b \<Longrightarrow> b = S_done"
  by (erule converse_rtranclpE) (simp_all add: no_move_from_done)

lemma moves_from_skipped:
  assumes "(move t True)\<^sup>*\<^sup>* S_skipped b" and "t \<noteq> StepAIAnalysis"
  shows "b = S_skipped"
  using assms(1) by (rule converse_rtranclpE) (simp_all add: no_move_from_skipped [OF assms(2)])

definition same_step :: "step_row \<Rightarrow> step_row \<Rightarrow> bool" where
  "same_step s s' \<longleftrightarrow>
    s_id s' = s_id s \<and> s_run s' = s_run s \<and> s_media s' = s_media s \<and>
    s_generation s' = s_generation s \<and> s_type s' = s_type s \<and> s_required s' = s_required s \<and>
    s_retry_round s \<le> s_retry_round s' \<and>
    (move (s_type s) (s_required s))\<^sup>*\<^sup>* (s_status s) (s_status s')"

definition step_ids :: "db \<Rightarrow> int list" where
  "step_ids d = map s_id (steps d)"

definition preserves :: "db \<Rightarrow> db \<Rightarrow> bool" where
  "preserves d d' \<longleftrightarrow>
    (distinct (step_ids d) \<longrightarrow>
      list_all2 same_step (steps d) (steps d') \<and> deps d' = deps d \<and> (safe d \<longrightarrow> safe d'))"

lemma same_step_refl [simp]: "same_step s s" by (simp add: same_step_def)

lemma same_step_trans: "same_step s s' \<Longrightarrow> same_step s' s'' \<Longrightarrow> same_step s s''"
  unfolding same_step_def using rtranclp_trans [of "move (s_type s) (s_required s)" "s_status s" "s_status s'" "s_status s''"]
  by simp

lemma same_step_done: "same_step s s' \<Longrightarrow> s_status s = S_done \<Longrightarrow> s_status s' = S_done"
  using moves_from_done [of "s_type s" "s_required s"] by (simp add: same_step_def)

lemma same_step_ids: "list_all2 same_step (steps d) (steps d') \<Longrightarrow> step_ids d' = step_ids d"
  unfolding step_ids_def list_all2_conv_all_nth
  by (intro nth_equalityI) (auto simp: same_step_def)

lemma preserves_refl [simp]: "preserves d d"
  by (simp add: preserves_def list_all2_same)

lemma preserves_trans [trans]: "preserves d d' \<Longrightarrow> preserves d' d'' \<Longrightarrow> preserves d d''"
  unfolding preserves_def
  using same_step_ids [of d d']
    list_all2_trans [of same_step same_step same_step "steps d" "steps d'" "steps d''", OF same_step_trans]
  by simp

lemma preserves_same: "steps d' = steps d \<Longrightarrow> deps d' = deps d \<Longrightarrow> preserves d d'"
  by (simp add: preserves_def list_all2_same safe_def deps_done_def)

lemma list_all2_forth:
  assumes "list_all2 P xs ys" and "x \<in> set xs"
  shows "\<exists>y \<in> set ys. P x y"
  using assms by (induction rule: list_all2_induct) auto

lemma deps_done_mono:
  assumes "list_all2 same_step (steps d) (steps d')" and "deps d' = deps d" and "deps_done d i"
  shows "deps_done d' i"
  unfolding deps_done_def
proof (intro ballI impI)
  fix e assume "e \<in> set (deps d')" "d_step e = i \<and> d_kind e = DependencySuccess"
  with assms(2,3) obtain p where p: "p \<in> set (steps d)" "s_id p = d_on e" "s_status p = S_done"
    unfolding deps_done_def by auto
  obtain p' where p': "p' \<in> set (steps d')" "same_step p p'"
    using list_all2_forth [OF assms(1) p(1)] by blast
  have "s_id p' = d_on e" using p(2) p'(2) by (simp add: same_step_def)
  moreover have "s_status p' = S_done" using p(3) p'(2) by (simp add: same_step_done)
  ultimately show "\<exists>p \<in> set (steps d'). s_id p = d_on e \<and> s_status p = S_done"
    using p'(1) by blast
qed

text \<open>One statement: a step may start when its dependencies are done, may finish when it ran, and
  a done step is left alone.\<close>

definition step_change_ok :: "db \<Rightarrow> step_row \<Rightarrow> step_row \<Rightarrow> bool" where
  "step_change_ok d s s' \<longleftrightarrow>
    same_step s s' \<and>
    (s_status s' = S_running \<longrightarrow> s_status s = S_running \<or> deps_done d (s_id s)) \<and>
    (s_status s' = S_done \<longrightarrow> s_status s \<in> {S_running, S_done} \<or> s_type s = StepMediaVisible)"

lemma change_preserves:
  assumes "list_all2 (step_change_ok d) (steps d) (steps d')" and "deps d' = deps d"
  shows "preserves d d'"
proof -
  have all: "list_all2 same_step (steps d) (steps d')"
    using assms(1) by (rule list_all2_mono) (simp add: step_change_ok_def)
  have "safe d'" if "safe d"
    unfolding safe_def
  proof (intro ballI impI)
    fix s' assume s': "s' \<in> set (steps d')" and st: "s_status s' = S_running \<or> s_status s' = S_done"
    from s' assms(1) obtain s where s: "s \<in> set (steps d)" "step_change_ok d s s'"
      unfolding list_all2_conv_all_nth in_set_conv_nth by metis
    then have "s_type s = StepMediaVisible \<or> deps_done d (s_id s)"
      using that st unfolding safe_def step_change_ok_def by blast
    then show "s_type s' = StepMediaVisible \<or> deps_done d' (s_id s')"
      using deps_done_mono [OF all assms(2)] s(2) by (auto simp: step_change_ok_def same_step_def)
  qed
  with all assms(2) show ?thesis by (simp add: preserves_def)
qed

lemma update_preserves:
  assumes "steps d' = sql_update w f (steps d)" and "deps d' = deps d"
    and "\<And>s. s \<in> set (steps d) \<Longrightarrow> w s \<Longrightarrow> distinct (step_ids d) \<Longrightarrow> step_change_ok d s (f s)"
  shows "preserves d d'"
proof (cases "distinct (step_ids d)")
  case True
  show ?thesis
  proof (rule change_preserves [OF _ assms(2)])
    have "step_change_ok d s (if w s then f s else s)" if "s \<in> set (steps d)" for s
      using assms(3) [OF that _ True] by (auto simp: step_change_ok_def)
    then show "list_all2 (step_change_ok d) (steps d) (steps d')"
      by (simp add: assms(1) sql_update_def list_all2_map2 list_all2_same)
  qed
qed (simp add: preserves_def)

locale step_contract =
  fixes op :: "'i \<Rightarrow> db \<Rightarrow> IngestError + db"
  assumes keeps: "op i d = Inr d' \<Longrightarrow> preserves d d'"
begin

lemma keeps_safe: "op i d = Inr d' \<Longrightarrow> distinct (step_ids d) \<Longrightarrow> safe d \<Longrightarrow> safe d'"
  using keeps by (auto simp: preserves_def)

lemma keeps_ids: "op i d = Inr d' \<Longrightarrow> distinct (step_ids d) \<Longrightarrow> step_ids d' = step_ids d"
  using keeps same_step_ids by (auto simp: preserves_def)

lemma keeps_deps: "op i d = Inr d' \<Longrightarrow> distinct (step_ids d) \<Longrightarrow> deps d' = deps d"
  using keeps by (auto simp: preserves_def)

text \<open>A repetition of the operation meets the contract as well.\<close>

lemma keeps_iterated:
  "foldl (\<lambda>r i. and_then r (op i)) (Inr d) is = Inr d' \<Longrightarrow> preserves d d'"
proof (induction "is" arbitrary: d' rule: rev_induct)
  case (snoc i "is")
  then obtain d1 where "foldl (\<lambda>r i. and_then r (op i)) (Inr d) is = Inr d1" "op i d1 = Inr d'"
    by (auto simp: and_then_Inr_iff)
  with snoc.IH keeps show ?case by (blast intro: preserves_trans)
qed simp

end

section \<open>The statements\<close>

lemma set_queue_deps [simp]: "deps (set_queue fam y d) = deps d"
  by (simp add: set_queue_def split: QueueFamily.splits)

lemma cancel_jobs_simps [simp]:
  "steps (cancel_jobs p f d) = steps d" "deps (cancel_jobs p f d) = deps d"
  "posts (cancel_jobs p f d) = posts d" "scrapes (cancel_jobs p f d) = scrapes d"
  "transcodes (cancel_jobs p f d) = transcodes d" "runs (cancel_jobs p f d) = runs d"
  "medias (cancel_jobs p f d) = medias d" "completions (cancel_jobs p f d) = completions d"
  by (simp_all add: cancel_jobs_def)

lemma update_media_simps [simp]:
  "steps (update_media d i f) = steps d" "deps (update_media d i f) = deps d"
  "runs (update_media d i f) = runs d" "posts (update_media d i f) = posts d"
  "scrapes (update_media d i f) = scrapes d" "transcodes (update_media d i f) = transcodes d"
  by (simp_all add: update_media_def)

lemma cancel_change: "s_status s \<in> {S_waiting, S_running} \<Longrightarrow> step_change_ok d s (cancel_step now err s)"
  by (auto simp: step_change_ok_def same_step_def cancel_step_def intro: one_move)

lemma reopen_change:
  assumes "reopenable (s_status s)" and "\<not> s_required s \<or> s_type s = StepAIAnalysis"
    and "s_retry_round s \<le> n"
  shows "step_change_ok d s (reopen_step n s)"
  using assms by (auto simp: step_change_ok_def same_step_def reopen_step_def intro: one_move)

lemma recompute_preserves: "RecomputePlanCompletionTx now runID d = Inr d' \<Longrightarrow> preserves d d'"
  by (auto simp: RecomputePlanCompletionTx_def Let_def intro!: preserves_same
      split: if_splits option.splits)

lemma propagate_preserves:
  assumes "PropagateImpossibleDependenciesTx now runID d = Inr d'"
  shows "preserves d d'"
proof (rule change_preserves)
  note to = Propagate_skipped_to(1) [OF assms]
  show "deps d' = deps d" using to by simp
  have "list_all2 (skip_rel runID (impossible d runID)) (steps d) (steps d')"
    using to by (simp add: skipped_to_def)
  then show "list_all2 (step_change_ok d) (steps d) (steps d')"
    by (rule list_all2_mono)
      (auto simp: skip_rel_def step_change_ok_def same_step_def intro: one_move)
qed

lemma cancelBlocked_preserves: "preserves d (cancelBlockedRequiredWaiting now runID d)"
  by (rule update_preserves [where w = "\<lambda>s. s_run s = runID \<and> s_required s \<and> s_status s = S_waiting"
        and f = "cancel_step now (if_blank blockedRequiredCancelMessage)"])
    (auto simp: cancelBlockedRequiredWaiting_def Let_def intro: cancel_change)

lemma converge_preserves:
  assumes "convergeTerminalRunTx now runID gen st d = Inr d'"
  shows "preserves d d'"
proof -
  obtain err where "steps d' = sql_update (active_step_of runID gen) (cancel_step now err) (steps d)"
    "deps d' = deps d"
    using assms by (auto simp: convergeTerminalRunTx_def Let_def split: if_splits)
  then show ?thesis
    by (rule update_preserves) (auto simp: active_step_of_def intro: cancel_change)
qed

lemma visible_preserves:
  assumes "completeVisibleBarrierTx now runID mediaID gen d = Inr d'"
  shows "preserves d d'"
proof -
  define w where "w = (\<lambda>s :: step_row. s_run s = runID \<and> s_media s = mediaID \<and> s_generation s = gen \<and>
    s_type s = StepMediaVisible \<and> s_status s = S_waiting \<and>
    list_ex (\<lambda>m. m_id m = mediaID \<and> m_generation m = gen \<and> m_published_at m \<noteq> None \<and>
      m_state m \<in> {StatePublished, StateDegraded}) (medias d))"
  define d1 where "d1 = d\<lparr>steps := sql_update w
    (\<lambda>s. s\<lparr>s_status := S_done, s_finished := coalesce (s_finished s) now\<rparr>) (steps d)\<rparr>"
  have "preserves d d1"
    by (rule update_preserves [where w = w]) (auto simp: d1_def w_def step_change_ok_def same_step_def intro: one_move)
  moreover have "d' = d \<or> RecomputePlanCompletionTx now runID d1 = Inr d'"
    using assms unfolding completeVisibleBarrierTx_def Let_def d1_def w_def by (auto split: if_splits)
  ultimately show ?thesis by (auto dest: recompute_preserves intro: preserves_trans)
qed

lemma project_preserves:
  assumes "project_media now r next diag d = Inr d'"
  shows "preserves d d'"
proof -
  have u: "preserves d (update_media d i f)" for i f by (rule preserves_same) simp_all
  from assms show ?thesis
    unfolding project_media_def Let_def
    by (cases "next") (auto intro: u preserves_trans [OF u visible_preserves])
qed

lemma next_state_preserves: "next_state now r d = (st, d') \<Longrightarrow> preserves d d'"
  by (auto simp: next_state_def cancelBlocked_preserves split: if_splits)

section \<open>The operations\<close>

lemma aggregate_cases:
  assumes "AggregateTx marshal now runID d = Inr d'"
  obtains (closed) r where "run_by_id d runID = Some r" "run_closed r" "d' = d"
  | (moved) r st diag d1 d2 where "run_by_id d runID = Some r" "\<not> run_closed r" "r_id r = runID"
      "enter_state marshal now r d = (st, diag, d1)" "settle_terminal now r st d1 = Inr d2"
      "project_current now r st diag d2 = Inr d'"
proof (cases "run_by_id d runID")
  case None
  with assms show ?thesis by (simp add: AggregateTx_def split: if_splits)
next
  case (Some r)
  then have id: "r_id r = runID" by (auto simp: run_by_id_def dest: find_set)
  obtain st diag d1 where e: "enter_state marshal now r d = (st, diag, d1)"
    by (cases "enter_state marshal now r d")
  show ?thesis
  proof (cases "run_closed r")
    case True
    with assms Some have "d' = d" by (simp add: AggregateTx_def split: if_splits)
    with True Some closed show ?thesis by blast
  next
    case False
    with assms Some e obtain d2 where "settle_terminal now r st d1 = Inr d2"
      "project_current now r st diag d2 = Inr d'"
      by (auto simp: AggregateTx_def and_then_Inr_iff split: if_splits)
    with Some False id e moved show ?thesis by blast
  qed
qed

lemma enter_preserves:
  assumes "enter_state marshal now r d = (st, diag, d1)"
  shows "preserves d d1"
proof -
  obtain d0 where n: "next_state now r d = (st, d0)" and "steps d1 = steps d0" "deps d1 = deps d0"
    using assms by (auto simp: enter_state_def Let_def split: prod.splits)
  then show ?thesis using preserves_trans [OF next_state_preserves [OF n] preserves_same] by blast
qed

lemma settle_preserves: "settle_terminal now r st d = Inr d' \<Longrightarrow> preserves d d'"
  by (auto simp: settle_terminal_def and_then_Inr_iff dest!: converge_preserves recompute_preserves
      intro: preserves_trans split: if_splits)

lemma project_current_preserves: "project_current now r st diag d = Inr d' \<Longrightarrow> preserves d d'"
  by (auto simp: project_current_def dest: project_preserves split: option.splits if_splits)

lemma aggregate_preserves:
  assumes "AggregateTx marshal now runID d = Inr d'"
  shows "preserves d d'"
  using assms
proof (cases rule: aggregate_cases)
  case (moved r st diag d1 d2)
  have "preserves d d1" using moved(4) by (rule enter_preserves)
  also have "preserves d1 d2" using moved(5) by (rule settle_preserves)
  also have "preserves d2 d'" using moved(6) by (rule project_current_preserves)
  finally show ?thesis .
qed simp

lemma finalize_preserves:
  assumes "FinalizeNodeTransitionTx marshal None now runID d = Inr d'"
  shows "preserves d d'"
  using assms
  by (auto simp: FinalizeNodeTransitionTx_def projectNodeTransitionTx_def
      RecomputeRetirementBarrierTx_def and_then_Inr_iff
      dest!: propagate_preserves recompute_preserves aggregate_preserves
      split: if_splits intro: preserves_trans)

lemma cancel_work_preserves: "preserves d (cancel_work now runID reason d)"
  by (rule update_preserves [where w = "\<lambda>s. s_run s = runID \<and> s_status s \<in> {S_waiting, S_running}"
        and f = "cancel_step now (if_empty reason)"])
    (auto simp: cancel_work_def Let_def intro: cancel_change)

lemma cancel_run_cases:
  assumes "CancelRunTx marshal hook now runID reason d = Inr (done, d')"
  shows "0 < runID \<and> reason \<noteq> [] \<and>
    (if sql_affected (cancellable_run d runID) (runs d) = 0 then done = False \<and> d' = d
     else done = True \<and>
       FinalizeNodeTransitionTx marshal hook now runID
         (cancel_work now runID reason
           (d\<lparr>runs := sql_update (cancellable_run d runID)
              (\<lambda>r. r\<lparr>r_status := StateCancelled, r_terminal_reason := reason,
                     r_finished := coalesce (r_finished r) now\<rparr>) (runs d)\<rparr>)) = Inr d')"
  using assms by (auto simp: CancelRunTx_def Let_def and_then_Inr_iff split: if_splits)

lemma cancel_run_preserves:
  assumes "CancelRunTx marshal None now runID reason d = Inr (done, d')"
  shows "preserves d d'"
proof (cases "sql_affected (cancellable_run d runID) (runs d) = 0")
  case True
  with cancel_run_cases [OF assms] show ?thesis by simp
next
  case False
  define d1 where "d1 = d\<lparr>runs := sql_update (cancellable_run d runID)
    (\<lambda>r. r\<lparr>r_status := StateCancelled, r_terminal_reason := reason,
           r_finished := coalesce (r_finished r) now\<rparr>) (runs d)\<rparr>"
  have "preserves d d1" by (rule preserves_same) (simp_all add: d1_def)
  also have "preserves d1 (cancel_work now runID reason d1)" by (rule cancel_work_preserves)
  also have "preserves (cancel_work now runID reason d1) d'"
    using cancel_run_cases [OF assms] False unfolding d1_def by (auto intro: finalize_preserves)
  finally show ?thesis .
qed

lemma supersede_preserves:
  assumes "supersedeGeneration now mediaID old new d = Inr d'"
  shows "preserves d d'"
proof (cases "old = 0")
  case True
  with assms show ?thesis by (auto simp: supersedeGeneration_def split: if_splits)
next
  case False
  with assms obtain r :: run_row where "steps d' = sql_update (active_step_of (r_id r) old) (cancel_step now id) (steps d)"
      "deps d' = deps d"
    by (auto simp: supersedeGeneration_def Let_def split: if_splits option.splits)
  then show ?thesis
    by (rule update_preserves) (auto intro: cancel_change simp: active_step_of_def)
qed

lemma complete_prepare_cases:
  assumes "CompletePrepareTx marshal hook now p success err d = Inr d'"
  obtains d1 st err' where "steps d1 = sql_update (prepare_step p) (finish_prepare_step now st err') (steps d)"
    "deps d1 = deps d" "st = (if success then S_done else S_failed)"
    "medias d1 = medias d" "runs d1 = runs d"
    "FinalizeNodeTransitionTx marshal hook now (pp_RunID p) d1 = Inr d'"
    "sql_affected (prepare_step p) (steps d) = 1"
proof -
  define st where "st = (if success then S_done else S_failed)"
  define err' where "err' = (if \<not> success \<and> err = [] then ''prepare failed'' else err)"
  define d1 where "d1 = d\<lparr>transcodes := sql_update (prepare_parent d p) (finish_prepare_task now st err')
    (transcodes d), steps := sql_update (prepare_step p) (finish_prepare_step now st err') (steps d)\<rparr>"
  have "FinalizeNodeTransitionTx marshal hook now (pp_RunID p) d1 = Inr d'"
    "sql_affected (prepare_step p) (steps d) = 1"
    using assms unfolding CompletePrepareTx_def Let_def st_def err'_def d1_def
    by (simp_all split: if_split_asm)
  then show thesis using that [of d1 st err'] by (simp add: d1_def st_def)
qed

lemma prepare_change:
  "prepare_step p s \<Longrightarrow> st \<in> {S_done, S_failed} \<Longrightarrow> step_change_ok d s (finish_prepare_step now st err s)"
  by (auto simp: step_change_ok_def same_step_def prepare_step_def finish_prepare_step_def intro: one_move)

lemma complete_prepare_preserves:
  assumes "CompletePrepareTx marshal None now p success err d = Inr d'"
  shows "preserves d d'"
  using assms
proof (cases rule: complete_prepare_cases)
  case (1 d1 st err')
  have "preserves d d1"
    using 1(1,2) by (rule update_preserves) (auto intro: prepare_change simp: 1(3))
  also have "preserves d1 d'" using 1(6) by (rule finalize_preserves)
  finally show ?thesis .
qed

lemma dependencies_met_done:
  assumes "dependencies_met d st"
  shows "deps_done d (s_id st)"
  unfolding deps_done_def
proof (intro ballI impI)
  fix e assume e: "e \<in> set (deps d)" "d_step e = s_id st \<and> d_kind e = DependencySuccess"
  with assms have "dependency_met d st e" by (auto simp: dependencies_met_def list_all_iff)
  with e(2) obtain p where "step_by_id d (d_on e) = Some p" "s_status p = S_done"
    by (auto simp: dependency_met_def DependencySuccess_def DependencyTerminal_def split: option.splits)
  then show "\<exists>p \<in> set (steps d). s_id p = d_on e \<and> s_status p = S_done"
    by (auto simp: step_by_id_def dest!: find_set)
qed

lemma claimable_step:
  assumes "claimable fam typ now d q" and "q_step q = Some i"
  obtains st where "step_by_id d i = Some st" "s_id st = i" "s_status st = S_waiting"
    "dependencies_met d st"
proof -
  from assms have "linkedEligible d q" by (auto simp: claimable_def familyLegacy_def repairEligible_def)
  with assms(2) obtain st where "step_by_id d i = Some st" "s_status st = S_waiting" "dependencies_met d st"
    by (auto simp: linkedEligible_def split: option.splits)
  moreover have "s_id st = i" using calculation(1) by (auto simp: step_by_id_def dest: find_set)
  ultimately show thesis using that by blast
qed

lemma claim_row_simps [simp]: "q_step (claim_row fam now owner q) = q_step q"
  "q_run (claim_row fam now owner q) = q_run q"
  by (simp_all add: claim_row_def Let_def split: QueueFamily.splits)

lemma claim_preserves:
  assumes "updateFamilyClaim fam typ now qid owner d = Inr (claimed, d')"
  shows "preserves d d'"
proof -
  define p where "p = (\<lambda>q. q_id q = qid \<and> claimable fam typ now d q)"
  show ?thesis
  proof (cases "find p (queue_rows fam d)")
    case None
    with assms show ?thesis by (simp add: updateFamilyClaim_def p_def Let_def)
  next
    case (Some q0)
    define q where "q = claim_row fam now owner q0"
    define d1 where "d1 = set_queue fam (sql_update p (claim_row fam now owner) (queue_rows fam d)) d"
    have d1: "steps d1 = steps d" "deps d1 = deps d" by (simp_all add: d1_def)
    have q: "q_step q = q_step q0" "q_run q = q_run q0" by (simp_all add: q_def)
    note a = assms [unfolded updateFamilyClaim_def Let_def, folded p_def, unfolded Some,
        simplified option.case, folded d1_def, folded q_def]
    have cl: "claimable fam typ now d q0" using find_set [OF Some] by (simp add: p_def)
    show ?thesis
    proof (cases "q_step q0")
      case None
      with a d1 q show ?thesis by (auto intro: preserves_same)
    next
      case step: (Some i)
      define w where "w = (\<lambda>s :: step_row. s_id s = i \<and> s_status s = S_waiting)"
      define f where "f = claim_step now owner (claim_attempts fam q) (q_lease_until q)"
      define d2 where "d2 = d1\<lparr>steps := sql_update w f (steps d1)\<rparr>"
      have done_deps: "deps_done d i"
        using claimable_step [OF cl step] dependencies_met_done by metis
      have "preserves d d2"
        by (rule update_preserves [where w = w and f = f])
          (auto simp: d2_def d1 w_def f_def claim_step_def step_change_ok_def same_step_def done_deps
            intro: one_move)
      moreover have "preserves d2 d'"
        using a step q unfolding d2_def w_def f_def
        by (auto simp: FinalizeClaimTransitionTx_def and_then_Inr_iff Let_def
            split: if_splits option.splits dest!: recompute_preserves)
      ultimately show ?thesis by (rule preserves_trans)
    qed
  qed
qed

definition may_reopen :: "db \<Rightarrow> int \<Rightarrow> bool" where
  "may_reopen d i \<longleftrightarrow>
    (\<forall>x \<in> set (steps d). s_id x = i \<longrightarrow> \<not> s_required x \<or> s_type x = StepAIAnalysis)"

lemma reopen_one_preserves:
  assumes "reopenStepAndQueue now req fam q s d = Inr d'"
    and "distinct (step_ids d) \<Longrightarrow> may_reopen d (ro_StepID req)"
  shows "preserves d d'"
proof -
  define w where "w = (\<lambda>x :: step_row. s_id x = ro_StepID req \<and> s_run x = ro_RunID req \<and>
    s_generation x = s_generation s \<and> reopenable (s_status x) \<and> s_retry_round x = s_retry_round s)"
  have "steps d' = sql_update w (reopen_step (s_retry_round s + 1)) (steps d)" "deps d' = deps d"
    using assms(1) unfolding reopenStepAndQueue_def Let_def w_def
    by (auto simp: writeReopenAudit_def split: if_splits)
  then show ?thesis
    by (rule update_preserves) (use assms(2) in \<open>auto simp: w_def may_reopen_def intro!: reopen_change\<close>)
qed

lemma may_reopen_preserved:
  assumes "preserves d d'" and "distinct (step_ids d)" and "may_reopen d i"
  shows "may_reopen d' i"
  unfolding may_reopen_def
proof (intro ballI impI)
  fix x assume x: "x \<in> set (steps d')" "s_id x = i"
  from assms(1,2) have "list_all2 same_step (steps d) (steps d')" by (simp add: preserves_def)
  with x(1) obtain y where "y \<in> set (steps d)" "same_step y x"
    unfolding list_all2_conv_all_nth in_set_conv_nth by metis
  with assms(3) x(2) show "\<not> s_required x \<or> s_type x = StepAIAnalysis"
    unfolding may_reopen_def same_step_def by metis
qed

lemma may_reopen_unique:
  assumes "s \<in> set (steps d)" and "\<not> s_required s \<or> s_type s = StepAIAnalysis"
    and "distinct (step_ids d)"
  shows "may_reopen d (s_id s)"
  using assms unfolding may_reopen_def step_ids_def by (metis eq_key_imp_eq_value distinct_map inj_on_def)

lemma cascade_preserves:
  assumes "cascade_each now req rid gen cs d = Inr d'"
    and "distinct (step_ids d) \<Longrightarrow> \<forall>c \<in> set cs. may_reopen d (s_id c)"
  shows "preserves d d'"
  using assms
proof (induction cs arbitrary: d)
  case (Cons c cs)
  show ?case
  proof (cases "cascade_reason c rid gen")
    case True
    with Cons.prems(1) obtain fam q d1
      where one: "reopenStepAndQueue now (req\<lparr>ro_StepID := s_id c, ro_Target := StepAIAnalysis,
          ro_ExpectedRetryRound := s_retry_round c\<rparr>) fam q c d = Inr d1"
        and rest: "cascade_each now req rid gen cs d1 = Inr d'"
      by (auto simp: and_then_Inr_iff)
    have p: "preserves d d1" using reopen_one_preserves [OF one] Cons.prems(2) by simp
    show ?thesis
    proof (cases "distinct (step_ids d)")
      case True
      have "preserves d1 d'"
        using Cons.IH [OF rest] Cons.prems(2) [OF True] may_reopen_preserved [OF p True] by simp
      with p show ?thesis by (rule preserves_trans)
    qed (simp add: preserves_def)
  next
    case False
    with Cons show ?thesis by simp
  qed
qed simp

lemma reopen_cases:
  assumes "ReopenNodeTx marshal hook now req d = Inr d'"
  obtains s fam q d1 d2 where
    "find (\<lambda>s. s_id s = ro_StepID req \<and> s_run s = ro_RunID req) (steps d) = Some s"
    "\<not> s_required s" "s_type s \<in> set operator_reopenable" "reopenable (s_status s)"
    "ro_ActorID req > 0" "ro_Reason req \<noteq> []"
    "resolveQueueIdentity d (ro_StepID req) (ro_RunID req) (s_generation s) (s_type s) = Inr (fam, q)"
    "reopenStepAndQueue now req fam q s d = Inr d1"
    "d2 = d1 \<or> cascadeRecognitionSkippedAI now req (ro_StepID req) (ro_RunID req) (s_generation s) d1 = Inr d2"
    "FinalizeNodeTransitionTx marshal hook now (ro_RunID req) d2 = Inr d'"
    "s_type s = StepAIAnalysis \<Longrightarrow>
      validateAIReopenPredecessors d (ro_StepID req) (ro_RunID req) (s_generation s) = None"
proof (cases "find (\<lambda>s. s_id s = ro_StepID req \<and> s_run s = ro_RunID req) (steps d)")
  case None
  with assms show ?thesis by (simp add: ReopenNodeTx_def split: if_splits)
next
  case (Some s)
  define v where "v = (if s_type s = StepAIAnalysis
      then validateAIReopenPredecessors d (ro_StepID req) (ro_RunID req) (s_generation s) else None)"
  note a = assms [unfolded ReopenNodeTx_def Some option.case, folded v_def]
  have g: "ro_ActorID req > 0" "ro_Reason req \<noteq> []" "\<not> s_required s" "s_type s \<in> set operator_reopenable"
    "reopenable (s_status s)" "v = None"
    using a by (simp_all split: if_split_asm option.split_asm)
  have a': "and_then (resolveQueueIdentity d (ro_StepID req) (ro_RunID req) (s_generation s) (s_type s))
      (\<lambda>(fam, q). and_then (reopenStepAndQueue now req fam q s d)
        (\<lambda>d. and_then
          (if s_type s = StepSubtitleRecognize
           then cascadeRecognitionSkippedAI now req (ro_StepID req) (ro_RunID req) (s_generation s) d
           else Inr d)
          (FinalizeNodeTransitionTx marshal hook now (ro_RunID req)))) = Inr d'"
    using a g by (simp split: if_split_asm)
  then obtain fam q where fq: "resolveQueueIdentity d (ro_StepID req) (ro_RunID req) (s_generation s)
      (s_type s) = Inr (fam, q)"
    by (auto simp: and_then_Inr_iff)
  with a' obtain d1 where d1: "reopenStepAndQueue now req fam q s d = Inr d1"
    and r: "and_then
          (if s_type s = StepSubtitleRecognize
           then cascadeRecognitionSkippedAI now req (ro_StepID req) (ro_RunID req) (s_generation s) d1
           else Inr d1)
          (FinalizeNodeTransitionTx marshal hook now (ro_RunID req)) = Inr d'"
    by (auto simp: and_then_Inr_iff simp del: if_split)
  from r obtain d2 where c: "(if s_type s = StepSubtitleRecognize
           then cascadeRecognitionSkippedAI now req (ro_StepID req) (ro_RunID req) (s_generation s) d1
           else Inr d1) = Inr d2"
    and f: "FinalizeNodeTransitionTx marshal hook now (ro_RunID req) d2 = Inr d'"
    unfolding and_then_Inr_iff by blast
  from c have "d2 = d1 \<or>
      cascadeRecognitionSkippedAI now req (ro_StepID req) (ro_RunID req) (s_generation s) d1 = Inr d2"
    by (auto split: if_split_asm)
  moreover have "validateAIReopenPredecessors d (ro_StepID req) (ro_RunID req) (s_generation s) = None"
    if "s_type s = StepAIAnalysis"
    using g(6) that by (simp add: v_def)
  ultimately show ?thesis using that Some g fq d1 f by blast
qed

lemma reopened_preserves:
  assumes "find (\<lambda>s. s_id s = ro_StepID req \<and> s_run s = ro_RunID req) (steps d) = Some s"
    and "\<not> s_required s" and one: "reopenStepAndQueue now req fam q s d = Inr d1"
    and "d2 = d1 \<or>
      cascadeRecognitionSkippedAI now req (ro_StepID req) (ro_RunID req) (s_generation s) d1 = Inr d2"
  shows "preserves d d2"
proof (cases "distinct (step_ids d)")
  case True
  have s: "s \<in> set (steps d)" "s_id s = ro_StepID req" using find_set [OF assms(1)] by auto
  have p: "preserves d d1"
    using may_reopen_unique [OF s(1)] assms(2) s(2) by (intro reopen_one_preserves [OF one]) simp
  have "preserves d1 d2"
  proof (cases "d2 = d1")
    case False
    with assms(4) have "cascadeRecognitionSkippedAI now req (ro_StepID req) (ro_RunID req)
      (s_generation s) d1 = Inr d2" by simp
    then show ?thesis unfolding cascadeRecognitionSkippedAI_def
      by (rule cascade_preserves) (auto intro: may_reopen_unique)
  qed simp
  with p show ?thesis by (rule preserves_trans)
qed (simp add: preserves_def)

lemma reopen_preserves:
  assumes "ReopenNodeTx marshal None now req d = Inr d'"
  shows "preserves d d'"
  using assms
proof (cases rule: reopen_cases)
  case (1 s fam q d1 d2)
  have "preserves d d2" using 1(1,2,8,9) by (rule reopened_preserves)
  also have "preserves d2 d'" using 1(10) by (rule finalize_preserves)
  finally show ?thesis .
qed

section \<open>Interpretations\<close>

interpretation propagate: step_contract "\<lambda>(now, run). PropagateImpossibleDependenciesTx now run"
  by unfold_locales (auto dest: propagate_preserves)

interpretation aggregate: step_contract "\<lambda>(marshal, now, run). AggregateTx marshal now run"
  by unfold_locales (auto dest: aggregate_preserves)

interpretation finalize: step_contract
  "\<lambda>(marshal, now, run). FinalizeNodeTransitionTx marshal None now run"
  by unfold_locales (auto dest: finalize_preserves)

interpretation cancel: step_contract
  "\<lambda>(marshal, now, run, reason) d.
     and_then (CancelRunTx marshal None now run reason d) (\<lambda>(_, d). Inr d)"
  by unfold_locales (auto simp: and_then_Inr_iff dest: cancel_run_preserves)

interpretation supersede: step_contract
  "\<lambda>(now, mediaID, old, new). supersedeGeneration now mediaID old new"
  by unfold_locales (auto dest: supersede_preserves)

interpretation prepare: step_contract
  "\<lambda>(marshal, now, p, success, err). CompletePrepareTx marshal None now p success err"
  by unfold_locales (auto dest: complete_prepare_preserves)

interpretation claim: step_contract
  "\<lambda>(fam, typ, now, qid, owner) d.
     and_then (updateFamilyClaim fam typ now qid owner d) (\<lambda>(_, d). Inr d)"
  by unfold_locales (auto simp: and_then_Inr_iff dest: claim_preserves)

interpretation reopen: step_contract "\<lambda>(marshal, now, req). ReopenNodeTx marshal None now req"
  by unfold_locales (auto dest: reopen_preserves)

section \<open>The transition relation\<close>

text \<open>One committed transaction on the tables of an ingest run. An operation that returns an
  error is rolled back by its caller, so it makes no step.\<close>

inductive run_step :: "db \<Rightarrow> db \<Rightarrow> bool" where
  finalized: "FinalizeNodeTransitionTx marshal None now run d = Inr d' \<Longrightarrow> run_step d d'"
| aggregated: "AggregateTx marshal now run d = Inr d' \<Longrightarrow> run_step d d'"
| cancelled: "CancelRunTx marshal None now run reason d = Inr (ok, d') \<Longrightarrow> run_step d d'"
| superseded: "supersedeGeneration now mediaID old new d = Inr d' \<Longrightarrow> run_step d d'"
| prepared: "CompletePrepareTx marshal None now p success err d = Inr d' \<Longrightarrow> run_step d d'"
| claimed: "updateFamilyClaim fam taskType now qid owner d = Inr (got, d') \<Longrightarrow> run_step d d'"
| reopened: "ReopenNodeTx marshal None now req d = Inr d' \<Longrightarrow> run_step d d'"

inductive_cases run_stepE: "run_step d d'"

lemma run_step_preserves: "run_step d d' \<Longrightarrow> preserves d d'"
proof (induction rule: run_step.induct)
  case (finalized marshal now run d d')
  then show ?case using finalize.keeps [of "(marshal, now, run)"] by simp
next
  case (aggregated marshal now run d d')
  then show ?case using aggregate.keeps [of "(marshal, now, run)"] by simp
next
  case (cancelled marshal now run reason d ok d')
  then show ?case using cancel.keeps [of "(marshal, now, run, reason)"] by simp
next
  case (superseded now mediaID old new d d')
  then show ?case using supersede.keeps [of "(now, mediaID, old, new)"] by simp
next
  case (prepared marshal now p success err d d')
  then show ?case using prepare.keeps [of "(marshal, now, p, success, err)"] by simp
next
  case (claimed fam taskType now qid owner d got d')
  then show ?case using claim.keeps [of "(fam, taskType, now, qid, owner)"] by simp
next
  case (reopened marshal now req d d')
  then show ?case using reopen.keeps [of "(marshal, now, req)"] by simp
qed

lemma run_steps_preserve: "run_step\<^sup>*\<^sup>* d d' \<Longrightarrow> preserves d d'"
  by (induction rule: rtranclp_induct) (auto intro: preserves_trans run_step_preserves)

text \<open>A run whose media is published and whose recognition step is done: the analysis step that
  depends on it can be claimed.\<close>

definition sample_ready_db :: db where
  "sample_ready_db = sample_run_db\<lparr>
    medias := [sample_media\<lparr>m_generation := 1, m_state := StatePublished, m_published_at := Some 4\<rparr>],
    steps := [sample_step 1 StepPoster True S_waiting, sample_step 2 StepMediaVisible False S_done,
      sample_step 3 StepSubtitleRecognize False S_done,
      sample_step 4 StepAIAnalysis False S_waiting]\<rparr>"

lemma sample_ready_safe: "distinct (step_ids sample_ready_db)" "safe sample_ready_db"
  by (simp_all add: step_ids_def safe_def deps_done_def sample_ready_db_def sample_defs step_names)

lemma sample_ready_claimable:
  "claimable QueuePostIngest StepAIAnalysis 9 sample_ready_db (sample_queue 3 4 StepAIAnalysis S_waiting)"
  by (simp add: claimable_def familyDue_def linkedEligible_def run_admits_def dependencies_met_def
      dependency_met_def step_by_id_def run_by_id_def media_by_id_def sample_ready_db_def
      sample_defs step_names DependencySuccess_def)

lemma sample_ready_claim:
  "\<exists>got d'. updateFamilyClaim QueuePostIngest StepAIAnalysis 9 3 ''w'' sample_ready_db = Inr (Some got, d') \<and>
     (\<exists>s \<in> set (steps d'). s_id s = 4 \<and> s_status s = S_running \<and> s_type s = StepAIAnalysis) \<and>
     \<lparr>d_step = 4, d_on = 3, d_kind = DependencySuccess\<rparr> \<in> set (deps d')"
proof -
  have f: "find (\<lambda>q. q_id q = 3 \<and> claimable QueuePostIngest StepAIAnalysis 9 sample_ready_db q)
      (queue_rows QueuePostIngest sample_ready_db) = Some (sample_queue 3 4 StepAIAnalysis S_waiting)"
    using sample_ready_claimable
    by (simp add: queue_rows_def sample_ready_db_def sample_defs)
  show ?thesis
    unfolding updateFamilyClaim_def Let_def f option.case
    by (simp add: claim_row_def sample_ready_db_def sample_defs
        sql_affected_def sql_update_def set_queue_def queue_rows_def claim_step_def
        FinalizeClaimTransitionTx_def RecomputePlanCompletionTx_def run_by_id_def
        completion_of_def malformed_counts_def count_status_def terminal_statuses_def step_names)
qed



end
