(* ===== verification/Run_Outcome.thy ===== *)
theory Run_Outcome
  imports Run_Safety
begin

text \<open>
  The outcomes of ingest runs: a media is published only when the required steps of its run are
  settled, a run that failed or was cancelled leaves no work behind, a transition touches its
  own run only, a task is claimed once, and a reopening is fenced and audited.
\<close>

section \<open>Publication is sound\<close>

definition required_settled :: "db \<Rightarrow> int \<Rightarrow> bool" where
  "required_settled d runID \<longleftrightarrow>
    (\<forall>s \<in> set (steps d). s_run s = runID \<and> s_required s \<longrightarrow> s_status s \<in> {S_done, S_skipped})"

definition published_ok :: "db \<Rightarrow> bool" where
  "published_ok d \<longleftrightarrow>
    (\<forall>i m. media_by_id d i = Some m \<and> m_state m = StatePublished \<longrightarrow>
      (\<exists>r \<in> set (runs d). r_media r = i \<and> r_generation r = m_generation m \<and>
         required_settled d (r_id r)))"

definition analysis_optional :: "db \<Rightarrow> bool" where
  "analysis_optional d \<longleftrightarrow> (\<forall>s \<in> set (steps d). s_type s = StepAIAnalysis \<longrightarrow> \<not> s_required s)"

definition well :: "db \<Rightarrow> bool" where
  "well d \<longleftrightarrow> distinct (step_ids d) \<and> analysis_optional d \<and> (\<forall>s \<in> set (steps d). step_status_ok s)"

definition run_keys :: "db \<Rightarrow> (int \<times> int \<times> int) list" where
  "run_keys d = map (\<lambda>r. (r_id r, r_media r, r_generation r)) (runs d)"

definition sound :: "db \<Rightarrow> db \<Rightarrow> bool" where
  "sound d d' \<longleftrightarrow>
    preserves d d' \<and>
    (well d \<longrightarrow>
      run_keys d' = run_keys d \<and> (published_ok d \<longrightarrow> published_ok d'))"

lemma step_back:
  assumes "preserves d d'" and "distinct (step_ids d)" and "y \<in> set (steps d')"
  obtains x where "x \<in> set (steps d)" "same_step x y"
  using assms unfolding preserves_def list_all2_conv_all_nth in_set_conv_nth by metis

lemma move_status: "move t r a b \<Longrightarrow> b \<in> set (active_statuses @ terminal_statuses)"
  by (erule moveE) (simp_all add: active_statuses_def terminal_statuses_def)

lemma moves_status:
  "(move t r)\<^sup>*\<^sup>* a b \<Longrightarrow> a \<in> set (active_statuses @ terminal_statuses) \<Longrightarrow>
   b \<in> set (active_statuses @ terminal_statuses)"
  by (erule rtranclp.cases) (use move_status in blast)+

lemma well_preserved:
  assumes "preserves d d'" and "well d"
  shows "well d'"
proof -
  have dist: "distinct (step_ids d)" using assms(2) by (simp add: well_def)
  have "(s_type y = StepAIAnalysis \<longrightarrow> \<not> s_required y) \<and> step_status_ok y" if y: "y \<in> set (steps d')" for y
  proof -
    obtain x where x: "x \<in> set (steps d)" "same_step x y" using step_back [OF assms(1) dist y] by blast
    then have "step_status_ok x" "s_type x = StepAIAnalysis \<longrightarrow> \<not> s_required x"
      using assms(2) by (auto simp: well_def analysis_optional_def)
    then show ?thesis
      using x(2) moves_status [of "s_type x" "s_required x" "s_status x" "s_status y"]
      unfolding same_step_def step_status_ok_def by simp
  qed
  moreover have "step_ids d' = step_ids d"
    using assms(1) dist same_step_ids by (auto simp: preserves_def)
  ultimately show ?thesis using dist by (simp add: well_def analysis_optional_def)
qed

lemma sound_refl [simp]: "sound d d" by (simp add: sound_def)

lemma sound_trans [trans]:
  assumes "sound d d'" and "sound d' d''"
  shows "sound d d''"
proof -
  have p: "preserves d d'" "preserves d d''"
    using assms preserves_trans by (auto simp: sound_def)
  have "run_keys d'' = run_keys d \<and> (published_ok d \<longrightarrow> published_ok d'')" if "well d"
    using assms that well_preserved [OF p(1) that] by (simp add: sound_def)
  with p(2) show ?thesis by (simp add: sound_def)
qed

lemma settled_preserved:
  assumes "preserves d d'" and "well d" and "required_settled d runID"
  shows "required_settled d' runID"
  unfolding required_settled_def
proof (intro ballI impI)
  fix y assume y: "y \<in> set (steps d')" "s_run y = runID \<and> s_required y"
  have dist: "distinct (step_ids d)" using assms(2) by (simp add: well_def)
  obtain x where x: "x \<in> set (steps d)" "same_step x y"
    using step_back [OF assms(1) dist y(1)] by blast
  have r: "s_run x = runID" "s_required x" using x(2) y(2) by (simp_all add: same_step_def)
  then have "s_status x \<in> {S_done, S_skipped}" "s_type x \<noteq> StepAIAnalysis"
    using assms(2,3) x(1) by (auto simp: required_settled_def analysis_optional_def well_def)
  then show "s_status y \<in> {S_done, S_skipped}"
    using same_step_done [OF x(2)] moves_from_skipped [of "s_type x" "s_status y"] x(2) r(2)
    by (auto simp: same_step_def)
qed

lemma run_keys_mem:
  assumes "run_keys d' = run_keys d" and "r \<in> set (runs d)"
  shows "\<exists>r' \<in> set (runs d'). r_id r' = r_id r \<and> r_media r' = r_media r \<and> r_generation r' = r_generation r"
proof -
  have "(r_id r, r_media r, r_generation r) \<in> set (run_keys d')"
    using assms by (force simp: run_keys_def)
  then show ?thesis by (force simp: run_keys_def)
qed

text \<open>A media that was not published before is published only by a settled run.\<close>

lemma soundI:
  assumes "preserves d d'" and "run_keys d' = run_keys d"
    and "\<And>i m'. well d \<Longrightarrow> media_by_id d' i = Some m' \<Longrightarrow> m_state m' = StatePublished \<Longrightarrow>
      (\<exists>m. media_by_id d i = Some m \<and> m_state m = StatePublished \<and> m_generation m = m_generation m') \<or>
      (\<exists>r \<in> set (runs d). r_media r = i \<and> r_generation r = m_generation m' \<and> required_settled d (r_id r))"
  shows "sound d d'"
proof -
  have "published_ok d'" if c: "well d" "published_ok d"
    unfolding published_ok_def
  proof (intro allI impI)
    fix i m' assume m': "media_by_id d' i = Some m' \<and> m_state m' = StatePublished"
    obtain r where r: "r \<in> set (runs d)" "r_media r = i" "r_generation r = m_generation m'"
      "required_settled d (r_id r)"
      using assms(3) [OF c(1), of i m'] m' c(2) unfolding published_ok_def by metis
    obtain r' where r': "r' \<in> set (runs d')" "r_id r' = r_id r" "r_media r' = r_media r"
      "r_generation r' = r_generation r"
      using run_keys_mem [OF assms(2) r(1)] by blast
    have "required_settled d' (r_id r')"
      using settled_preserved [OF assms(1) c(1) r(4)] r'(2) by simp
    with r r' show "\<exists>r \<in> set (runs d'). r_media r = i \<and> r_generation r = m_generation m' \<and>
        required_settled d' (r_id r)" by auto
  qed
  with assms(1,2) show ?thesis by (simp add: sound_def)
qed

lemma sound_same_media:
  "preserves d d' \<Longrightarrow> run_keys d' = run_keys d \<Longrightarrow> medias d' = medias d \<Longrightarrow> sound d d'"
  by (rule soundI) (auto simp: media_by_id_def)

lemma run_keys_same: "runs d' = runs d \<Longrightarrow> run_keys d' = run_keys d"
  by (simp add: run_keys_def)

lemma run_keys_update:
  assumes "runs d' = sql_update w f (runs d)"
    and "\<And>r. r_id (f r) = r_id r \<and> r_media (f r) = r_media r \<and> r_generation (f r) = r_generation r"
  shows "run_keys d' = run_keys d"
  using assms by (simp add: run_keys_def sql_update_def comp_def if_distrib [of r_id]
      if_distrib [of r_media] if_distrib [of r_generation] cong: map_cong if_cong)

lemma recompute_frame:
  "RecomputePlanCompletionTx now runID d = Inr d' \<Longrightarrow>
   medias d' = medias d \<and> runs d' = runs d \<and> steps d' = steps d \<and> posts d' = posts d \<and>
   scrapes d' = scrapes d \<and> transcodes d' = transcodes d \<and> deps d' = deps d \<and> jobs d' = jobs d"
  by (auto simp: RecomputePlanCompletionTx_def Let_def split: if_splits option.splits)

lemma recompute_sound: "RecomputePlanCompletionTx now runID d = Inr d' \<Longrightarrow> sound d d'"
  using recompute_frame [of now runID d d'] recompute_preserves [of now runID d d']
  by (intro sound_same_media run_keys_same) simp_all

lemma propagate_sound: "PropagateImpossibleDependenciesTx now runID d = Inr d' \<Longrightarrow> sound d d'"
  using Propagate_skipped_to(1) [of now runID d d'] propagate_preserves [of now runID d d']
  by (intro sound_same_media run_keys_same) (auto simp: skipped_to_def dest: rest_of_eq)

lemma converge_frame:
  "convergeTerminalRunTx now runID gen st d = Inr d' \<Longrightarrow> medias d' = medias d \<and> runs d' = runs d"
  by (auto simp: convergeTerminalRunTx_def Let_def split: if_splits)

lemma converge_sound: "convergeTerminalRunTx now runID gen st d = Inr d' \<Longrightarrow> sound d d'"
  using converge_frame [of now runID gen st d d'] converge_preserves [of now runID gen st d d']
  by (intro sound_same_media run_keys_same) simp_all

lemma media_by_id_update:
  assumes "\<And>m. m_id (f m) = m_id m"
  shows "media_by_id (update_media d i f) j =
    map_option (\<lambda>m. if m_id m = i then f m else m) (media_by_id d j)"
  using assms by (simp add: media_by_id_def update_media_def find_update_other)

lemma visible_frame:
  assumes "completeVisibleBarrierTx now runID mediaID gen d = Inr d'"
  shows "medias d' = medias d" "runs d' = runs d"
  using assms recompute_frame
  by (auto simp: completeVisibleBarrierTx_def Let_def split: if_splits dest!: recompute_frame)

lemma cancelBlocked_frame [simp]:
  "medias (cancelBlockedRequiredWaiting now runID d) = medias d"
  "runs (cancelBlockedRequiredWaiting now runID d) = runs d"
  "deps (cancelBlockedRequiredWaiting now runID d) = deps d"
  "jobs (cancelBlockedRequiredWaiting now runID d) = jobs d"
  by (simp_all add: cancelBlockedRequiredWaiting_def Let_def)

lemma next_state_frame:
  assumes "next_state now r d = (st, d')"
  shows "medias d' = medias d" "runs d' = runs d"
  using assms by (auto simp: next_state_def split: if_splits)

lemma enter_frame:
  assumes "enter_state marshal now r d = (st, diag, d1)"
  shows "medias d1 = medias d"
    and "runs d1 = sql_update (\<lambda>x. r_id x = r_id r) (update_run now st diag) (runs d)"
  using assms by (auto simp: enter_state_def Let_def split: prod.splits dest: next_state_frame)

lemma enter_sound: "enter_state marshal now r d = (st, diag, d1) \<Longrightarrow> sound d d1"
  by (rule sound_same_media)
    (auto simp: enter_frame update_run_def intro: enter_preserves run_keys_update)

lemma settle_sound: "settle_terminal now r st d = Inr d' \<Longrightarrow> sound d d'"
  by (auto simp: settle_terminal_def and_then_Inr_iff dest!: converge_sound recompute_sound
      intro: sound_trans split: if_splits)

text \<open>The decision to publish.\<close>

lemma required_count_0: "required_count st d runID = 0 \<longleftrightarrow>
    (\<forall>s \<in> set (steps d). s_run s = runID \<and> s_required s \<longrightarrow> s_status s \<noteq> st)"
  by (auto simp: required_count_def run_steps_def filter_empty_conv)

lemma next_published:
  assumes "next_state now r d = (StatePublished, d')"
  shows "d' = d" "r_status r \<notin> {StateCancelled, StateFailed}"
    and "\<forall>s \<in> set (steps d). s_run s = r_id r \<and> s_required s \<longrightarrow>
      s_status s \<notin> {S_running, S_failed, S_cancelled, S_waiting}"
  using assms by (auto simp: next_state_def required_count_0 split: if_splits)

lemma next_published_settled:
  assumes "next_state now r d = (StatePublished, d')" and "well d"
  shows "required_settled d (r_id r)"
  using next_published(3) [OF assms(1)] assms(2)
  by (auto simp: required_settled_def well_def step_status_ok_def active_statuses_def
      terminal_statuses_def)

lemma project_frame:
  assumes "project_media now r st diag d = Inr d'"
  obtains f where "medias d' = medias (update_media d (r_media r) f)"
    "runs d' = runs d" "\<And>m. m_id (f m) = m_id m" "\<And>m. m_generation (f m) = m_generation m"
    "\<And>m. m_state (f m) = StatePublished \<Longrightarrow> st = StatePublished"
proof (cases st)
  case StateProcessing
  then show ?thesis using assms that [of "\<lambda>m. m\<lparr>m_state := StateProcessing, m_error := []\<rparr>"]
    by (auto simp: project_media_def Let_def)
next
  case StatePublished
  let ?f = "\<lambda>m. m\<lparr>m_state := StatePublished, m_published_at := coalesce (m_published_at m) now, m_error := []\<rparr>"
  from assms StatePublished have "completeVisibleBarrierTx now (r_id r) (r_media r) (r_generation r)
      (update_media d (r_media r) ?f) = Inr d'"
    by (simp add: project_media_def Let_def)
  from visible_frame [OF this] StatePublished show ?thesis by (intro that [of ?f]) simp_all
next
  case StateDegraded
  let ?f = "\<lambda>m. m\<lparr>m_state := StateDegraded, m_error := diag\<rparr>"
  from assms StateDegraded have "completeVisibleBarrierTx now (r_id r) (r_media r) (r_generation r)
      (update_media d (r_media r) ?f) = Inr d'"
    by (simp add: project_media_def Let_def)
  from visible_frame [OF this] show ?thesis by (intro that [of ?f]) simp_all
next
  case StateFailed
  then show ?thesis using assms
      that [of "\<lambda>m. m\<lparr>m_state := StateFailed, m_published_at :=
        (if r_reason r = PlanReasonRepair then m_published_at m else None), m_error := diag\<rparr>"]
    by (auto simp: project_media_def Let_def)
next
  case StateCancelled
  let ?f = "\<lambda>m. if r_preserve r
        then m\<lparr>m_state := StateDegraded, m_error := or_cancelled (r_terminal_reason r)\<rparr>
        else m\<lparr>m_state := StateCancelled, m_published_at := None,
               m_error := or_cancelled (r_terminal_reason r)\<rparr>"
  from assms StateCancelled have "d' = update_media d (r_media r) ?f"
    by (simp add: project_media_def Let_def)
  then show ?thesis by (intro that [of ?f]) (simp_all split: if_splits)
qed

lemma project_current_frame: "project_current now r st diag d = Inr d' \<Longrightarrow> runs d' = runs d"
  by (auto simp: project_current_def elim: project_frame split: option.splits if_splits)

lemma settle_same:
  "settle_terminal now r st d = Inr d' \<Longrightarrow> medias d' = medias d \<and> runs d' = runs d"
  by (auto simp: settle_terminal_def and_then_Inr_iff dest!: converge_frame recompute_frame split: if_splits)

lemma enter_state_next:
  assumes "enter_state marshal now r d = (st, diag, d1)"
  shows "\<exists>d0. next_state now r d = (st, d0) \<and> steps d1 = steps d0"
  using assms by (auto simp: enter_state_def Let_def split: prod.splits)

lemma aggregate_run_keys:
  assumes "AggregateTx marshal now runID d = Inr d'"
  shows "run_keys d' = run_keys d"
  using assms
proof (cases rule: aggregate_cases)
  case (moved r st diag d1 d2)
  have "run_keys d1 = run_keys d"
    using enter_frame(2) [OF moved(4)] by (rule run_keys_update) (simp add: update_run_def)
  then show ?thesis
    using settle_same [OF moved(5)] project_current_frame [OF moved(6)] by (simp add: run_keys_def)
qed simp

lemma aggregate_sound:
  assumes a: "AggregateTx marshal now runID d = Inr d'"
  shows "sound d d'"
  using a
proof (cases rule: aggregate_cases)
  case (moved r st diag d1 d2)
  have ms: "medias d2 = medias d"
    using enter_frame(1) [OF moved(4)] settle_same [OF moved(5)] by simp
  show ?thesis
  proof (rule soundI)
    show "preserves d d'" using a by (rule aggregate_preserves)
    show "run_keys d' = run_keys d" using a by (rule aggregate_run_keys)
  next
    fix i m' assume w: "well d" and m': "media_by_id d' i = Some m'" "m_state m' = StatePublished"
    have keep: "\<exists>m. media_by_id d i = Some m \<and> m_state m = StatePublished \<and> m_generation m = m_generation m'"
      if "medias d' = medias d2"
      using that m' ms by (simp add: media_by_id_def)
    obtain m0 where m0: "media_by_id d2 (r_media r) = Some m0"
      using moved(6) by (auto simp: project_current_def split: option.splits)
    show "(\<exists>m. media_by_id d i = Some m \<and> m_state m = StatePublished \<and> m_generation m = m_generation m') \<or>
        (\<exists>r \<in> set (runs d). r_media r = i \<and> r_generation r = m_generation m' \<and> required_settled d (r_id r))"
    proof (cases "m_generation m0 \<noteq> r_generation r \<or> st = StateProcessing \<and> r_preserve r")
      case True
      then have "d' = d2" using moved(6) m0 by (auto simp: project_current_def split: if_splits)
      then show ?thesis using keep by simp
    next
      case False
      then have "project_media now r st diag d2 = Inr d'"
        using moved(6) m0 by (auto simp: project_current_def split: if_splits)
      then obtain f where f: "medias d' = medias (update_media d2 (r_media r) f)"
        "\<And>m. m_id (f m) = m_id m" "\<And>m. m_generation (f m) = m_generation m"
        "\<And>m. m_state (f m) = StatePublished \<Longrightarrow> st = StatePublished"
        by (elim project_frame) blast
      have "media_by_id d' i = map_option (\<lambda>m. if m_id m = r_media r then f m else m) (media_by_id d2 i)"
        using media_by_id_update [of f d2 "r_media r" i] f(1,2) by (simp add: media_by_id_def)
      then obtain m where m: "media_by_id d2 i = Some m" "m' = (if m_id m = r_media r then f m else m)"
        using m'(1) by (cases "media_by_id d2 i") auto
      have mi: "m_id m = i" using m(1) by (auto simp: media_by_id_def dest: find_set)
      show ?thesis
      proof (cases "i = r_media r")
        case True
        then have "m' = f m" using m(2) mi by simp
        then have "st = StatePublished" using f(4) m'(2) by simp
        moreover obtain d0 where "next_state now r d = (st, d0)" using enter_state_next [OF moved(4)] by blast
        ultimately have "required_settled d (r_id r)" using next_published_settled w by simp
        moreover have "r \<in> set (runs d)" using moved(1) by (auto simp: run_by_id_def dest: find_set)
        moreover have "m_generation m' = r_generation r"
          using \<open>m' = f m\<close> f(3) m(1) m0 True False by simp
        ultimately show ?thesis using True by auto
      next
        case False
        then have "m' = m" using m(2) mi by simp
        then show ?thesis using m(1) m'(2) ms by (simp add: media_by_id_def)
      qed
    qed
  qed
qed simp

lemma finalize_sound:
  assumes "FinalizeNodeTransitionTx marshal None now runID d = Inr d'"
  shows "sound d d'"
  using assms
  by (auto simp: FinalizeNodeTransitionTx_def projectNodeTransitionTx_def
      RecomputeRetirementBarrierTx_def and_then_Inr_iff
      dest!: propagate_sound recompute_sound aggregate_sound
      split: if_splits intro: sound_trans)

lemma cancel_work_frame [simp]:
  "medias (cancel_work now runID reason d) = medias d"
  "runs (cancel_work now runID reason d) = runs d"
  by (simp_all add: cancel_work_def Let_def cancel_jobs_def)

definition mark_cancelled :: "int \<Rightarrow> int \<Rightarrow> string \<Rightarrow> db \<Rightarrow> db" where
  "mark_cancelled now runID reason d =
    d\<lparr>runs := sql_update (cancellable_run d runID)
        (\<lambda>r. r\<lparr>r_status := StateCancelled, r_terminal_reason := reason,
               r_finished := coalesce (r_finished r) now\<rparr>) (runs d)\<rparr>"

lemma mark_cancelled_simps [simp]:
  "steps (mark_cancelled now runID reason d) = steps d" "deps (mark_cancelled now runID reason d) = deps d"
  "medias (mark_cancelled now runID reason d) = medias d"
  by (simp_all add: mark_cancelled_def)

lemma mark_cancelled_sound: "sound d (mark_cancelled now runID reason d)"
  by (rule sound_same_media, rule preserves_same)
    (auto simp: mark_cancelled_def intro: run_keys_update)

lemma cancel_work_sound: "sound d (cancel_work now runID reason d)"
  by (rule sound_same_media [OF cancel_work_preserves run_keys_same]) simp_all

lemma cancel_run_cases':
  assumes "CancelRunTx marshal hook now runID reason d = Inr (ok, d')"
  shows "(ok = False \<and> d' = d) \<or>
    (ok = True \<and> FinalizeNodeTransitionTx marshal hook now runID
        (cancel_work now runID reason (mark_cancelled now runID reason d)) = Inr d')"
  using cancel_run_cases [OF assms] by (auto simp: mark_cancelled_def split: if_splits)

lemma cancel_run_sound:
  assumes "CancelRunTx marshal None now runID reason d = Inr (ok, d')"
  shows "sound d d'"
  using cancel_run_cases' [OF assms]
proof (elim disjE conjE)
  assume "FinalizeNodeTransitionTx marshal None now runID
    (cancel_work now runID reason (mark_cancelled now runID reason d)) = Inr d'"
  then have "sound (cancel_work now runID reason (mark_cancelled now runID reason d)) d'"
    by (rule finalize_sound)
  with mark_cancelled_sound cancel_work_sound show ?thesis using sound_trans by metis
qed simp

lemma supersede_frame:
  assumes "supersedeGeneration now mediaID old new d = Inr d'"
  shows "medias d' = medias d" "run_keys d' = run_keys d"
proof -
  have m: "medias d' = medias d \<and> (runs d' = runs d \<or>
      (\<exists>i. runs d' = sql_update (\<lambda>x. r_id x = i) (supersede_run now new) (runs d)))"
    using assms by (auto simp: supersedeGeneration_def Let_def cancel_jobs_def
        split: if_splits option.splits)
  then show "medias d' = medias d" by simp
  from m show "run_keys d' = run_keys d"
  proof (elim conjE disjE exE)
    fix i assume "runs d' = sql_update (\<lambda>x. r_id x = i) (supersede_run now new) (runs d)"
    then show ?thesis by (rule run_keys_update) (simp add: supersede_run_def Let_def)
  qed (rule run_keys_same)
qed

lemma supersede_sound: "supersedeGeneration now mediaID old new d = Inr d' \<Longrightarrow> sound d d'"
  by (rule sound_same_media [OF supersede_preserves supersede_frame(2,1)])

lemma complete_prepare_sound:
  assumes "CompletePrepareTx marshal None now p success err d = Inr d'"
  shows "sound d d'"
  using assms
proof (cases rule: complete_prepare_cases)
  case (1 d1 st err')
  have "preserves d d1"
    using 1(1,2) by (rule update_preserves) (auto intro: prepare_change simp: 1(3))
  then have "sound d d1" using 1(4,5) by (intro sound_same_media run_keys_same)
  also have "sound d1 d'" using 1(6) by (rule finalize_sound)
  finally show ?thesis .
qed

lemma set_queue_frame [simp]:
  "medias (set_queue fam y d) = medias d" "runs (set_queue fam y d) = runs d"
  by (simp_all add: set_queue_def split: QueueFamily.splits)

lemma claim_frame:
  assumes "updateFamilyClaim fam taskType now qid owner d = Inr (got, d')"
  shows "medias d' = medias d" "runs d' = runs d"
  using assms by (auto simp: updateFamilyClaim_def Let_def FinalizeClaimTransitionTx_def and_then_Inr_iff
      dest!: recompute_frame split: option.splits if_splits)

lemma claim_sound: "updateFamilyClaim fam taskType now qid owner d = Inr (got, d') \<Longrightarrow> sound d d'"
  by (rule sound_same_media [OF claim_preserves run_keys_same [OF claim_frame(2)] claim_frame(1)])

lemma reopen_one_frame:
  assumes "reopenStepAndQueue now req fam q s d = Inr d'"
  shows "medias d' = medias d" "runs d' = runs d"
  using assms by (auto simp: reopenStepAndQueue_def Let_def writeReopenAudit_def split: if_splits)

lemma cascade_frame:
  "cascade_each now req rid gen cs d = Inr d' \<Longrightarrow> medias d' = medias d \<and> runs d' = runs d"
proof (induction cs arbitrary: d)
  case (Cons c cs)
  show ?case
  proof (cases "cascade_reason c rid gen")
    case True
    with Cons.prems obtain fam q d1
      where "reopenStepAndQueue now (req\<lparr>ro_StepID := s_id c, ro_Target := StepAIAnalysis,
          ro_ExpectedRetryRound := s_retry_round c\<rparr>) fam q c d = Inr d1"
        "cascade_each now req rid gen cs d1 = Inr d'"
      by (auto simp: and_then_Inr_iff)
    with Cons.IH reopen_one_frame show ?thesis by metis
  qed (use Cons in simp)
qed simp

lemma reopen_sound:
  assumes "ReopenNodeTx marshal None now req d = Inr d'"
  shows "sound d d'"
  using assms
proof (cases rule: reopen_cases)
  case (1 s fam q d1 d2)
  have "medias d2 = medias d1 \<and> runs d2 = runs d1"
    using 1(9) by (auto simp: cascadeRecognitionSkippedAI_def dest: cascade_frame)
  moreover have "preserves d d2" using 1(1,2,8,9) by (rule reopened_preserves)
  ultimately have "sound d d2"
    using reopen_one_frame [OF 1(8)] by (intro sound_same_media run_keys_same) simp_all
  also have "sound d2 d'" using 1(10) by (rule finalize_sound)
  finally show ?thesis .
qed

lemma run_step_sound: "run_step d d' \<Longrightarrow> sound d d'"
  by (erule run_stepE) (blast intro: finalize_sound aggregate_sound cancel_run_sound supersede_sound
      complete_prepare_sound claim_sound reopen_sound)+

lemma run_steps_sound: "run_step\<^sup>*\<^sup>* d d' \<Longrightarrow> sound d d'"
  by (induction rule: rtranclp_induct) (auto intro: sound_trans run_step_sound)


text \<open>A run whose poster is done while the publication barrier still waits.\<close>

definition sample_poster_db :: db where
  "sample_poster_db = sample_run_db\<lparr>
    steps := [sample_step 1 StepPoster True S_done, sample_step 2 StepMediaVisible False S_waiting]\<rparr>"

definition sample_published_media :: media_row where
  "sample_published_media =
    sample_media\<lparr>m_generation := 1, m_state := StatePublished, m_published_at := Some 9, m_error := []\<rparr>"

lemma sample_poster_well: "well sample_poster_db" "published_ok sample_poster_db"
  by (auto simp: well_def step_ids_def analysis_optional_def published_ok_def media_by_id_def
      sample_poster_db_def sample_defs step_names step_status_ok_def active_statuses_def
      terminal_statuses_def split: if_splits)

lemma sample_poster_publishes:
  "\<exists>d'. AggregateTx (\<lambda>_. []) 9 1 sample_poster_db = Inr d' \<and>
     media_by_id d' 1 = Some sample_published_media"
proof -
  have r: "run_by_id sample_poster_db 1 = Some sample_run"
    by (simp add: run_by_id_def sample_poster_db_def sample_defs)
  have c: "\<not> run_closed sample_run" by (simp add: run_closed_def sample_run_def)
  have n: "next_state 9 sample_run sample_poster_db = (StatePublished, sample_poster_db)"
    by (simp add: next_state_def required_count_def run_steps_def sample_poster_db_def sample_defs)
  show ?thesis
    unfolding AggregateTx_def r option.case enter_state_def Let_def n prod.case
    by (simp add: c [unfolded sample_run_def] coalesce_def settle_terminal_def project_current_def media_by_id_def project_media_def Let_def
        update_media_def completeVisibleBarrierTx_def sample_poster_db_def sample_defs sql_update_def
        sql_affected_def step_names RecomputePlanCompletionTx_def run_by_id_def update_run_def
        completion_of_def malformed_counts_def count_status_def terminal_statuses_def
        sample_published_media_def)
qed


section \<open>The decision of aggregation\<close>

lemma run_by_id_update:
  assumes "\<And>r. r_id (f r) = r_id r"
  shows "find (\<lambda>r. r_id r = i) (sql_update (\<lambda>x. r_id x = i) f rs) = map_option f (find (\<lambda>r. r_id r = i) rs)"
  using assms by (induction rs) (auto simp: sql_update_def)

lemma aggregate_run:
  assumes "AggregateTx marshal now runID d = Inr d'" and "run_by_id d runID = Some r" and "\<not> run_closed r"
  shows "\<exists>st diag d0. next_state now r d = (st, d0) \<and> run_by_id d' runID = Some (update_run now st diag r)"
  using assms(1)
proof (cases rule: aggregate_cases)
  case (moved r1 st diag d1 d2)
  have r1: "r1 = r" using moved(1) assms(2) by simp
  obtain d0 where n: "next_state now r d = (st, d0)" using enter_state_next [OF moved(4)] r1 by blast
  have "runs d' = sql_update (\<lambda>x. r_id x = runID) (update_run now st diag) (runs d)"
    using enter_frame(2) [OF moved(4)] settle_same [OF moved(5)] project_current_frame [OF moved(6)]
      moved(3) by simp
  then have "run_by_id d' runID = Some (update_run now st diag r)"
    using run_by_id_update [of "update_run now st diag" runID "runs d"] assms(2)
    by (simp add: run_by_id_def update_run_def)
  with n show ?thesis by blast
qed (use assms in simp)

lemma aggregate_status:
  assumes "AggregateTx marshal now runID d = Inr d'" and "run_by_id d runID = Some r" and "\<not> run_closed r"
  shows "\<exists>r' d0. run_by_id d' runID = Some r' \<and> next_state now r d = (r_status r', d0)"
  using aggregate_run [OF assms] by (force simp: update_run_def)

text \<open>C0: The verdict of \<open>AggregateTx\<close> on an open run is decided by its required steps alone: a
  run that was failed or cancelled stays so, a running required step keeps it processing, a failed
  or cancelled one fails it (degrades it when the published media must be preserved), a waiting
  one keeps it processing, and only when every required step is done or skipped is it published.\<close>

theorem Aggregate_verdict:
  assumes "AggregateTx marshal now runID d = Inr d'" and "run_by_id d runID = Some r"
    and "\<not> run_closed r" and "well d"
    and "req = {s_status s | s. s \<in> set (steps d) \<and> s_run s = runID \<and> s_required s}"
    and "open = (r_status r \<noteq> StateCancelled \<and> r_status r \<noteq> StateFailed)"
  shows "\<exists>r'. run_by_id d' runID = Some r' \<and>
    (r_status r' = StatePublished \<longleftrightarrow> open \<and> req \<subseteq> {S_done, S_skipped}) \<and>
    (r_status r' = StateProcessing \<longleftrightarrow> open \<and> (S_running \<in> req \<or>
       S_waiting \<in> req \<and> S_failed \<notin> req \<and> S_cancelled \<notin> req)) \<and>
    (r_status r' = StateDegraded \<longleftrightarrow> open \<and> r_preserve r \<and> S_running \<notin> req \<and>
       (S_failed \<in> req \<or> S_cancelled \<in> req)) \<and>
    (r_status r' = StateCancelled \<longleftrightarrow> r_status r = StateCancelled)"
proof -
  obtain r' d0 where r': "run_by_id d' runID = Some r'" "next_state now r d = (r_status r', d0)"
    using aggregate_status [OF assms(1-3)] by blast
  have id: "r_id r = runID" using assms(2) by (auto simp: run_by_id_def dest: find_set)
  have cnt: "0 < required_count st d runID \<longleftrightarrow> st \<in> req" for st
    using required_count_0 [of st d runID] assms(5) by auto
  have sub: "req \<subseteq> {S_done, S_skipped} \<longleftrightarrow>
      S_running \<notin> req \<and> S_failed \<notin> req \<and> S_cancelled \<notin> req \<and> S_waiting \<notin> req"
  proof -
    have "req \<subseteq> {S_waiting, S_running, S_done, S_skipped, S_failed, S_cancelled}"
      using assms(4,5) by (auto simp: well_def step_status_ok_def active_statuses_def terminal_statuses_def)
    then show ?thesis by blast
  qed
  note n = r'(2) [unfolded next_state_def id cnt]
  show ?thesis
  proof (intro exI conjI)
    show "run_by_id d' runID = Some r'" by (rule r'(1))
    show "r_status r' = StatePublished \<longleftrightarrow> open \<and> req \<subseteq> {S_done, S_skipped}"
      using n unfolding sub assms(6) by (auto split: if_split_asm)
    show "r_status r' = StateProcessing \<longleftrightarrow> open \<and> (S_running \<in> req \<or>
       S_waiting \<in> req \<and> S_failed \<notin> req \<and> S_cancelled \<notin> req)"
      using n by (simp add: assms(6) split: if_split_asm)
    show "r_status r' = StateDegraded \<longleftrightarrow> open \<and> r_preserve r \<and> S_running \<notin> req \<and>
       (S_failed \<in> req \<or> S_cancelled \<in> req)"
      using n by (simp add: assms(6) split: if_split_asm)
    show "r_status r' = StateCancelled \<longleftrightarrow> r_status r = StateCancelled"
      using n by (simp split: if_split_asm)
  qed
qed

theorem Aggregate_verdict_witness:
  "\<exists>d' r'. AggregateTx (\<lambda>_. []) 9 1 sample_poster_db = Inr d' \<and> run_by_id d' 1 = Some r' \<and>
    r_status r' = StatePublished"
proof -
  obtain d' where a: "AggregateTx (\<lambda>_. []) 9 1 sample_poster_db = Inr d'"
    using sample_poster_publishes by blast
  have r: "run_by_id sample_poster_db 1 = Some sample_run" "\<not> run_closed sample_run"
    by (simp_all add: run_by_id_def sample_poster_db_def sample_defs run_closed_def)
  from Aggregate_verdict [OF a r sample_poster_well(1) refl refl] a show ?thesis
    by (auto simp: sample_poster_db_def sample_defs)
qed

section \<open>Terminal runs leave no work behind\<close>

text \<open>No waiting or running step or task of the run and generation is left, and no waiting or
  running rendition job of its transcode tasks.\<close>

definition idle :: "db \<Rightarrow> int \<Rightarrow> int \<Rightarrow> bool" where
  "idle d runID gen \<longleftrightarrow>
    (\<forall>s \<in> set (steps d). \<not> active_step_of runID gen s) \<and>
    (\<forall>q \<in> set (posts d) \<union> set (scrapes d) \<union> set (transcodes d). \<not> active_of runID gen q) \<and>
    (\<forall>j \<in> set (case jobs d of None \<Rightarrow> [] | Some js \<Rightarrow> js). \<forall>t \<in> set (transcodes d).
       j_task j = q_id t \<longrightarrow> q_run t = Some runID \<longrightarrow> q_generation t = Some gen \<longrightarrow>
       j_status j \<notin> {S_waiting, S_running})"

lemma cancel_queue_simps [simp]:
  "q_id (cancel_queue now err prog q) = q_id q" "q_run (cancel_queue now err prog q) = q_run q"
  "q_generation (cancel_queue now err prog q) = q_generation q"
  "q_status (cancel_queue now err prog q) = S_cancelled"
  by (simp_all add: cancel_queue_def)

lemma cancel_step_status [simp]: "s_status (cancel_step now err s) = S_cancelled"
  by (simp add: cancel_step_def)

lemma sql_update_elim:
  assumes "y \<in> set (sql_update p f xs)"
  obtains x where "x \<in> set xs" "p x" "y = f x" | "y \<in> set xs" "\<not> p y"
  using assms by (auto simp: sql_update_def split: if_split_asm)

lemma cancel_queue_idle:
  assumes "q \<in> set (sql_update (active_of runID gen) (cancel_queue now err prog) qs)"
  shows "\<not> active_of runID gen q"
  using assms by (rule sql_update_elim) (simp_all add: active_of_def [of _ _ "cancel_queue now err prog q" for q])

lemma cancel_step_idle:
  assumes "s \<in> set (sql_update (active_step_of runID gen) (cancel_step now err) ss)"
  shows "\<not> active_step_of runID gen s"
  using assms
  by (rule sql_update_elim) (simp_all add: active_step_of_def [of _ _ "cancel_step now err x" for x])

lemma converge_idle:
  assumes "convergeTerminalRunTx now runID gen st d = Inr d'"
  shows "idle d' runID gen"
proof -
  let ?err = "\<lambda>_. Text (if st = StateCancelled then parentRunCancelledReason else parentRunFailedReason)"
  let ?of = "\<lambda>q. q_run q = Some runID \<and> q_generation q = Some gen"
  have d': "d' = (cancel_jobs ?of (cancel_job now ?err full) d)
      \<lparr>posts := sql_update (active_of runID gen) (cancel_queue now ?err id) (posts d),
       scrapes := sql_update (active_of runID gen) (cancel_queue now ?err full) (scrapes d),
       transcodes := sql_update (active_of runID gen) (cancel_queue now ?err full) (transcodes d),
       steps := sql_update (active_step_of runID gen) (cancel_step now ?err) (steps d)\<rparr>"
    using assms by (auto simp: convergeTerminalRunTx_def Let_def split: if_split_asm)
  have "j_status j \<notin> {S_waiting, S_running}"
    if j: "j \<in> set (case jobs d' of None \<Rightarrow> [] | Some js \<Rightarrow> js)" "t \<in> set (transcodes d')"
      "j_task j = q_id t" "q_run t = Some runID" "q_generation t = Some gen" for j t
  proof -
    let ?w = "\<lambda>j. j_status j \<in> {S_waiting, S_running} \<and>
        j_task j \<in> set (map q_id (filter ?of (transcodes d)))"
    obtain js where js: "jobs d = Some js"
      using j(1) by (cases "jobs d") (simp_all add: d' cancel_jobs_def)
    have mem: "j \<in> set (sql_update ?w (cancel_job now ?err full) js)"
      using j(1) js by (simp add: d' cancel_jobs_def)
    obtain t0 where "t0 \<in> set (transcodes d)" "q_id t0 = q_id t" "?of t0"
      using j(2,4,5) by (auto simp: d' sql_update_def split: if_splits)
    then have "q_id t \<in> set (map q_id (filter ?of (transcodes d)))"
      unfolding set_map set_filter by (metis (mono_tags, lifting) image_eqI mem_Collect_eq)
    with mem j(3) show ?thesis
      by (elim sql_update_elim) (simp_all add: cancel_job_def)
  qed
  moreover have "\<not> active_step_of runID gen s" if "s \<in> set (steps d')" for s
    using that cancel_step_idle by (auto simp: d')
  moreover have "\<not> active_of runID gen q" if "q \<in> set (posts d') \<union> set (scrapes d') \<union> set (transcodes d')" for q
    using that cancel_queue_idle by (auto simp: d')
  ultimately show ?thesis unfolding idle_def by blast
qed

lemma idle_cong:
  "steps d' = steps d \<Longrightarrow> posts d' = posts d \<Longrightarrow> scrapes d' = scrapes d \<Longrightarrow>
   transcodes d' = transcodes d \<Longrightarrow> jobs d' = jobs d \<Longrightarrow> idle d' runID gen = idle d runID gen"
  by (simp add: idle_def)

lemma update_media_jobs [simp]: "jobs (update_media d i f) = jobs d"
  by (simp add: update_media_def)

lemma aggregate_idle:
  assumes "AggregateTx marshal now runID d = Inr d'" and "run_by_id d runID = Some r" and "\<not> run_closed r"
    and "run_by_id d' runID = Some r'" and "r_status r' \<in> {StateFailed, StateCancelled}"
  shows "idle d' runID (r_generation r)"
  using assms(1)
proof (cases rule: aggregate_cases)
  case (moved r1 st diag d1 d2)
  have r1: "r1 = r" using moved(1) assms(2) by simp
  have st: "st = r_status r'"
    using aggregate_status [OF assms(1-3)] enter_state_next [OF moved(4)] r1 assms(4) by auto
  then obtain d3 where c: "convergeTerminalRunTx now runID (r_generation r) st d1 = Inr d3"
    and rc: "RecomputePlanCompletionTx now runID d3 = Inr d2"
    using moved(3,5) assms(5) r1 by (auto simp: settle_terminal_def and_then_Inr_iff split: if_splits)
  have i2: "idle d2 runID (r_generation r)"
    using converge_idle [OF c] recompute_frame [OF rc] by (simp add: idle_cong [of d2 d3])
  obtain m where m: "media_by_id d2 (r_media r) = Some m"
    using moved(6) r1 by (cases "media_by_id d2 (r_media r)") (simp_all add: project_current_def)
  have "d' = d2 \<or> project_media now r st diag d2 = Inr d'"
    using moved(6) m r1 by (simp add: project_current_def split: if_splits)
  then have "steps d' = steps d2 \<and> posts d' = posts d2 \<and> scrapes d' = scrapes d2 \<and>
      transcodes d' = transcodes d2 \<and> jobs d' = jobs d2"
    using assms(5) st by (auto simp: project_media_def Let_def)
  with i2 show ?thesis by (simp add: idle_cong [of d' d2])
qed (use assms in simp)

text \<open>C0: A run that \<open>AggregateTx\<close> finds failed or cancelled leaves no work behind: afterwards no
  step, post-ingest task, scrape task, transcode task or rendition job of the run is waiting or
  running in its generation.\<close>

theorem terminal_runs_idle:
  assumes "AggregateTx marshal now runID d = Inr d'" and "run_by_id d runID = Some r" and "\<not> run_closed r"
    and "run_by_id d' runID = Some r'" and "r_status r' = StateFailed \<or> r_status r' = StateCancelled"
  shows "idle d' runID (r_generation r)"
  using assms by (intro aggregate_idle) auto

lemma finalize_cases:
  assumes "FinalizeNodeTransitionTx marshal None now runID d = Inr d'"
  obtains d1 where "AggregateTx marshal now runID d1 = Inr d'" "runs d1 = runs d" "medias d1 = medias d"
proof -
  from assms have "and_then (and_then (PropagateImpossibleDependenciesTx now runID d)
      (\<lambda>d. and_then (RecomputePlanCompletionTx now runID d) (RecomputeRetirementBarrierTx None runID)))
      (AggregateTx marshal now runID) = Inr d'" and pos: "\<not> runID \<le> 0"
    unfolding FinalizeNodeTransitionTx_def projectNodeTransitionTx_def by (simp_all split: if_split_asm)
  then obtain d0 d1 where p: "PropagateImpossibleDependenciesTx now runID d = Inr d0"
    and r: "RecomputePlanCompletionTx now runID d0 = Inr d1" and a: "AggregateTx marshal now runID d1 = Inr d'"
    unfolding and_then_Inr_iff RecomputeRetirementBarrierTx_def by auto
  have "rest_of d0 = rest_of d" using Propagate_skipped_to(1) [OF p] by (simp add: skipped_to_def)
  from rest_of_eq(2,3) [OF this] have "runs d1 = runs d" "medias d1 = medias d"
    using recompute_frame [OF r] by simp_all
  with a show thesis by (rule that)
qed

text \<open>C0: Cancelling a run cancels all of it: when \<open>CancelRunTx\<close> reports that it cancelled, the run
  is cancelled with the given reason and nothing of it is waiting or running.\<close>

theorem CancelRun_idle:
  assumes "CancelRunTx marshal None now runID reason d = Inr (True, d')" and "ingest_ok d"
  shows "\<exists>r'. run_by_id d' runID = Some r' \<and> r_status r' = StateCancelled \<and>
    r_terminal_reason r' = reason \<and> idle d' runID (r_generation r')"
proof -
  let ?m = "mark_cancelled now runID reason d"
  have f: "FinalizeNodeTransitionTx marshal None now runID (cancel_work now runID reason ?m) = Inr d'"
    using cancel_run_cases' [OF assms(1)] by simp
  obtain d1 where a: "AggregateTx marshal now runID d1 = Inr d'" and rs: "runs d1 = runs ?m"
    using finalize_cases [OF f] by (metis cancel_work_frame(2))
  have "sql_affected (cancellable_run d runID) (runs d) \<noteq> 0"
    using cancel_run_cases [OF assms(1)] by (auto split: if_splits)
  then obtain r where r: "r \<in> set (runs d)" "cancellable_run d runID r" by (auto simp: sql_affected_0)
  let ?r = "r\<lparr>r_status := StateCancelled, r_terminal_reason := reason, r_finished := coalesce (r_finished r) now\<rparr>"
  have dist: "distinct (map r_id (runs ?m))"
    using assms(2) by (simp add: ingest_ok_def mark_cancelled_def sql_update_def comp_def if_distrib [of r_id] cong: if_cong)
  have "?r \<in> set (runs ?m)" using r by (force simp: mark_cancelled_def sql_update_def)
  from find_key_distinct [OF dist this] have r1: "run_by_id d1 runID = Some ?r"
    using r(2) rs by (simp add: run_by_id_def cancellable_run_def)
  have op: "\<not> run_closed ?r" using r(2) by (simp add: run_closed_def cancellable_run_def)
  obtain st diag d0 where u: "next_state now ?r d1 = (st, d0)" "run_by_id d' runID = Some (update_run now st diag ?r)"
    using aggregate_run [OF a r1 op] by blast
  then have st: "st = StateCancelled" by (simp add: next_state_def)
  from aggregate_idle [OF a r1 op u(2)] have "idle d' runID (r_generation ?r)"
    by (simp add: update_run_def st)
  with u(2) show ?thesis by (simp add: update_run_def st)
qed

text \<open>A run with one required step, in a given status, and its task.\<close>

definition sample_open_db :: "status \<Rightarrow> db" where
  "sample_open_db st = sample_run_db\<lparr>
    steps := [sample_step 1 StepPoster True st, sample_step 2 StepMediaVisible False S_waiting],
    deps := [], posts := [sample_queue 1 1 StepPoster S_waiting]\<rparr>"

lemmas sample_aggregate = settle_terminal_def project_current_def media_by_id_def project_media_def
  update_media_def sample_open_db_def sample_defs sql_update_def sql_affected_def step_names
  RecomputePlanCompletionTx_def run_by_id_def update_run_def completion_of_def malformed_counts_def
  count_status_def terminal_statuses_def convergeTerminalRunTx_def cancel_jobs_def active_of_def
  active_step_of_def cancel_step_def cancel_queue_def coalesce_def run_closed_def

lemma sample_fails:
  "\<exists>d' r'. AggregateTx (\<lambda>_. []) 9 1 (sample_open_db S_failed) = Inr d' \<and>
     run_by_id d' 1 = Some r' \<and> r_status r' = StateFailed"
proof -
  have r: "run_by_id (sample_open_db S_failed) 1 = Some sample_run"
    by (simp add: run_by_id_def sample_open_db_def sample_defs)
  have n: "next_state 9 sample_run (sample_open_db S_failed) =
      (StateFailed, cancelBlockedRequiredWaiting 9 1 (sample_open_db S_failed))"
    by (simp add: next_state_def required_count_def run_steps_def sample_open_db_def sample_defs)
  have b: "cancelBlockedRequiredWaiting 9 1 (sample_open_db S_failed) = sample_open_db S_failed"
    by (simp add: cancelBlockedRequiredWaiting_def Let_def sample_open_db_def sample_defs sql_update_def
        del: set_filter set_map)
  show ?thesis
    unfolding AggregateTx_def r option.case enter_state_def Let_def n prod.case b
    by (simp add: sample_aggregate Let_def)
qed

theorem terminal_runs_idle_witness:
  "\<exists>d'. AggregateTx (\<lambda>_. []) 9 1 (sample_open_db S_failed) = Inr d' \<and> idle d' 1 1"
proof -
  obtain d' r' where a: "AggregateTx (\<lambda>_. []) 9 1 (sample_open_db S_failed) = Inr d'"
    "run_by_id d' 1 = Some r'" "r_status r' = StateFailed"
    using sample_fails by blast
  have r: "run_by_id (sample_open_db S_failed) 1 = Some sample_run" "\<not> run_closed sample_run"
    by (simp_all add: run_by_id_def sample_open_db_def sample_defs run_closed_def)
  from terminal_runs_idle [OF a(1) r a(2)] a(1,3) show ?thesis by (simp add: sample_run_def)
qed

lemma sample_open_ok: "ingest_ok (sample_open_db S_waiting)"
  by (simp add: ingest_ok_def sample_open_db_def sample_defs step_names step_status_ok_def
      active_statuses_def terminal_statuses_def)

lemma no_deps_no_rows: "deps d = [] \<Longrightarrow> impossible_rows runID d = []"
  using impossible_rows_mem [where runID = runID and d = d]
  by (metis empty_iff list.set(1) list.set_sel(1) prod_cases3)

lemma propagate_no_deps:
  assumes "deps d = []" and "0 < runID"
  shows "PropagateImpossibleDependenciesTx now runID d = Inr d"
  using assms no_deps_no_rows [OF assms(1), of runID] by (simp add: PropagateImpossibleDependenciesTx_def)

lemma sample_cancels:
  "\<exists>d'. CancelRunTx (\<lambda>_. []) None 9 1 ''user'' (sample_open_db S_waiting) = Inr (True, d')"
proof -
  let ?d = "sample_open_db S_waiting"
  have c: "sql_affected (cancellable_run ?d 1) (runs ?d) = 1"
    by (simp add: sql_affected_def cancellable_run_def sample_open_db_def sample_defs)
  have run: "run_by_id ?d 1 = Some sample_run"
    by (simp add: run_by_id_def sample_open_db_def sample_defs)
  obtain d1 where d1: "cancel_work 9 1 ''user'' (mark_cancelled 9 1 ''user'' ?d) = d1" by blast
  have s1: "steps d1 = map (cancel_step 9 (if_empty ''user'')) (steps ?d)" "deps d1 = []"
    "runs d1 = [sample_run\<lparr>r_status := StateCancelled, r_terminal_reason := ''user'', r_finished := Some 9\<rparr>]"
    "medias d1 = medias ?d" "completions d1 = []" "jobs d1 = None"
    unfolding d1 [symmetric]
    by (simp_all add: cancel_work_def mark_cancelled_def Let_def cancel_jobs_def sql_update_def
        cancellable_run_def sample_open_db_def sample_defs coalesce_def)
  have p: "PropagateImpossibleDependenciesTx 9 1 d1 = Inr d1"
    by (simp add: propagate_no_deps s1(2))
  have "\<exists>d'. FinalizeNodeTransitionTx (\<lambda>_. []) None 9 1 d1 = Inr d'"
    unfolding FinalizeNodeTransitionTx_def projectNodeTransitionTx_def p
    by (simp add: RecomputePlanCompletionTx_def RecomputeRetirementBarrierTx_def run_by_id_def s1
        sample_open_db_def sample_defs cancel_step_def completion_of_def malformed_counts_def
        count_status_def terminal_statuses_def AggregateTx_def run_closed_def enter_state_def
        next_state_def update_run_def settle_terminal_def project_current_def media_by_id_def project_media_def
        convergeTerminalRunTx_def Let_def sql_update_def active_step_of_def cancel_jobs_def)
  then show ?thesis using c d1 by (auto simp: CancelRunTx_def Let_def mark_cancelled_def)
qed

theorem CancelRun_idle_witness:
  "\<exists>d'. CancelRunTx (\<lambda>_. []) None 9 1 ''user'' (sample_open_db S_waiting) = Inr (True, d') \<and>
    (\<exists>r'. run_by_id d' 1 = Some r' \<and> r_status r' = StateCancelled)"
  using sample_cancels CancelRun_idle [OF _ sample_open_ok] by blast

end
