(* ===== verification/Run_Isolation.thy ===== *)
theory Run_Isolation
  imports Run_Outcome
begin

text \<open>
  Frame properties of the transitions of a run: a transition changes rows of its own run only,
  a task that was claimed is not claimed again, a reopening is fenced by the retry round and
  leaves one audit row, and error texts stay within their bound.
\<close>

section \<open>Other runs\<close>

text \<open>Rows keep their order and key; those of another key are unchanged.\<close>

definition only_key :: "('a \<Rightarrow> 'k) \<Rightarrow> 'k \<Rightarrow> 'a list \<Rightarrow> 'a list \<Rightarrow> bool" where
  "only_key key k xs ys \<longleftrightarrow> list_all2 (\<lambda>x y. key y = key x \<and> (key x \<noteq> k \<longrightarrow> y = x)) xs ys"

definition only_run :: "int \<Rightarrow> db \<Rightarrow> db \<Rightarrow> bool" where
  "only_run runID d d' \<longleftrightarrow>
    only_key r_id runID (runs d) (runs d') \<and> only_key s_run runID (steps d) (steps d') \<and>
    only_key q_run (Some runID) (posts d) (posts d') \<and>
    only_key q_run (Some runID) (scrapes d) (scrapes d') \<and>
    only_key q_run (Some runID) (transcodes d) (transcodes d') \<and> deps d' = deps d"

lemma only_key_refl [simp]: "only_key key k xs xs"
  by (simp add: only_key_def list_all2_same)

lemma only_key_trans: "only_key key k xs ys \<Longrightarrow> only_key key k ys zs \<Longrightarrow> only_key key k xs zs"
  unfolding only_key_def by (rule list_all2_trans) auto

lemma only_key_update:
  assumes "\<And>x. p x \<Longrightarrow> key x = k \<and> key (f x) = k"
  shows "only_key key k xs (sql_update p f xs)"
  using assms by (auto simp: only_key_def sql_update_def list_all2_map2 list_all2_same)

lemma only_key_other:
  assumes "only_key key k xs ys" and "\<And>x. p x \<Longrightarrow> key x \<noteq> k"
  shows "filter p ys = filter p xs"
  using assms(1) unfolding only_key_def
proof (induction rule: list_all2_induct)
  case (Cons x xs y ys)
  then show ?case using assms(2) [of x] assms(2) [of y] by auto
qed simp

lemma only_run_refl [simp]: "only_run runID d d" by (simp add: only_run_def)

lemma only_run_trans [trans]: "only_run i d d' \<Longrightarrow> only_run i d' d'' \<Longrightarrow> only_run i d d''"
  unfolding only_run_def by (auto intro: only_key_trans)

lemma recompute_only: "RecomputePlanCompletionTx now i d = Inr d' \<Longrightarrow> only_run i d d'"
  by (drule recompute_frame) (simp add: only_run_def)

lemma queue_frames [simp]:
  "q_run (cancel_queue now err prog q) = q_run q" "q_run (skip_queue_row now r q) = q_run q"
  "s_run (cancel_step now err s) = s_run s" "s_run (skip_step now r s) = s_run s"
  by (simp_all add: cancel_queue_def skip_queue_row_def cancel_step_def skip_step_def)

lemma set_queue_only:
  assumes "only_key q_run (Some i) (queue_rows fam d) rows"
  shows "only_run i d (set_queue fam rows d)"
  using assms by (cases fam) (simp_all add: only_run_def set_queue_def queue_rows_def)

lemma sync_only:
  assumes "syncSkippedQueueForStepTx now s r d = Inr d'"
  shows "only_run (s_run s) d d'"
proof -
  let ?p = "\<lambda>q. linked (s_id s) (s_run s) (s_generation s) q \<and> q_status q = S_waiting"
  have "d' = d \<or> (\<exists>fam. d' = set_queue fam (sql_update ?p (skip_queue_row now r) (queue_rows fam d)) d)"
    using assms unfolding syncSkippedQueueForStepTx_def Let_def
    by (cases "queueFamilyForStep (s_type s)") (auto split: if_split_asm)
  then show ?thesis by (auto intro!: set_queue_only only_key_update simp: linked_def)
qed

lemma skip_batch_only:
  "skip_batch now i cs d = Inr d' \<Longrightarrow> (\<And>s e p. (s, e, p) \<in> set cs \<Longrightarrow> s_run s = i) \<Longrightarrow> only_run i d d'"
proof (induction cs arbitrary: d)
  case (Cons c cs)
  obtain s e p where c: "c = (s, e, p)" by (cases c)
  let ?r = "Impossible (dependencyReason s p (d_kind e))"
  let ?w = "\<lambda>x. s_id x = s_id s \<and> s_run x = i \<and> s_generation x = s_generation s \<and>
    s_status x = S_waiting"
  let ?d1 = "d\<lparr>steps := sql_update ?w (skip_step now ?r) (steps d)\<rparr>"
  show ?case
  proof (cases "sql_affected ?w (steps d) = 0")
    case True
    with Cons.prems(1) c have "skip_batch now i cs d = Inr d'" by (simp add: Let_def)
    then show ?thesis by (rule Cons.IH) (use Cons.prems(2) in auto)
  next
    case False
    with Cons.prems(1) c have b: "(case syncSkippedQueueForStepTx now s ?r ?d1 of
        Inl err \<Rightarrow> Inl err | Inr d1 \<Rightarrow> skip_batch now i cs d1) = Inr d'"
      by (simp only: skip_batch.simps prod.case Let_def if_False)
    then obtain d1 where sync: "syncSkippedQueueForStepTx now s ?r ?d1 = Inr d1"
      and rest: "skip_batch now i cs d1 = Inr d'"
      by (cases "syncSkippedQueueForStepTx now s ?r ?d1") simp_all
    have run: "s_run s = i" using Cons.prems(2) [of s e p] c by simp
    have "only_run i d ?d1" by (auto simp: only_run_def intro!: only_key_update)
    also have "only_run i ?d1 d1" using sync_only [OF sync] run by simp
    also have "only_run i d1 d'" by (rule Cons.IH [OF rest]) (use Cons.prems(2) in auto)
    finally show ?thesis .
  qed
qed simp

lemma propagate_loop_only: "propagate fuel now i d = Some (Inr d') \<Longrightarrow> only_run i d d'"
proof (induction fuel arbitrary: d)
  case (Suc fuel)
  show ?case
  proof (cases "impossible_rows i d = []")
    case False
    with Suc.prems obtain d1
      where b: "skip_batch now i (impossible_rows i d) d = Inr d1"
        and rest: "propagate fuel now i d1 = Some (Inr d')"
      by (auto split: sum.splits)
    have "only_run i d d1" by (rule skip_batch_only [OF b]) (simp add: impossible_rows_mem)
    with Suc.IH [OF rest] show ?thesis by (blast intro: only_run_trans)
  qed (use Suc.prems in simp)
qed simp

lemma propagate_only: "PropagateImpossibleDependenciesTx now i d = Inr d' \<Longrightarrow> only_run i d d'"
  by (auto simp: PropagateImpossibleDependenciesTx_def simp del: propagate.simps
      dest: propagate_loop_only split: if_splits option.splits)

lemma converge_only: "convergeTerminalRunTx now i gen st d = Inr d' \<Longrightarrow> only_run i d d'"
  by (auto simp: convergeTerminalRunTx_def Let_def only_run_def cancel_jobs_def active_of_def
      active_step_of_def intro!: only_key_update split: if_split_asm)

lemma cancelBlocked_only: "only_run i d (cancelBlockedRequiredWaiting now i d)"
  by (auto simp: cancelBlockedRequiredWaiting_def Let_def only_run_def intro!: only_key_update)

lemma enter_only:
  assumes "enter_state marshal now r d = (st, diag, d1)"
  shows "only_run (r_id r) d d1"
proof -
  obtain d0 where n: "next_state now r d = (st, d0)"
    and d1: "d1 = d0\<lparr>runs := sql_update (\<lambda>x. r_id x = r_id r) (update_run now st diag) (runs d0)\<rparr>"
    using assms by (auto simp: enter_state_def Let_def split: prod.splits)
  have "only_run (r_id r) d d0"
    using n cancelBlocked_only by (auto simp: next_state_def split: if_splits)
  also have "only_run (r_id r) d0 d1"
    by (simp add: d1 only_run_def only_key_update update_run_def)
  finally show ?thesis .
qed

lemma settle_only: "settle_terminal now r st d = Inr d' \<Longrightarrow> only_run (r_id r) d d'"
  by (auto simp: settle_terminal_def and_then_Inr_iff dest!: converge_only recompute_only
      intro: only_run_trans split: if_splits)

lemma update_media_only: "only_run i d (update_media d j f)"
  by (simp add: only_run_def update_media_def)

lemma visible_only:
  assumes "completeVisibleBarrierTx now i mediaID gen d = Inr d'"
  shows "only_run i d d'"
proof -
  let ?w = "\<lambda>s :: step_row. s_run s = i \<and> s_media s = mediaID \<and> s_generation s = gen \<and>
    s_type s = StepMediaVisible \<and> s_status s = S_waiting \<and>
    list_ex (\<lambda>m. m_id m = mediaID \<and> m_generation m = gen \<and> m_published_at m \<noteq> None \<and>
      m_state m \<in> {StatePublished, StateDegraded}) (medias d)"
  let ?d1 = "d\<lparr>steps := sql_update ?w
    (\<lambda>s. s\<lparr>s_status := S_done, s_finished := coalesce (s_finished s) now\<rparr>) (steps d)\<rparr>"
  have "only_run i d ?d1" by (auto simp: only_run_def intro!: only_key_update)
  moreover have "d' = d \<or> RecomputePlanCompletionTx now i ?d1 = Inr d'"
    using assms unfolding completeVisibleBarrierTx_def Let_def by (auto split: if_splits)
  ultimately show ?thesis by (auto dest: recompute_only intro: only_run_trans)
qed

lemma project_only:
  assumes "project_current now r st diag d = Inr d'"
  shows "only_run (r_id r) d d'"
proof -
  have "d' = d \<or> project_media now r st diag d = Inr d'"
    using assms by (auto simp: project_current_def split: option.splits if_splits)
  then show ?thesis
  proof
    assume "project_media now r st diag d = Inr d'"
    then show ?thesis
      unfolding project_media_def Let_def
      by (cases st) (auto intro: update_media_only only_run_trans [OF update_media_only visible_only])
  qed simp
qed

lemma aggregate_only:
  assumes "AggregateTx marshal now i d = Inr d'"
  shows "only_run i d d'"
  using assms
proof (cases rule: aggregate_cases)
  case (moved r st diag d1 d2)
  have "only_run (r_id r) d d1" using moved(4) by (rule enter_only)
  also have "only_run (r_id r) d1 d2" using moved(5) by (rule settle_only)
  also have "only_run (r_id r) d2 d'" using moved(6) by (rule project_only)
  finally show ?thesis using moved(3) by simp
qed simp

lemma finalize_only:
  assumes "FinalizeNodeTransitionTx marshal None now i d = Inr d'"
  shows "only_run i d d'"
  using assms
  by (auto simp: FinalizeNodeTransitionTx_def projectNodeTransitionTx_def
      RecomputeRetirementBarrierTx_def and_then_Inr_iff
      dest!: propagate_only recompute_only aggregate_only
      split: if_splits intro: only_run_trans)

lemma cancel_work_only: "only_run i d (cancel_work now i reason d)"
  by (auto simp: cancel_work_def Let_def only_run_def cancel_jobs_def of_run_in_def intro!: only_key_update)

lemma mark_cancelled_only: "only_run i d (mark_cancelled now i reason d)"
  by (auto simp: mark_cancelled_def only_run_def cancellable_run_def intro!: only_key_update)

lemma cancel_only:
  assumes "CancelRunTx marshal None now i reason d = Inr (ok, d')"
  shows "only_run i d d'"
  using cancel_run_cases' [OF assms] finalize_only cancel_work_only mark_cancelled_only
  by (blast intro: only_run_trans only_run_refl)



section \<open>Claims are exclusive\<close>

lemma find_update_id:
  assumes "distinct (map key xs)" and "find p xs = Some x" and "key (f x) = key x"
    and "\<And>y. p y \<Longrightarrow> key y = k"
  shows "\<forall>y \<in> set (sql_update p f xs). key y = k \<longrightarrow> y = f x"
proof (intro ballI impI)
  fix y assume y: "y \<in> set (sql_update p f xs)" "key y = k"
  have x: "x \<in> set xs" "p x" using find_set [OF assms(2)] by auto
  then have kx: "key x = k" using assms(4) by simp
  have uniq: "z = x" if "z \<in> set xs" "key z = k" for z
    using assms(1) that x(1) kx by (metis eq_key_imp_eq_value distinct_map inj_on_def)
  from y(1) show "y = f x"
  proof (rule sql_update_elim)
    fix z assume "z \<in> set xs" "p z" "y = f z"
    then show ?thesis using uniq assms(4) by metis
  next
    assume "y \<in> set xs" "\<not> p y"
    then show ?thesis using uniq y(2) x(2) by metis
  qed
qed

lemma queue_rows_set_queue [simp]: "queue_rows fam (set_queue fam rows d) = rows"
  by (cases fam) (simp_all add: queue_rows_def set_queue_def)

lemma queue_rows_steps [simp]: "queue_rows fam (d\<lparr>steps := x\<rparr>) = queue_rows fam d"
  by (cases fam) (simp_all add: queue_rows_def)

lemma claim_result:
  assumes "updateFamilyClaim fam taskType now qid owner d = Inr (Some q, d')"
  obtains q0 where "find (\<lambda>q. q_id q = qid \<and> claimable fam taskType now d q) (queue_rows fam d) = Some q0"
    "q = claim_row fam now owner q0"
    "queue_rows fam d' = sql_update (\<lambda>q. q_id q = qid \<and> claimable fam taskType now d q)
       (claim_row fam now owner) (queue_rows fam d)"
proof -
  let ?p = "\<lambda>q. q_id q = qid \<and> claimable fam taskType now d q"
  obtain q0 where q0: "find ?p (queue_rows fam d) = Some q0"
    using assms by (cases "find ?p (queue_rows fam d)") (simp_all add: updateFamilyClaim_def Let_def)
  have q: "q = claim_row fam now owner q0"
    using assms unfolding updateFamilyClaim_def Let_def q0 option.case
    by (auto simp: and_then_Inr_iff split: option.split_asm if_split_asm)
  have "queue_rows fam d' = sql_update ?p (claim_row fam now owner) (queue_rows fam d)"
    using assms unfolding updateFamilyClaim_def Let_def q0 option.case FinalizeClaimTransitionTx_def
    by (cases fam) (auto simp: and_then_Inr_iff queue_rows_def set_queue_def
        dest!: recompute_frame split: option.split_asm if_split_asm)
  with q0 q that show thesis by blast
qed

text \<open>C0: A task is claimed by one worker: the claimed row is running, leased to its owner for ninety
  seconds, and any further claim of it, by whatever worker, for whatever task type and at whatever
  time, gets nothing and changes nothing.\<close>

theorem claim_is_exclusive:
  assumes "updateFamilyClaim fam taskType now qid owner d = Inr (Some q, d')"
    and "distinct (map q_id (queue_rows fam d))"
  shows "q_status q = S_running \<and> q_lease_owner q = Some owner \<and> q_lease_until q = Some (now + 90) \<and>
    updateFamilyClaim fam taskType' now' qid owner' d' = Inr (None, d')"
proof (intro conjI impI)
  let ?p = "\<lambda>q. q_id q = qid \<and> claimable fam taskType now d q"
  obtain q0 where q0: "find ?p (queue_rows fam d) = Some q0" "q = claim_row fam now owner q0"
    and rows: "queue_rows fam d' = sql_update ?p (claim_row fam now owner) (queue_rows fam d)"
    by (rule claim_result [OF assms(1)])
  show st: "q_status q = S_running" and "q_lease_owner q = Some owner" "q_lease_until q = Some (now + 90)"
    by (simp_all add: q0(2) claim_row_def Let_def claim_lease_def split: QueueFamily.splits)
  have "\<forall>y \<in> set (queue_rows fam d'). q_id y = qid \<longrightarrow> y = q"
    unfolding rows q0(2)
    by (rule find_update_id [OF assms(2) q0(1)])
      (simp_all add: claim_row_def Let_def split: QueueFamily.splits)
  then have "\<not> (q_id y = qid \<and> claimable fam taskType' now' d' y)" if "y \<in> set (queue_rows fam d')" for y
    using that st by (auto simp: claimable_def familyDue_def split: QueueFamily.splits)
  then have "find (\<lambda>q. q_id q = qid \<and> claimable fam taskType' now' d' q) (queue_rows fam d') = None"
    by (simp add: find_None_iff)
  then show "updateFamilyClaim fam taskType' now' qid owner' d' = Inr (None, d')"
    by (simp add: updateFamilyClaim_def Let_def)
qed

theorem claim_is_exclusive_witness:
  "\<exists>q d'. updateFamilyClaim QueuePostIngest StepAIAnalysis 9 3 ''w'' sample_ready_db = Inr (Some q, d') \<and>
     q_lease_until q = Some 99 \<and>
     updateFamilyClaim QueuePostIngest StepAIAnalysis 400 3 ''other'' d' = Inr (None, d')"
proof -
  obtain q d' where c: "updateFamilyClaim QueuePostIngest StepAIAnalysis 9 3 ''w'' sample_ready_db = Inr (Some q, d')"
    using sample_ready_claim by blast
  have "distinct (map q_id (queue_rows QueuePostIngest sample_ready_db))"
    by (simp add: queue_rows_def sample_ready_db_def sample_defs)
  from claim_is_exclusive [OF c this] c show ?thesis by auto
qed

section \<open>Reopening is fenced and audited\<close>

lemma reopen_one_result:
  assumes "reopenStepAndQueue now req fam q s d = Inr d'"
  shows "s_retry_round s = ro_ExpectedRetryRound req"
    and "audits d' = audits (writeReopenAudit req fam q s (s_retry_round s + 1) d)"
    and "steps d' = sql_update (\<lambda>x. s_id x = ro_StepID req \<and> s_run x = ro_RunID req \<and>
        s_generation x = s_generation s \<and> reopenable (s_status x) \<and> s_retry_round x = s_retry_round s)
      (reopen_step (s_retry_round s + 1)) (steps d)"
  using assms
  by (auto simp: reopenStepAndQueue_def Let_def set_queue_def writeReopenAudit_def
      split: if_split_asm QueueFamily.splits)

lemma cascade_audits:
  "cascade_each now req rid gen cs d = Inr d' \<Longrightarrow> (\<And>c. c \<in> set cs \<Longrightarrow> s_type c = StepAIAnalysis) \<Longrightarrow>
   \<exists>more. audits d' = audits d @ more \<and>
     (\<forall>a \<in> set more. a_actor a = ro_ActorID req \<and> a_reason a = ro_Reason req \<and> a_type a = StepAIAnalysis)"
proof (induction cs arbitrary: d)
  case (Cons c cs)
  show ?case
  proof (cases "cascade_reason c rid gen")
    case True
    let ?req = "req\<lparr>ro_StepID := s_id c, ro_Target := StepAIAnalysis, ro_ExpectedRetryRound := s_retry_round c\<rparr>"
    from True Cons.prems(1) obtain fam q d1 where one: "reopenStepAndQueue now ?req fam q c d = Inr d1"
      and rest: "cascade_each now req rid gen cs d1 = Inr d'"
      by (auto simp: and_then_Inr_iff)
    obtain a where a: "audits d1 = audits d @ [a]" "a_actor a = ro_ActorID req" "a_reason a = ro_Reason req"
      "a_type a = s_type c"
      using reopen_one_result(2) [OF one] by (simp add: writeReopenAudit_def)
    obtain more where "audits d' = audits d1 @ more"
      "\<forall>a \<in> set more. a_actor a = ro_ActorID req \<and> a_reason a = ro_Reason req \<and> a_type a = StepAIAnalysis"
      using Cons.IH [OF rest] Cons.prems(2) by auto
    with a Cons.prems(2) [of c] show ?thesis by (intro exI [of _ "a # more"]) simp
  next
    case False
    then have "cascade_each now req rid gen cs d = Inr d'" using Cons.prems(1) by simp
    then show ?thesis using Cons.IH Cons.prems(2) by simp
  qed
qed simp

lemma recompute_audits: "RecomputePlanCompletionTx now runID d = Inr d' \<Longrightarrow> audits d' = audits d"
  by (auto simp: RecomputePlanCompletionTx_def Let_def split: if_splits option.splits)

lemma cancelBlocked_audits [simp]: "audits (cancelBlockedRequiredWaiting now runID d) = audits d"
  by (simp add: cancelBlockedRequiredWaiting_def Let_def)

lemma enter_audits: "enter_state marshal now r d = (st, diag, d1) \<Longrightarrow> audits d1 = audits d"
  by (auto simp: enter_state_def Let_def next_state_def split: prod.splits if_splits)

lemma settle_audits: "settle_terminal now r st d = Inr d' \<Longrightarrow> audits d' = audits d"
  by (auto simp: settle_terminal_def and_then_Inr_iff convergeTerminalRunTx_def Let_def cancel_jobs_def
      dest!: recompute_audits split: if_splits)

lemma visible_audits: "completeVisibleBarrierTx now i mediaID gen d = Inr d' \<Longrightarrow> audits d' = audits d"
  by (auto simp: completeVisibleBarrierTx_def Let_def dest!: recompute_audits split: if_splits)

lemma update_media_audits [simp]: "audits (update_media d i f) = audits d"
  by (simp add: update_media_def)

lemma project_audits:
  assumes "project_current now r st diag d = Inr d'"
  shows "audits d' = audits d"
proof -
  have "d' = d \<or> project_media now r st diag d = Inr d'"
    using assms by (auto simp: project_current_def split: option.splits if_splits)
  then show ?thesis
    by (cases st) (auto simp: project_media_def Let_def dest: visible_audits)
qed

lemma aggregate_audits:
  assumes "AggregateTx marshal now i d = Inr d'"
  shows "audits d' = audits d"
  using assms
proof (cases rule: aggregate_cases)
  case (moved r st diag d1 d2)
  then show ?thesis using enter_audits settle_audits project_audits by metis
qed simp

lemma finalize_audits:
  assumes "FinalizeNodeTransitionTx marshal None now i d = Inr d'"
  shows "audits d' = audits d"
proof -
  from assms obtain d0 d1 where p: "PropagateImpossibleDependenciesTx now i d = Inr d0"
    and r: "RecomputePlanCompletionTx now i d0 = Inr d1" and a: "AggregateTx marshal now i d1 = Inr d'"
    unfolding FinalizeNodeTransitionTx_def projectNodeTransitionTx_def RecomputeRetirementBarrierTx_def
    by (auto simp: and_then_Inr_iff split: if_split_asm)
  have "rest_of d0 = rest_of d" using Propagate_skipped_to(1) [OF p] by (simp add: skipped_to_def)
  from this [THEN arg_cong, of audits] have "audits d0 = audits d" by (simp add: rest_of_def)
  then show ?thesis using recompute_audits [OF r] aggregate_audits [OF a] by simp
qed

lemma round_forth:
  assumes "preserves d d'" and "distinct (step_ids d)" and "s \<in> set (steps d)" and "s' \<in> set (steps d')"
    and "s_id s' = s_id s"
  shows "s_retry_round s \<le> s_retry_round s'"
proof -
  obtain x where x: "x \<in> set (steps d)" "same_step x s'" using step_back [OF assms(1,2,4)] by blast
  have "s_id x = s_id s" using x(2) assms(5) by (simp add: same_step_def)
  then have "x = s" using assms(2,3) x(1) unfolding step_ids_def
    by (metis eq_key_imp_eq_value distinct_map inj_on_def)
  with x(2) show ?thesis by (simp add: same_step_def)
qed

text \<open>The row of the reopened step after the two updates of a reopening.\<close>

lemma reopen_one_round:
  assumes one: "reopenStepAndQueue now req fam q s d = Inr d1"
    and "s \<in> set (steps d)" "s_id s = ro_StepID req" "s_run s = ro_RunID req" "reopenable (s_status s)"
  shows "\<exists>x \<in> set (steps d1). s_id x = ro_StepID req \<and> s_retry_round x = s_retry_round s + 1"
proof -
  have "reopen_step (s_retry_round s + 1) s \<in> set (steps d1)"
    using assms(2-5) unfolding reopen_one_result(3) [OF one] sql_update_def by force
  then show ?thesis by (rule bexI [rotated]) (simp add: reopen_step_def assms(3))
qed

text \<open>C0: Reopening is fenced and audited. A successful \<open>ReopenNodeTx\<close> concerns an optional step
  that had ended, in the retry round its caller expected; it records who reopened it and why,
  with the step's former status and the next round, and the only further audit rows are those of
  analysis steps reopened by the recognition cascade, under the same actor and reason. The same
  request cannot succeed twice: repeated on the resulting database it is refused.\<close>

theorem reopen_fenced_and_audited:
  assumes "ReopenNodeTx marshal None now req d = Inr d'" and "distinct (step_ids d)"
  shows "(\<exists>s a more. s \<in> set (steps d) \<and> s_id s = ro_StepID req \<and> s_run s = ro_RunID req \<and>
      \<not> s_required s \<and> s_status s \<in> {S_failed, S_cancelled, S_skipped} \<and>
      s_retry_round s = ro_ExpectedRetryRound req \<and>
      audits d' = audits d @ a # more \<and>
      a_step a = s_id s \<and> a_actor a = ro_ActorID req \<and> a_reason a = ro_Reason req \<and>
      a_step_status a = s_status s \<and> a_retry_round a = s_retry_round s + 1 \<and>
      (\<forall>b \<in> set more. a_actor b = ro_ActorID req \<and> a_reason b = ro_Reason req \<and> a_type b = StepAIAnalysis)) \<and>
    (ReopenNodeTx marshal None now' req d' \<noteq> Inr d'')"
proof (intro conjI impI)
  from assms(1) obtain s fam q d1 d2 where s: "find (\<lambda>s. s_id s = ro_StepID req \<and> s_run s = ro_RunID req) (steps d) = Some s"
    "\<not> s_required s" "reopenable (s_status s)"
    and one: "reopenStepAndQueue now req fam q s d = Inr d1"
    and two: "d2 = d1 \<or> cascadeRecognitionSkippedAI now req (ro_StepID req) (ro_RunID req) (s_generation s) d1 = Inr d2"
    and fin: "FinalizeNodeTransitionTx marshal None now (ro_RunID req) d2 = Inr d'"
    by (rule reopen_cases) metis
  have mem: "s \<in> set (steps d)" "s_id s = ro_StepID req" "s_run s = ro_RunID req"
    using find_set [OF s(1)] by auto
  obtain more where more: "audits d2 = audits d1 @ more"
    "\<forall>b \<in> set more. a_actor b = ro_ActorID req \<and> a_reason b = ro_Reason req \<and> a_type b = StepAIAnalysis"
  proof (cases "d2 = d1")
    case False
    with two have "\<exists>more. audits d2 = audits d1 @ more \<and>
       (\<forall>a \<in> set more. a_actor a = ro_ActorID req \<and> a_reason a = ro_Reason req \<and> a_type a = StepAIAnalysis)"
      unfolding cascadeRecognitionSkippedAI_def by (intro cascade_audits) auto
    with that show thesis by blast
  qed (use that [of "[]"] in simp)
  note r1 = reopen_one_result(1,2) [OF one]
  have au: "audits d' = audits (writeReopenAudit req fam q s (s_retry_round s + 1) d) @ more"
    using more(1) r1(2) finalize_audits [OF fin] by simp
  then show "\<exists>s a more. s \<in> set (steps d) \<and> s_id s = ro_StepID req \<and> s_run s = ro_RunID req \<and>
      \<not> s_required s \<and> s_status s \<in> {S_failed, S_cancelled, S_skipped} \<and>
      s_retry_round s = ro_ExpectedRetryRound req \<and>
      audits d' = audits d @ a # more \<and>
      a_step a = s_id s \<and> a_actor a = ro_ActorID req \<and> a_reason a = ro_Reason req \<and>
      a_step_status a = s_status s \<and> a_retry_round a = s_retry_round s + 1 \<and>
      (\<forall>b \<in> set more. a_actor b = ro_ActorID req \<and> a_reason b = ro_Reason req \<and> a_type b = StepAIAnalysis)"
    using s(2,3) mem r1(1) more(2)
    by (intro exI [of _ s] exI [of _ more]) (simp add: writeReopenAudit_def reopenable_def)
  show "ReopenNodeTx marshal None now' req d' \<noteq> Inr d''"
  proof
    assume again: "ReopenNodeTx marshal None now' req d' = Inr d''"
    from again obtain t fam' q' e1 where t: "find (\<lambda>s. s_id s = ro_StepID req \<and> s_run s = ro_RunID req) (steps d') = Some t"
      and one': "reopenStepAndQueue now' req fam' q' t d' = Inr e1"
      by (rule reopen_cases) metis
    have tm: "t \<in> set (steps d')" "s_id t = ro_StepID req" using find_set [OF t] by auto
    have p1: "preserves d d1"
      using may_reopen_unique [OF mem(1)] s(2) mem(2) by (intro reopen_one_preserves [OF one]) simp
    then have dist1: "distinct (step_ids d1)" using assms(2) same_step_ids by (auto simp: preserves_def)
    have "preserves d1 d2"
    proof (cases "d2 = d1")
      case False
      with two show ?thesis unfolding cascadeRecognitionSkippedAI_def
        by (auto intro!: cascade_preserves intro: may_reopen_unique)
    qed simp
    then have p: "preserves d1 d'" using finalize_preserves [OF fin] by (rule preserves_trans)
    obtain x where x: "x \<in> set (steps d1)" "s_id x = ro_StepID req" "s_retry_round x = s_retry_round s + 1"
      using reopen_one_round [OF one mem s(3)] by blast
    have "s_retry_round x \<le> s_retry_round t" using round_forth [OF p dist1 x(1) tm(1)] x(2) tm(2) by simp
    with x(3) r1(1) reopen_one_result(1) [OF one'] show False by simp
  qed
qed

text \<open>A published run whose optional preview failed.\<close>

definition sample_failed_preview_db :: db where
  "sample_failed_preview_db = sample_run_db\<lparr>
    runs := [sample_run\<lparr>r_status := StatePublished, r_finished := Some 4\<rparr>],
    steps := [sample_step 1 StepPoster True S_done, sample_step 2 StepPreview False S_failed],
    deps := [], posts := [sample_queue 2 2 StepPreview S_failed]\<rparr>"

definition sample_reopen :: ReopenRequest where
  "sample_reopen = \<lparr>ro_RunID = 1, ro_StepID = 2, ro_ActorID = 5, ro_Target = [], ro_Reason = ''again'',
    ro_ExpectedGeneration = 1, ro_ExpectedRetryRound = 0\<rparr>"

lemma sample_reopens:
  "\<exists>d'. ReopenNodeTx (\<lambda>_. []) None 9 sample_reopen sample_failed_preview_db = Inr d'"
proof -
  let ?d = "sample_failed_preview_db"
  let ?s = "sample_step 2 StepPreview False S_failed"
  let ?q = "sample_queue 2 2 StepPreview S_failed"
  have f: "find (\<lambda>s. s_id s = 2 \<and> s_run s = 1) (steps ?d) = Some ?s"
    by (simp add: sample_failed_preview_db_def sample_step_def)
  have fam: "queueFamilyForStep StepPreview = Some QueuePostIngest"
    by (simp add: queueFamilyForStep_def step_names)
  have res: "resolveQueueIdentity ?d 2 1 1 StepPreview = Inr (QueuePostIngest, ?q)"
    by (simp add: resolveQueueIdentity_def fam queue_rows_def linked_def sample_failed_preview_db_def
        sample_queue_def)
  have "\<exists>d1. reopenStepAndQueue 9 sample_reopen QueuePostIngest ?q ?s ?d = Inr d1 \<and> deps d1 = [] \<and>
      runs d1 = runs ?d \<and> steps d1 = [sample_step 1 StepPoster True S_done, reopen_step 1 ?s] \<and>
      completions d1 = []"
    by (simp add: reopenStepAndQueue_def Let_def sample_reopen_def sample_failed_preview_db_def
        sample_step_def sample_queue_def writeReopenAudit_def sql_affected_def queue_rows_def linked_def
        reopenable_def set_queue_def sql_update_def sample_run_db_def sample_db_def)
  then obtain d1 where d1: "reopenStepAndQueue 9 sample_reopen QueuePostIngest ?q ?s ?d = Inr d1"
    "deps d1 = []" "runs d1 = runs ?d" "completions d1 = []"
    "steps d1 = [sample_step 1 StepPoster True S_done, reopen_step 1 ?s]" by blast
  have "\<exists>d'. FinalizeNodeTransitionTx (\<lambda>_. []) None 9 1 d1 = Inr d'"
    unfolding FinalizeNodeTransitionTx_def projectNodeTransitionTx_def
    by (simp add: propagate_no_deps d1 RecomputePlanCompletionTx_def RecomputeRetirementBarrierTx_def
        run_by_id_def sample_failed_preview_db_def sample_run_def sample_step_def reopen_step_def
        completion_of_def malformed_counts_def count_status_def terminal_statuses_def AggregateTx_def
        run_closed_def Let_def)
  moreover have "ReopenNodeTx (\<lambda>_. []) None 9 sample_reopen ?d = FinalizeNodeTransitionTx (\<lambda>_. []) None 9 1 d1"
    using d1(1) f res
    by (simp add: ReopenNodeTx_def sample_reopen_def sample_step_def operator_reopenable_def step_names
        reopenable_def)
  ultimately show ?thesis by simp
qed

theorem reopen_fenced_and_audited_witness:
  "\<exists>d' a more. ReopenNodeTx (\<lambda>_. []) None 9 sample_reopen sample_failed_preview_db = Inr d' \<and>
    audits d' = a # more \<and> a_actor a = 5 \<and> a_retry_round a = 1"
proof -
  obtain d' where d': "ReopenNodeTx (\<lambda>_. []) None 9 sample_reopen sample_failed_preview_db = Inr d'"
    using sample_reopens by blast
  have "distinct (step_ids sample_failed_preview_db)"
    by (simp add: step_ids_def sample_failed_preview_db_def sample_step_def)
  from reopen_fenced_and_audited [OF d' this, THEN conjunct1] d' show ?thesis
    by (auto simp: sample_reopen_def sample_failed_preview_db_def sample_run_db_def sample_db_def)
qed

section \<open>Truncated diagnostics\<close>

lemma back_to_rune_le: "back_to_rune message n \<le> n"
  by (induction n) auto

lemma back_to_rune_found:
  assumes "i \<le> n" and "RuneStart (message ! i)"
  shows "i \<le> back_to_rune message n \<and> (back_to_rune message n \<noteq> 0 \<longrightarrow> RuneStart (message ! back_to_rune message n))"
  using assms by (induction n) (auto simp: le_Suc_eq)

text \<open>C0: A diagnostic fits its column: \<open>truncatePublicationError\<close> keeps a message of at most 1500
  bytes as it is, and cuts a longer one, in UTF-8, at the start of a rune, losing at most
  three bytes more than it must, and marks the cut; the result has at most 1500 bytes.\<close>

theorem truncatePublicationError_bound:
  assumes utf8: "\<And>i. i + 3 < length message \<Longrightarrow> \<exists>j \<in> {i..i + 3}. RuneStart (message ! j)"
  shows "length (truncatePublicationError message) \<le> 1500 \<and>
    (length message \<le> 1500 \<longrightarrow> truncatePublicationError message = message) \<and>
    (1500 < length message \<longrightarrow> (\<exists>n. 1494 \<le> n \<and> n \<le> 1497 \<and> RuneStart (message ! n) \<and>
      truncatePublicationError message = take n message @ ''...''))"
proof (intro conjI impI)
  let ?n = "back_to_rune message 1497"
  have le: "?n \<le> 1497" by (rule back_to_rune_le)
  have long: "truncatePublicationError message = take ?n message @ ''...''" if "1500 < length message"
    using that by (simp add: truncatePublicationError_def maxPublicationErrorBytes_def publicationErrorEllipsis_def)
  show same: "truncatePublicationError message = message" if "length message \<le> 1500"
    using that by (simp add: truncatePublicationError_def maxPublicationErrorBytes_def)
  show "length (truncatePublicationError message) \<le> 1500"
    using same long le by (cases "length message \<le> 1500") simp_all
  show "\<exists>n. 1494 \<le> n \<and> n \<le> 1497 \<and> RuneStart (message ! n) \<and>
      truncatePublicationError message = take n message @ ''...''" if l: "1500 < length message"
  proof -
    obtain j where j: "1494 \<le> j" "j \<le> 1497" "RuneStart (message ! j)"
      using utf8 [of 1494] l by auto
    have "j \<le> ?n" "RuneStart (message ! ?n)" using back_to_rune_found [OF j(2,3)] j(1) by auto
    with j(1) le long [OF l] show ?thesis by (intro exI [of _ ?n]) simp
  qed
qed

theorem truncatePublicationError_bound_witness:
  "\<exists>n. 1494 \<le> n \<and> n \<le> 1497 \<and>
    truncatePublicationError (replicate 1600 CHR ''a'') = take n (replicate 1600 CHR ''a'') @ ''...''"
proof -
  have "RuneStart CHR ''a''" by code_simp
  then have "\<exists>j \<in> {i..i + 3}. RuneStart (replicate 1600 CHR ''a'' ! j)"
    if "i + 3 < length (replicate 1600 CHR ''a'')" for i
    using that by (intro bexI [of _ i]) simp_all
  from truncatePublicationError_bound [OF this] show ?thesis by fastforce
qed

end
