(* ===== verification/Plan_Persist.thy ===== *)
theory Plan_Persist
  imports Plan_Build Run_Isolation
begin

text \<open>
  Persisting an ingest plan (\<open>publication/planner.go\<close>: \<open>persistPlanTx\<close>,
  \<open>insertDependenciesTx\<close>, \<open>validateDependencyTx\<close>, \<open>PlanNewMediaTx\<close>, \<open>planReplacement\<close>,
  \<open>RepairMediaTx\<close>; \<open>publication/types.go\<close>: \<open>SourceClassFromReason\<close>;
  \<open>taskalign/ensure.go\<close>). The generation of the media is advanced by compare-and-swap, then the
  run, its steps with their queue rows, and the dependency edges are inserted.

  A failed statement rolls the transaction back, so an error carries no tables. The unique
  constraints of the schema are the conflicts of the inserts. The prepare planner of a
  commercial build is the parameter \<open>opt_PreparePlanner\<close>. The resource profile of a queue row is
  not stored: no modelled code reads it. The three queue tables draw their row ids from one
  counter.
\<close>

section \<open>Queue rows of steps\<close>

definition SourceClassScheduled :: int where "SourceClassScheduled = 100"
definition SourceClassManualScan :: int where "SourceClassManualScan = 200"
definition SourceClassUploadDiscovery :: int where "SourceClassUploadDiscovery = 300"
definition SourceClassManualRunNow :: int where "SourceClassManualRunNow = 400"

definition SourceClassFromReason :: "PlanReason \<Rightarrow> int \<Rightarrow> int" where
  "SourceClassFromReason reason ingestItemID =
    (if reason = PlanReasonManualRetry then SourceClassManualRunNow
     else if reason = PlanReasonUpload \<or> reason = PlanReasonEvent then SourceClassUploadDiscovery
     else if reason = PlanReasonScan
     then (if 0 < ingestItemID then SourceClassUploadDiscovery else SourceClassManualScan)
     else SourceClassScheduled)"

definition BasePriority :: "int \<Rightarrow> int" where
  "BasePriority sc = sc"

definition queueBacked :: "StepType \<Rightarrow> bool" where
  "queueBacked step \<longleftrightarrow> step \<in> set
    [StepPoster, StepThumbnail, StepPreview, StepKeyframe, StepSubtitle, StepAtrack, StepEncrypt,
     StepSubtitleExtract, StepAtrackExtract, StepSubtitleRecognize, StepKeyframeExtract,
     StepAIAnalysis, StepScrape, StepPrepare, StepLyricRecognize, StepAudioAnalysis,
     StepPhotoClassify, StepPhotoGeocode, StepPhotoFace, StepImageOCR, StepDocumentConvert,
     StepDocumentFulltext]"

definition executionTaskType :: "StepType \<Rightarrow> StepType" where
  "executionTaskType step =
    (if step = StepSubtitleExtract then StepSubtitle
     else if step = StepAtrackExtract then StepAtrack
     else if step = StepKeyframeExtract then StepKeyframe
     else step)"

section \<open>Domain tasks\<close>

text \<open>\<open>int(math.Ceil(float64(a) / float64(b)))\<close> for positive \<open>b\<close> and values the doubles hold exactly.\<close>

definition ceil_div :: "int \<Rightarrow> int \<Rightarrow> int" where
  "ceil_div a b = (a + b - 1) div b"

definition previewTaskParameters :: "int \<Rightarrow> int \<times> int" where
  "previewTaskParameters durationSec =
    (let duration = (if durationSec \<le> 0 then 600 else durationSec);
         intervalSec = max 5 (ceil_div duration 100);
         countNum = min 100 (max 1 (ceil_div duration intervalSec))
     in (intervalSec, countNum))"

text \<open>\<open>INSERT ... ON CONFLICT(media_id) DO NOTHING\<close>\<close>

definition insert_domain :: "domain_row \<Rightarrow> db \<Rightarrow> db" where
  "insert_domain t d =
    (if list_ex (\<lambda>x. t_type x = t_type t \<and> t_media x = t_media t) (domains d) then d
     else d\<lparr>domains := domains d @ [t]\<rparr>)"

definition EnsureDomainWaiting :: "string \<Rightarrow> int \<Rightarrow> db \<Rightarrow> db option" where
  "EnsureDomainWaiting taskType mediaID d =
    (if taskType = ''subtitle'' then
       Some (insert_domain \<lparr>t_type = ''subtitle'', t_media = mediaID, t_status = Some ''pending'',
         t_interval = 0, t_count = 0\<rparr> d)
     else if taskType = ''preview'' then
       (case media_by_id d mediaID of
          None \<Rightarrow> None
        | Some m \<Rightarrow>
            (let (i, c) = previewTaskParameters (case m_duration m of None \<Rightarrow> 0 | Some x \<Rightarrow> x) in
             Some (insert_domain \<lparr>t_type = ''preview'', t_media = mediaID,
               t_status = Some ''waiting'', t_interval = i, t_count = c\<rparr> d)))
     else if taskType = ''atrack'' \<or> taskType = ''keyframe'' then
       Some (insert_domain \<lparr>t_type = taskType, t_media = mediaID, t_status = Some ''waiting'',
         t_interval = 0, t_count = 0\<rparr> d)
     else Some d)"

section \<open>The rows of a plan\<close>

definition null_if_nonpositive :: "int \<Rightarrow> int option" where
  "null_if_nonpositive i = (if i \<le> 0 then None else Some i)"

text \<open>The compare-and-swap of the generation.\<close>

definition advance_generation :: "currentPlan \<Rightarrow> int \<Rightarrow> media_row \<Rightarrow> media_row" where
  "advance_generation plan expected m =
    m\<lparr>m_generation := m_generation m + 1,
      m_state := (if plan_preserve plan then m_state m else StateProcessing),
      m_error := (if plan_preserve plan then m_error m else [])\<rparr>"

definition new_run :: "currentPlan \<Rightarrow> int \<Rightarrow> int \<Rightarrow> run_row" where
  "new_run plan gen runID =
    \<lparr>r_id = runID, r_media = plan_mediaID plan, r_generation = gen,
     r_scan_task = null_if_nonpositive (plan_scanTaskID plan),
     r_ingest_item = null_if_nonpositive (plan_ingestItemID plan), r_reason = plan_reason plan,
     r_status = StateProcessing, r_preserve = plan_preserve plan,
     r_snapshot = plan_snapshot plan, r_policy_version = 3, r_terminal_reason = [], r_error = [],
     r_superseded_by = None, r_superseded_at = None, r_finished = None\<rparr>"

definition new_step :: "int \<Rightarrow> currentPlan \<Rightarrow> int \<Rightarrow> int \<Rightarrow> int \<Rightarrow> StepType \<Rightarrow> step_row" where
  "new_step now plan gen runID stepID step =
    (let visible = (step = StepMediaVisible \<and> plan_preserve plan) in
     \<lparr>s_id = stepID, s_run = runID, s_media = plan_mediaID plan, s_generation = gen,
      s_type = step, s_required = step \<in> set (plan_required plan),
      s_status = (if visible then S_done else S_waiting), s_attempts = 0,
      s_max_attempts = DefaultMaxAttempts (executionTaskType step), s_retry_round = 0,
      s_lease_owner = None, s_lease_until = None, s_error = no_error, s_started = None,
      s_finished = (if visible then Some now else None)\<rparr>)"

definition new_scrape :: "int \<Rightarrow> currentPlan \<Rightarrow> int \<Rightarrow> int \<Rightarrow> int \<Rightarrow> int \<Rightarrow> queue_row" where
  "new_scrape now plan gen runID stepID qid =
    \<lparr>q_id = qid, q_media = plan_mediaID plan, q_scan_task = None, q_run = Some runID,
     q_step = Some stepID, q_generation = Some gen, q_type = ''media'', q_status = S_waiting,
     q_attempts = 0, q_max_attempts = DefaultNetworkMaxAttempts, q_retry_round = 0,
     q_lease_owner = None, q_lease_until = None, q_error = no_error, q_started = None,
     q_finished = None, q_available = now, q_removed = None, q_priority = 0, q_source_class = 0,
     q_base_priority = 0, q_library = None, q_progress = 0\<rparr>"

definition new_post :: "int \<Rightarrow> currentPlan \<Rightarrow> int \<Rightarrow> int \<Rightarrow> int \<Rightarrow> StepType \<Rightarrow> int \<Rightarrow> queue_row" where
  "new_post now plan gen runID stepID step qid =
    (let sc = SourceClassFromReason (plan_reason plan) (plan_ingestItemID plan) in
     \<lparr>q_id = qid, q_media = plan_mediaID plan,
      q_scan_task = null_if_nonpositive (plan_scanTaskID plan), q_run = Some runID,
      q_step = Some stepID, q_generation = Some gen, q_type = executionTaskType step,
      q_status = S_waiting, q_attempts = 0,
      q_max_attempts = DefaultMaxAttempts (executionTaskType step), q_retry_round = 0,
      q_lease_owner = None, q_lease_until = None, q_error = no_error, q_started = None,
      q_finished = None, q_available = now, q_removed = None, q_priority = 0,
      q_source_class = sc, q_base_priority = BasePriority sc,
      q_library = Some (libraryID (plan_policy plan)), q_progress = 0\<rparr>)"

section \<open>Inserting a step\<close>

definition insert_scrape :: "queue_row \<Rightarrow> db \<Rightarrow> db" where
  "insert_scrape q d =
    (if list_ex (\<lambda>x. q_run x = q_run q \<and> q_step x = q_step q \<and> q_generation x = q_generation q)
          (scrapes d)
     then d
     else d\<lparr>scrapes := scrapes d @ [q], next_queue := next_queue d + 1\<rparr>)"

definition insert_post :: "StepType \<Rightarrow> queue_row \<Rightarrow> db \<Rightarrow> PlannerError + db" where
  "insert_post step q d =
    (if list_ex (\<lambda>x. q_media x = q_media q \<and> q_generation x = q_generation q \<and> q_type x = q_type q)
          (posts d)
     then Inl (EnqueueConflict step)
     else Inr (d\<lparr>posts := posts d @ [q], next_queue := next_queue d + 1\<rparr>))"

text \<open>The task of a step, by the kind of the step. A plan contains prepare only when the prepare
  planner is present.\<close>

definition enqueue_step ::
  "PlanOptions \<Rightarrow> int \<Rightarrow> currentPlan \<Rightarrow> int \<Rightarrow> int \<Rightarrow> int \<Rightarrow> StepType \<Rightarrow> db \<Rightarrow> PlannerError + db" where
  "enqueue_step opts now plan gen runID stepID step d =
    (if step = StepPrepare then
       (case opt_PreparePlanner opts of
          None \<Rightarrow> Inl PrepareFailed
        | Some prepare \<Rightarrow>
            (case prepare d (plan_mediaID plan) runID stepID gen of
               None \<Rightarrow> Inl PrepareFailed
             | Some d' \<Rightarrow> Inr d'))
     else if step = StepScrape then
       Inr (insert_scrape (new_scrape now plan gen runID stepID (next_queue d)) d)
     else if \<not> queueBacked step then Inr d
     else
       and_then (insert_post step (new_post now plan gen runID stepID step (next_queue d)) d)
         (\<lambda>d. case EnsureDomainWaiting (executionTaskType step) (plan_mediaID plan) d of
                None \<Rightarrow> Inl (EnqueueConflict step)
              | Some d' \<Rightarrow> Inr d'))"

definition insert_step :: "step_row \<Rightarrow> db \<Rightarrow> PlannerError + db" where
  "insert_step s d =
    (if list_ex (\<lambda>x. s_run x = s_run s \<and> s_type x = s_type s) (steps d)
     then Inl (InsertStepConflict (s_type s))
     else Inr (d\<lparr>steps := steps d @ [s], next_step := next_step d + 1\<rparr>))"

fun insert_steps ::
  "PlanOptions \<Rightarrow> int \<Rightarrow> currentPlan \<Rightarrow> int \<Rightarrow> int \<Rightarrow> StepType list \<Rightarrow>
   (StepType, int) gmap \<Rightarrow> db \<Rightarrow> PlannerError + (StepType, int) gmap \<times> db" where
  "insert_steps opts now plan gen runID [] stepIDs d = Inr (stepIDs, d)"
| "insert_steps opts now plan gen runID (step # rest) stepIDs d =
    (let stepID = next_step d in
     and_then (insert_step (new_step now plan gen runID stepID step) d)
       (\<lambda>d. and_then (enqueue_step opts now plan gen runID stepID step d)
          (insert_steps opts now plan gen runID rest (gput step stepID stepIDs))))"

section \<open>Dependencies\<close>

text \<open>The stored edges of the run.\<close>

definition run_edges :: "db \<Rightarrow> int \<Rightarrow> (int \<times> int) list" where
  "run_edges d runID =
    [(d_step e, d_on e). e \<leftarrow> deps d,
      (case step_by_id d (d_step e) of None \<Rightarrow> False | Some s \<Rightarrow> s_run s = runID) \<and>
      (d_kind e = DependencySuccess \<or> d_kind e = DependencyTerminal)]"

definition edge_succs :: "(int \<times> int) list \<Rightarrow> int \<Rightarrow> int list" where
  "edge_succs es x = map snd (filter (\<lambda>e. fst e = x) es)"

definition edge_verts :: "(int \<times> int) list \<Rightarrow> int list" where
  "edge_verts es = map fst es @ map snd es"

text \<open>The depth-first search over the edges from every source; the order of the sources, a map
  iteration in the code, does not matter to the result.\<close>

definition has_cycle :: "(int \<times> int) list \<Rightarrow> bool" where
  "has_cycle es =
    (case visit_all (edge_succs es) (Suc (length (edge_verts es))) (remdups (map fst es)) of
       Some (Inr st) \<Rightarrow> False
     | _ \<Rightarrow> True)"

definition row_matches :: "step_row \<Rightarrow> int \<Rightarrow> int \<Rightarrow> int \<Rightarrow> bool" where
  "row_matches s runID mediaID gen \<longleftrightarrow> s_run s = runID \<and> s_media s = mediaID \<and> s_generation s = gen"

definition validateDependencyTx ::
  "db \<Rightarrow> int \<Rightarrow> int option \<Rightarrow> int \<Rightarrow> int \<Rightarrow> int \<Rightarrow> PlannerError option" where
  "validateDependencyTx d stepID dependsOn mediaID gen runID =
    (if stepID \<le> 0 then Some DependencyMissing
     else (case step_by_id d stepID of
             None \<Rightarrow> Some DependencyMissing
           | Some s \<Rightarrow>
               if \<not> row_matches s runID mediaID gen then Some DependencyForeign
               else (case dependsOn of
                       None \<Rightarrow> None
                     | Some depID \<Rightarrow>
                         if depID \<le> 0 then Some DependencyMissing
                         else if depID = stepID then Some DependencySelf
                         else (case step_by_id d depID of
                                 None \<Rightarrow> Some DependencyMissing
                               | Some t \<Rightarrow>
                                   if \<not> row_matches t runID mediaID gen then Some DependencyForeign
                                   else if has_cycle (run_edges d runID @ [(stepID, depID)])
                                   then Some DependencyCycle
                                   else None))))"

text \<open>The insert: a null target and an unknown kind violate a check, a repeated edge the unique
  key.\<close>

definition insert_dependency :: "int \<Rightarrow> int option \<Rightarrow> DependencyKind \<Rightarrow> db \<Rightarrow> PlannerError + db" where
  "insert_dependency stepID dependsOn kind d =
    (case dependsOn of
       None \<Rightarrow> Inl DependencyConflict
     | Some depID \<Rightarrow>
         if kind \<noteq> DependencySuccess \<and> kind \<noteq> DependencyTerminal then Inl DependencyConflict
         else if list_ex (\<lambda>e. d_step e = stepID \<and> d_on e = depID \<and> d_kind e = kind) (deps d)
         then Inl DependencyConflict
         else Inr (d\<lparr>deps := deps d @ [\<lparr>d_step = stepID, d_on = depID, d_kind = kind\<rparr>]\<rparr>))"

fun insertDependenciesTx ::
  "Dependency list \<Rightarrow> (StepType, int) gmap \<Rightarrow> int \<Rightarrow> int \<Rightarrow> int \<Rightarrow> db \<Rightarrow> PlannerError + db" where
  "insertDependenciesTx [] stepIDs mediaID gen runID d = Inr d"
| "insertDependenciesTx (e # es) stepIDs mediaID gen runID d =
    (case gget stepIDs (dep_Step e) of
       None \<Rightarrow> Inl (NoMappedStep (dep_Step e))
     | Some stepID \<Rightarrow>
         if stepID \<le> 0 then Inl (NoMappedStep (dep_Step e))
         else if (case dep_DependsOn e of
                    None \<Rightarrow> False
                  | Some t \<Rightarrow> (case gget stepIDs t of None \<Rightarrow> True | Some i \<Rightarrow> i \<le> 0))
         then Inl (NoMappedTarget (the (dep_DependsOn e)))
         else
           (let dependsOn = (case dep_DependsOn e of None \<Rightarrow> None | Some t \<Rightarrow> gget stepIDs t) in
            case validateDependencyTx d stepID dependsOn mediaID gen runID of
              Some err \<Rightarrow> Inl err
            | None \<Rightarrow>
                and_then (insert_dependency stepID dependsOn (dep_Kind e) d)
                  (insertDependenciesTx es stepIDs mediaID gen runID)))"

section \<open>Persisting and planning\<close>

record Run =
  run_ID :: int
  run_MediaID :: int
  run_ScanTaskID :: int
  run_IngestItemID :: int
  run_LibraryID :: int
  run_Generation :: int
  run_State :: State
  run_Steps :: "StepType list"

definition persistPlanTx ::
  "PlanOptions \<Rightarrow> int \<Rightarrow> currentPlan \<Rightarrow> int \<Rightarrow> db \<Rightarrow> PlannerError + Run \<times> db" where
  "persistPlanTx opts now plan expectedGeneration d =
    (let cas = (\<lambda>m. m_id m = plan_mediaID plan \<and> m_generation m = expectedGeneration);
         gen = expectedGeneration + 1;
         runID = next_run d
     in
     if sql_affected cas (medias d) = 0 then Inl GenerationConflict
     else if list_ex (\<lambda>r. r_media r = plan_mediaID plan \<and> r_generation r = gen) (runs d)
     then Inl InsertRunConflict
     else
       and_then
         (insert_steps opts now plan gen runID (plan_steps plan) []
           (d\<lparr>medias := sql_update cas (advance_generation plan expectedGeneration) (medias d),
              runs := runs d @ [new_run plan gen runID], next_run := next_run d + 1\<rparr>))
         (\<lambda>(stepIDs, d). and_then
            (insertDependenciesTx (plan_dependencies plan) stepIDs (plan_mediaID plan) gen runID d)
            (\<lambda>d. Inr (\<lparr>run_ID = runID, run_MediaID = plan_mediaID plan,
                       run_ScanTaskID = plan_scanTaskID plan,
                       run_IngestItemID = plan_ingestItemID plan,
                       run_LibraryID = libraryID (plan_policy plan), run_Generation = gen,
                       run_State = StateProcessing, run_Steps = plan_steps plan\<rparr>, d))))"

record NewMedia =
  nm_MediaID :: int
  nm_ScanTaskID :: int
  nm_IngestItemID :: int
  nm_FileType :: string
  nm_Metadata :: MetadataAttempt

text \<open>A file type that is not ingested gives no run (\<open>Run{}\<close> without an error).\<close>

definition PlanNewMediaTx :: "PlanOptions \<Rightarrow> int \<Rightarrow> NewMedia \<Rightarrow> db \<Rightarrow> PlannerError + Run option \<times> db" where
  "PlanNewMediaTx opts now media d =
    (let reason = (if nm_ScanTaskID media \<le> 0 \<and> 0 < nm_IngestItemID media then PlanReasonUpload
                   else PlanReasonScan)
     in
     if nm_ScanTaskID media \<le> 0 \<and> nm_IngestItemID media \<le> 0 then Inl InvalidScanTaskId
     else
       and_then
         (buildCurrentPolicyTx opts d (nm_MediaID media) (nm_ScanTaskID media) reason False
           (nm_Metadata media))
         (\<lambda>r. case r of
            None \<Rightarrow> Inr (None, d)
          | Some plan \<Rightarrow>
              if TrimSpace (nm_FileType media) = [] then Inl EmptyFileType
              else if TrimSpace (nm_FileType media) \<noteq> fileType (plan_policy plan)
              then Inl (FileTypeMismatch (TrimSpace (nm_FileType media)) (fileType (plan_policy plan)))
              else
                and_then
                  (persistPlanTx opts now (plan\<lparr>plan_ingestItemID := nm_IngestItemID media\<rparr>)
                    (generation (plan_policy plan)) d)
                  (\<lambda>(run, d). Inr (Some run, d))))"

record ReplacementOptions =
  ro_PlanReason :: PlanReason
  ro_PreserveVisibility :: bool
  ro_OldGeneration :: int

definition supersede_error :: "IngestError \<Rightarrow> PlannerError" where
  "supersede_error e = (if e = InvalidSupersede then SupersedeInvalid else SupersedeNoRun)"

definition planReplacement ::
  "PlanOptions \<Rightarrow> int \<Rightarrow> int \<Rightarrow> ReplacementOptions \<Rightarrow> db \<Rightarrow> PlannerError + Run option \<times> db" where
  "planReplacement opts now mediaID ro d =
    (if ro_PlanReason ro \<notin> {PlanReasonRepair, PlanReasonManualRetry, PlanReasonSourceReplaced}
     then Inl (InvalidReplacementReason (ro_PlanReason ro))
     else
       and_then
         (buildCurrentPolicyTx opts d mediaID 0 (ro_PlanReason ro) (ro_PreserveVisibility ro)
           \<lparr>Attempted = False, Fields = [], Errors = []\<rparr>)
         (\<lambda>r. case r of
            None \<Rightarrow> Inr (None, d)
          | Some plan \<Rightarrow>
              if generation (plan_policy plan) \<noteq> ro_OldGeneration ro then Inl GenerationConflict
              else
                and_then (persistPlanTx opts now plan (ro_OldGeneration ro) d)
                  (\<lambda>(run, d). case supersedeGeneration now mediaID (ro_OldGeneration ro)
                                     (run_Generation run) d of
                     Inl e \<Rightarrow> Inl (supersede_error e)
                   | Inr d' \<Rightarrow> Inr (Some run, d'))))"

definition RepairMediaTx :: "PlanOptions \<Rightarrow> int \<Rightarrow> int \<Rightarrow> db \<Rightarrow> PlannerError + Run option \<times> db" where
  "RepairMediaTx opts now mediaID d =
    (case media_by_id d mediaID of
       None \<Rightarrow> Inl MediaNotFound
     | Some m \<Rightarrow>
         planReplacement opts now mediaID
           \<lparr>ro_PlanReason = PlanReasonRepair, ro_PreserveVisibility = True,
            ro_OldGeneration = m_generation m\<rparr> d)"

section \<open>What the inserts do\<close>

text \<open>The contract of the prepare planner: it adds transcode tasks of the step it is called for and
  changes rendition jobs, and touches nothing else.\<close>

definition prepare_frame :: "PlanOptions \<Rightarrow> bool" where
  "prepare_frame opts \<longleftrightarrow>
    (\<forall>p d m r s g d'. opt_PreparePlanner opts = Some p \<longrightarrow> p d m r s g = Some d' \<longrightarrow>
       (\<exists>ts js n. d' = d\<lparr>transcodes := transcodes d @ ts, jobs := js, next_queue := n\<rparr> \<and>
          next_queue d \<le> n \<and> (\<forall>t \<in> set ts. q_step t = Some s)))"

definition is_post :: "StepType \<Rightarrow> bool" where
  "is_post step \<longleftrightarrow> step \<noteq> StepPrepare \<and> step \<noteq> StepScrape \<and> queueBacked step"

text \<open>The tables that inserting a step and its task leaves alone.\<close>

definition unplanned :: "db \<Rightarrow> db" where
  "unplanned d = d\<lparr>steps := [], posts := [], scrapes := [], transcodes := [], jobs := None,
    domains := [], next_step := 0, next_queue := 0\<rparr>"

lemma unplanned_eq:
  assumes "unplanned d' = unplanned d"
  shows "medias d' = medias d" "runs d' = runs d" "deps d' = deps d" "next_run d' = next_run d"
    "completions d' = completions d" "audits d' = audits d"
  using assms [THEN arg_cong, of medias] assms [THEN arg_cong, of runs] assms [THEN arg_cong, of deps]
    assms [THEN arg_cong, of next_run] assms [THEN arg_cong, of completions]
    assms [THEN arg_cong, of audits]
  by (simp_all add: unplanned_def)

lemma insert_domain_simps [simp]:
  "unplanned (insert_domain t d) = unplanned d" "steps (insert_domain t d) = steps d"
  "posts (insert_domain t d) = posts d" "scrapes (insert_domain t d) = scrapes d"
  "next_step (insert_domain t d) = next_step d" "medias (insert_domain t d) = medias d"
  by (simp_all add: insert_domain_def unplanned_def)

lemma ensure_domain_frame:
  assumes "EnsureDomainWaiting typ mediaID d = Some d'"
  shows "unplanned d' = unplanned d" "steps d' = steps d" "posts d' = posts d"
    "scrapes d' = scrapes d" "next_step d' = next_step d"
proof -
  have "d' = d \<or> (\<exists>t. d' = insert_domain t d)"
    using assms unfolding EnsureDomainWaiting_def Let_def
    by (simp split: if_split_asm option.split_asm prod.split_asm) blast+
  then show "unplanned d' = unplanned d" "steps d' = steps d" "posts d' = posts d"
    "scrapes d' = scrapes d" "next_step d' = next_step d" by auto
qed

lemma ensure_domain_some:
  "media_by_id d mediaID \<noteq> None \<Longrightarrow> EnsureDomainWaiting typ mediaID d \<noteq> None"
  by (auto simp: EnsureDomainWaiting_def Let_def split: prod.splits)

text \<open>The task a step gets.\<close>

definition post_for :: "currentPlan \<Rightarrow> int \<Rightarrow> int \<Rightarrow> int \<Rightarrow> StepType \<Rightarrow> queue_row \<Rightarrow> bool" where
  "post_for plan gen runID stepID step q \<longleftrightarrow>
    q_media q = plan_mediaID plan \<and> linked stepID runID gen q \<and> q_type q = executionTaskType step \<and>
    q_status q = S_waiting \<and> q_attempts q = 0 \<and> q_priority q = 0 \<and>
    q_source_class q = SourceClassFromReason (plan_reason plan) (plan_ingestItemID plan)"

lemma new_post_for: "post_for plan gen runID stepID step (new_post now plan gen runID stepID step qid)"
  by (simp add: post_for_def new_post_def linked_def Let_def)

lemma enqueue_step_frame:
  assumes "enqueue_step opts now plan gen runID stepID step d = Inr d'" and "prepare_frame opts"
  shows "unplanned d' = unplanned d \<and> steps d' = steps d \<and> next_step d' = next_step d"
    and "if is_post step then \<exists>q. posts d' = posts d @ [q] \<and> post_for plan gen runID stepID step q
         else posts d' = posts d"
proof -
  have p: "unplanned d' = unplanned d \<and> steps d' = steps d \<and> next_step d' = next_step d \<and>
      posts d' = posts d" if "step = StepPrepare"
  proof -
    obtain f where f: "opt_PreparePlanner opts = Some f"
      "f d (plan_mediaID plan) runID stepID gen = Some d'"
      using assms(1) \<open>step = StepPrepare\<close> by (auto simp: enqueue_step_def split: option.splits)
    then obtain ts js n where "d' = d\<lparr>transcodes := ts, jobs := js, next_queue := n\<rparr>"
      using assms(2) unfolding prepare_frame_def by metis
    then show ?thesis by (simp add: unplanned_def)
  qed
  have s: "unplanned d' = unplanned d \<and> steps d' = steps d \<and> next_step d' = next_step d \<and>
      posts d' = posts d" if "step = StepScrape"
    using assms(1) that
    by (auto simp: enqueue_step_def insert_scrape_def unplanned_def step_names split: if_splits)
  have n: "d' = d" if "step \<noteq> StepPrepare" "step \<noteq> StepScrape" "\<not> queueBacked step"
    using assms(1) that by (simp add: enqueue_step_def)
  have b: "unplanned d' = unplanned d \<and> steps d' = steps d \<and> next_step d' = next_step d \<and>
      (\<exists>q. posts d' = posts d @ [q] \<and> post_for plan gen runID stepID step q)" if "is_post step"
  proof -
    let ?q = "new_post now plan gen runID stepID step (next_queue d)"
    have "and_then (insert_post step ?q d)
        (\<lambda>d. case EnsureDomainWaiting (executionTaskType step) (plan_mediaID plan) d of
                None \<Rightarrow> Inl (EnqueueConflict step) | Some d' \<Rightarrow> Inr d') = Inr d'"
      using assms(1) that by (simp add: enqueue_step_def is_post_def)
    then obtain d1 where i: "insert_post step ?q d = Inr d1"
      and e: "EnsureDomainWaiting (executionTaskType step) (plan_mediaID plan) d1 = Some d'"
      unfolding and_then_Inr_iff by (auto split: option.split_asm)
    have d1: "d1 = d\<lparr>posts := posts d @ [?q], next_queue := next_queue d + 1\<rparr>"
      using i by (simp add: insert_post_def split: if_split_asm)
    have "unplanned d1 = unplanned d" by (simp add: d1 unplanned_def)
    then show ?thesis
      using ensure_domain_frame [OF e] new_post_for by (auto simp: d1)
  qed
  show "unplanned d' = unplanned d \<and> steps d' = steps d \<and> next_step d' = next_step d"
    using p s n b by (auto simp: is_post_def)
  show "if is_post step then \<exists>q. posts d' = posts d @ [q] \<and> post_for plan gen runID stepID step q
         else posts d' = posts d"
    using p s n b by (auto simp: is_post_def)
qed

fun new_steps :: "int \<Rightarrow> currentPlan \<Rightarrow> int \<Rightarrow> int \<Rightarrow> int \<Rightarrow> StepType list \<Rightarrow> step_row list" where
  "new_steps now plan gen runID n [] = []"
| "new_steps now plan gen runID n (s # ss) =
    new_step now plan gen runID n s # new_steps now plan gen runID (n + 1) ss"

lemma new_step_simps [simp]:
  "s_id (new_step now plan gen runID n s) = n" "s_run (new_step now plan gen runID n s) = runID"
  "s_media (new_step now plan gen runID n s) = plan_mediaID plan"
  "s_generation (new_step now plan gen runID n s) = gen"
  "s_type (new_step now plan gen runID n s) = s"
  "s_required (new_step now plan gen runID n s) = (s \<in> set (plan_required plan))"
  by (simp_all add: new_step_def Let_def)

lemma new_steps_types [simp]: "map s_type (new_steps now plan gen runID n ss) = ss"
  by (induction ss arbitrary: n) simp_all

lemma length_new_steps [simp]: "length (new_steps now plan gen runID n ss) = length ss"
  by (induction ss arbitrary: n) simp_all

lemma new_steps_ids: "map s_id (new_steps now plan gen runID n ss) = map (\<lambda>k. n + int k) [0..<length ss]"
proof (induction ss arbitrary: n)
  case (Cons s ss)
  have "map (\<lambda>k. n + 1 + int k) [0..<length ss] = map (\<lambda>k. n + int k) (map Suc [0..<length ss])"
    by simp
  with Cons show ?case by (simp add: map_Suc_upt upt_conv_Cons del: upt_Suc)
qed simp

lemma new_steps_row:
  "r \<in> set (new_steps now plan gen runID n ss) \<Longrightarrow>
   r = new_step now plan gen runID (s_id r) (s_type r) \<and> s_type r \<in> set ss"
  by (induction ss arbitrary: n) auto

lemma new_steps_id:
  assumes "r \<in> set (new_steps now plan gen runID n ss)"
  shows "n \<le> s_id r" "s_id r < n + int (length ss)"
proof -
  have "s_id r \<in> set (map s_id (new_steps now plan gen runID n ss))" using assms by simp
  then show "n \<le> s_id r" "s_id r < n + int (length ss)" unfolding new_steps_ids by auto
qed

lemma new_steps_mem:
  assumes "r \<in> set (new_steps now plan gen runID n ss)"
  shows "s_run r = runID" "s_media r = plan_mediaID plan" "s_generation r = gen"
    "s_required r = (s_type r \<in> set (plan_required plan))" "s_type r \<in> set ss"
  using new_steps_row [OF assms] by (metis new_step_simps)+

text \<open>The effect of inserting the steps of a plan.\<close>

definition inserted ::
  "int \<Rightarrow> currentPlan \<Rightarrow> int \<Rightarrow> int \<Rightarrow> StepType list \<Rightarrow> (StepType, int) gmap \<Rightarrow> db \<Rightarrow>
   (StepType, int) gmap \<Rightarrow> db \<Rightarrow> bool" where
  "inserted now plan gen runID ss ids d ids' d' \<longleftrightarrow>
    (let rows = new_steps now plan gen runID (next_step d) ss in
     unplanned d' = unplanned d \<and> steps d' = steps d @ rows \<and>
     next_step d' = next_step d + int (length ss) \<and>
     (\<exists>qs. posts d' = posts d @ qs \<and>
        list_all2 (\<lambda>r q. post_for plan gen runID (s_id r) (s_type r) q)
          (filter (\<lambda>r. is_post (s_type r)) rows) qs) \<and>
     (\<forall>t. t \<notin> set ss \<longrightarrow> gget ids' t = gget ids t) \<and>
     (distinct ss \<longrightarrow> (\<forall>r \<in> set rows. gget ids' (s_type r) = Some (s_id r))))"

lemma insert_steps_Cons:
  assumes "insert_steps opts now plan gen runID (s # ss) ids d = Inr (ids', d')"
    and "prepare_frame opts"
  obtains d2 where "insert_steps opts now plan gen runID ss (gput s (next_step d) ids) d2 = Inr (ids', d')"
    "steps d2 = steps d @ [new_step now plan gen runID (next_step d) s]" "next_step d2 = next_step d + 1"
    "unplanned d2 = unplanned d"
    "if is_post s then \<exists>q. posts d2 = posts d @ [q] \<and> post_for plan gen runID (next_step d) s q
     else posts d2 = posts d"
proof -
  let ?n = "next_step d"
  let ?r = "new_step now plan gen runID ?n s"
  from assms(1) have "and_then (insert_step ?r d)
      (\<lambda>d. and_then (enqueue_step opts now plan gen runID ?n s d)
        (insert_steps opts now plan gen runID ss (gput s ?n ids))) = Inr (ids', d')"
    by (simp add: Let_def)
  then obtain d1 d2 where i: "insert_step ?r d = Inr d1"
    and e: "enqueue_step opts now plan gen runID ?n s d1 = Inr d2"
    and rest: "insert_steps opts now plan gen runID ss (gput s ?n ids) d2 = Inr (ids', d')"
    unfolding and_then_Inr_iff by blast
  have d1: "d1 = d\<lparr>steps := steps d @ [?r], next_step := ?n + 1\<rparr>"
    using i by (simp add: insert_step_def split: if_split_asm)
  have u1: "unplanned d1 = unplanned d" by (simp add: d1 unplanned_def)
  note f = enqueue_step_frame [OF e assms(2)]
  have "posts d1 = posts d" by (simp add: d1)
  note q = f(2) [unfolded this]
  show thesis
    by (rule that [OF rest _ _ _ q]) (use f(1) u1 in \<open>simp_all add: d1\<close>)
qed

lemma insert_steps_inserted:
  assumes "insert_steps opts now plan gen runID ss ids d = Inr (ids', d')"
    and frame: "prepare_frame opts"
  shows "inserted now plan gen runID ss ids d ids' d'"
  using assms(1)
proof (induction ss arbitrary: ids d)
  case Nil
  then show ?case by (simp add: inserted_def)
next
  case (Cons s ss)
  let ?n = "next_step d"
  obtain d2 where rest: "insert_steps opts now plan gen runID ss (gput s ?n ids) d2 = Inr (ids', d')"
    and s2: "steps d2 = steps d @ [new_step now plan gen runID ?n s]" "next_step d2 = ?n + 1"
      "unplanned d2 = unplanned d"
    and q: "if is_post s then \<exists>q. posts d2 = posts d @ [q] \<and> post_for plan gen runID ?n s q
      else posts d2 = posts d"
    by (rule insert_steps_Cons [OF Cons.prems frame])
  note IH = Cons.IH [OF rest, unfolded inserted_def Let_def s2]
  obtain qs where qs: "posts d' = posts d2 @ qs"
    "list_all2 (\<lambda>r q. post_for plan gen runID (s_id r) (s_type r) q)
      (filter (\<lambda>r. is_post (s_type r)) (new_steps now plan gen runID (?n + 1) ss)) qs"
    using IH by blast
  have "\<exists>qs. posts d' = posts d @ qs \<and>
      list_all2 (\<lambda>r q. post_for plan gen runID (s_id r) (s_type r) q)
        (filter (\<lambda>r. is_post (s_type r)) (new_steps now plan gen runID ?n (s # ss))) qs"
  proof (cases "is_post s")
    case True
    then obtain q where "posts d2 = posts d @ [q]" "post_for plan gen runID ?n s q" using q by auto
    with qs True show ?thesis by (intro exI [of _ "q # qs"]) simp
  next
    case False
    with qs q show ?thesis by auto
  qed
  with IH show ?case by (simp add: inserted_def)
qed

lemma insert_dependency_result:
  assumes "insert_dependency stepID dependsOn kind d = Inr d'"
  shows "\<exists>depID. dependsOn = Some depID \<and>
    d' = d\<lparr>deps := deps d @ [\<lparr>d_step = stepID, d_on = depID, d_kind = kind\<rparr>]\<rparr>"
  using assms by (simp add: insert_dependency_def split: option.split_asm if_split_asm)

definition dep_row_of :: "(StepType, int) gmap \<Rightarrow> Dependency \<Rightarrow> dep_row" where
  "dep_row_of ids e =
    \<lparr>d_step = the (gget ids (dep_Step e)), d_on = the (gget ids (the (dep_DependsOn e))), d_kind = dep_Kind e\<rparr>"

lemma insert_dependencies_result:
  assumes "insertDependenciesTx es ids mediaID gen runID d = Inr d'"
  shows "d' = d\<lparr>deps := deps d @ map (dep_row_of ids) es\<rparr> \<and>
    (\<forall>e \<in> set es. \<exists>t i j. dep_DependsOn e = Some t \<and> gget ids (dep_Step e) = Some i \<and> gget ids t = Some j)"
  using assms
proof (induction es arbitrary: d)
  case Nil
  then show ?case by simp
next
  case (Cons e es)
  obtain i where i: "gget ids (dep_Step e) = Some i" "0 < i"
    using Cons.prems by (cases "gget ids (dep_Step e)") (auto split: if_split_asm)
  let ?on = "case dep_DependsOn e of None \<Rightarrow> None | Some t \<Rightarrow> gget ids t"
  have b: "validateDependencyTx d i ?on mediaID gen runID = None"
    "and_then (insert_dependency i ?on (dep_Kind e) d) (insertDependenciesTx es ids mediaID gen runID) = Inr d'"
    using Cons.prems i by (simp_all add: Let_def split: if_split_asm option.split_asm)
  then obtain d1 where d1: "insert_dependency i ?on (dep_Kind e) d = Inr d1"
    and rest: "insertDependenciesTx es ids mediaID gen runID d1 = Inr d'"
    unfolding and_then_Inr_iff by blast
  obtain j where j: "?on = Some j" "d1 = d\<lparr>deps := deps d @ [\<lparr>d_step = i, d_on = j, d_kind = dep_Kind e\<rparr>]\<rparr>"
    using insert_dependency_result [OF d1] by blast
  then obtain t where t: "dep_DependsOn e = Some t" "gget ids t = Some j"
    by (auto split: option.split_asm)
  from Cons.IH [OF rest] j(2) i t show ?case by (simp add: dep_row_of_def)
qed

section \<open>The stored plan\<close>

lemma persist_cases:
  assumes "persistPlanTx opts now plan expected d = Inr (run, d')"
  obtains d1 ids d2 where
    "d1 = d\<lparr>medias := sql_update (\<lambda>m. m_id m = plan_mediaID plan \<and> m_generation m = expected)
       (advance_generation plan expected) (medias d),
      runs := runs d @ [new_run plan (expected + 1) (next_run d)], next_run := next_run d + 1\<rparr>"
    "sql_affected (\<lambda>m. m_id m = plan_mediaID plan \<and> m_generation m = expected) (medias d) \<noteq> 0"
    "\<not> list_ex (\<lambda>r. r_media r = plan_mediaID plan \<and> r_generation r = expected + 1) (runs d)"
    "insert_steps opts now plan (expected + 1) (next_run d) (plan_steps plan) [] d1 = Inr (ids, d2)"
    "insertDependenciesTx (plan_dependencies plan) ids (plan_mediaID plan) (expected + 1) (next_run d) d2 = Inr d'"
    "run_ID run = next_run d" "run_Generation run = expected + 1" "run_Steps run = plan_steps plan"
    "run_MediaID run = plan_mediaID plan"
proof -
  define cas where "cas = (\<lambda>m :: media_row. m_id m = plan_mediaID plan \<and> m_generation m = expected)"
  define d1 where "d1 = d\<lparr>medias := sql_update cas (advance_generation plan expected) (medias d),
      runs := runs d @ [new_run plan (expected + 1) (next_run d)], next_run := next_run d + 1\<rparr>"
  have g: "sql_affected cas (medias d) \<noteq> 0"
    "\<not> list_ex (\<lambda>r. r_media r = plan_mediaID plan \<and> r_generation r = expected + 1) (runs d)"
    using assms unfolding persistPlanTx_def Let_def cas_def by (simp_all split: if_split_asm)
  have "and_then (insert_steps opts now plan (expected + 1) (next_run d) (plan_steps plan) [] d1)
      (\<lambda>(stepIDs, d2). and_then
            (insertDependenciesTx (plan_dependencies plan) stepIDs (plan_mediaID plan) (expected + 1) (next_run d) d2)
            (\<lambda>d'. Inr (\<lparr>run_ID = next_run d, run_MediaID = plan_mediaID plan,
                       run_ScanTaskID = plan_scanTaskID plan,
                       run_IngestItemID = plan_ingestItemID plan,
                       run_LibraryID = libraryID (plan_policy plan), run_Generation = expected + 1,
                       run_State = StateProcessing, run_Steps = plan_steps plan\<rparr>, d'))) = Inr (run, d')"
    using assms g unfolding persistPlanTx_def Let_def cas_def d1_def by (simp split: if_split_asm)
  then obtain ids d2 where i: "insert_steps opts now plan (expected + 1) (next_run d) (plan_steps plan) [] d1 = Inr (ids, d2)"
    and e: "insertDependenciesTx (plan_dependencies plan) ids (plan_mediaID plan) (expected + 1) (next_run d) d2 = Inr d'"
    and r: "run = \<lparr>run_ID = next_run d, run_MediaID = plan_mediaID plan,
                       run_ScanTaskID = plan_scanTaskID plan,
                       run_IngestItemID = plan_ingestItemID plan,
                       run_LibraryID = libraryID (plan_policy plan), run_Generation = expected + 1,
                       run_State = StateProcessing, run_Steps = plan_steps plan\<rparr>"
    by (auto simp: and_then_Inr_iff)
  show thesis
    by (rule that [OF d1_def [unfolded cas_def] g [unfolded cas_def] i e]) (simp_all add: r)
qed

text \<open>A row of the dependency table that stores an edge of the plan between two of the new steps.\<close>

definition stores_edge :: "step_row list \<Rightarrow> Dependency \<Rightarrow> dep_row \<Rightarrow> bool" where
  "stores_edge rows e x \<longleftrightarrow>
    (\<exists>s \<in> set rows. \<exists>t \<in> set rows. d_step x = s_id s \<and> dep_Step e = s_type s \<and> d_on x = s_id t \<and>
       dep_DependsOn e = Some (s_type t) \<and> d_kind x = dep_Kind e)"

definition planned_status :: "currentPlan \<Rightarrow> StepType \<Rightarrow> status" where
  "planned_status plan step =
    (if step = StepMediaVisible \<and> plan_preserve plan then S_done else S_waiting)"

lemma new_step_status: "s_status (new_step now plan gen runID n s) = planned_status plan s"
  by (simp add: new_step_def planned_status_def Let_def)

lemma persist_rows:
  assumes p: "persistPlanTx opts now plan expected d = Inr (run, d')" and frame: "prepare_frame opts"
    and dist: "distinct (plan_steps plan)"
  defines "rows \<equiv> new_steps now plan (expected + 1) (next_run d) (next_step d) (plan_steps plan)"
  shows "steps d' = steps d @ rows"
    and "runs d' = runs d @ [new_run plan (expected + 1) (next_run d)]"
    and "medias d' = sql_update (\<lambda>m. m_id m = plan_mediaID plan \<and> m_generation m = expected)
       (advance_generation plan expected) (medias d)"
    and "\<exists>xs. deps d' = deps d @ xs \<and> list_all2 (stores_edge rows) (plan_dependencies plan) xs"
    and "\<exists>qs. posts d' = posts d @ qs \<and>
      list_all2 (\<lambda>r q. post_for plan (expected + 1) (next_run d) (s_id r) (s_type r) q)
        (filter (\<lambda>r. is_post (s_type r)) rows) qs"
proof -
  obtain d1 ids d2 where d1: "d1 = d\<lparr>medias := sql_update (\<lambda>m. m_id m = plan_mediaID plan \<and> m_generation m = expected)
       (advance_generation plan expected) (medias d),
      runs := runs d @ [new_run plan (expected + 1) (next_run d)], next_run := next_run d + 1\<rparr>"
    and i: "insert_steps opts now plan (expected + 1) (next_run d) (plan_steps plan) [] d1 = Inr (ids, d2)"
    and e: "insertDependenciesTx (plan_dependencies plan) ids (plan_mediaID plan) (expected + 1) (next_run d) d2 = Inr d'"
    by (rule persist_cases [OF p]) blast
  have ins: "inserted now plan (expected + 1) (next_run d) (plan_steps plan) [] d1 ids d2"
    using insert_steps_inserted [OF i frame] .
  have ns: "next_step d1 = next_step d" by (simp add: d1)
  note I = ins [unfolded inserted_def Let_def ns, folded rows_def]
  have u: "unplanned d2 = unplanned d1" using I by blast
  have d': "d' = d2\<lparr>deps := deps d2 @ map (dep_row_of ids) (plan_dependencies plan)\<rparr>"
    and res: "\<forall>e \<in> set (plan_dependencies plan). \<exists>t i j. dep_DependsOn e = Some t \<and>
      gget ids (dep_Step e) = Some i \<and> gget ids t = Some j"
    using insert_dependencies_result [OF e] by blast+
  show "steps d' = steps d @ rows" using I by (simp add: d' d1)
  show "runs d' = runs d @ [new_run plan (expected + 1) (next_run d)]"
    using unplanned_eq(2) [OF u] by (simp add: d' d1)
  show "medias d' = sql_update (\<lambda>m. m_id m = plan_mediaID plan \<and> m_generation m = expected)
       (advance_generation plan expected) (medias d)"
    using unplanned_eq(1) [OF u] by (simp add: d' d1)
  have row: "\<exists>s \<in> set rows. s_type s = t \<and> s_id s = i" if g: "gget ids t = Some i" for t i
  proof -
    have "t \<in> set (plan_steps plan)" using I g by (metis gget_Nil option.distinct(1))
    then have "t \<in> set (map s_type rows)" by (simp add: rows_def)
    then obtain s where "s \<in> set rows" "s_type s = t" by auto
    moreover then have "gget ids t = Some (s_id s)" using I dist by blast
    ultimately show ?thesis using g by auto
  qed
  have "stores_edge rows x (dep_row_of ids x)" if x: "x \<in> set (plan_dependencies plan)" for x
  proof -
    obtain t i j where t: "dep_DependsOn x = Some t" "gget ids (dep_Step x) = Some i" "gget ids t = Some j"
      using res x by blast
    obtain s1 s2 where "s1 \<in> set rows" "s_type s1 = dep_Step x" "s_id s1 = i"
      "s2 \<in> set rows" "s_type s2 = t" "s_id s2 = j"
      using row [OF t(2)] row [OF t(3)] by blast
    with t show ?thesis unfolding stores_edge_def dep_row_of_def by (intro bexI [of _ s1] bexI [of _ s2]) simp_all
  qed
  then have "list_all2 (stores_edge rows) (plan_dependencies plan) (map (dep_row_of ids) (plan_dependencies plan))"
    by (simp add: list_all2_map2 list_all2_same)
  then show "\<exists>xs. deps d' = deps d @ xs \<and> list_all2 (stores_edge rows) (plan_dependencies plan) xs"
    using unplanned_eq(3) [OF u] by (auto simp: d' d1)
  show "\<exists>qs. posts d' = posts d @ qs \<and>
      list_all2 (\<lambda>r q. post_for plan (expected + 1) (next_run d) (s_id r) (s_type r) q)
        (filter (\<lambda>r. is_post (s_type r)) rows) qs"
    using I by (simp add: d' d1)
qed

end
