(* ===== verification/Plan_Success.thy ===== *)
theory Plan_Success
  imports Plan_Persist
begin

text \<open>
  What planning and storing a plan achieve together: the stored rows are the plan, a plan that
  was built can always be stored (the cycle check of \<open>validateDependencyTx\<close> accepts it, no
  constraint of the schema is violated), the tables stay consistent, and over histories that
  mix planning with the transitions of runs no step runs before its dependencies.
\<close>

section \<open>The search over the stored edges\<close>

interpretation row_search: cycle_search edge_succs edge_verts
  by unfold_locales (auto simp: edge_succs_def edge_verts_def)

lemma succs_rel_edges [simp]: "succs_rel (edge_succs es) = set es"
  by (auto simp: succs_rel_def edge_succs_def image_iff)

lemma has_cycle_iff: "has_cycle es \<longleftrightarrow> \<not> acyclic (set es)"
proof -
  have "(\<exists>st. visit_all (edge_succs es) (Suc (length (edge_verts es))) (remdups (map fst es)) =
      Some (Inr st)) \<longleftrightarrow> acyclic (set es)"
    using row_search.success_iff_acyclic
      [of "remdups (map fst es)" es "Suc (length (edge_verts es))"]
    by (simp add: edge_verts_def)
      (force simp: edge_succs_def filter_empty_conv)
  then show ?thesis by (auto simp: has_cycle_def split: option.splits sum.splits)
qed

lemma find_append_left: "\<exists>x \<in> set xs. P x \<Longrightarrow> find P (xs @ ys) = find P xs"
  by (induction xs) auto

lemma acyclic_pull:
  assumes "acyclic r" and step: "\<And>x y. (x, y) \<in> s \<Longrightarrow> (h x, h y) \<in> r"
  shows "acyclic s"
proof (rule acyclicI, intro allI notI)
  fix x assume "(x, x) \<in> s\<^sup>+"
  moreover have "(h x, h y) \<in> r\<^sup>+" if "(x, y) \<in> s\<^sup>+" for y
    using that by induction (auto dest: step intro: trancl_into_trancl)
  ultimately show False using assms(1) by (auto simp: acyclic_def)
qed

section \<open>Inserting the steps\<close>

text \<open>The rows of the plan are new: no step of the run and no task of the generation has one of
  the types to insert.\<close>

definition fresh_for :: "currentPlan \<Rightarrow> int \<Rightarrow> int \<Rightarrow> StepType list \<Rightarrow> db \<Rightarrow> bool" where
  "fresh_for plan gen runID ss d \<longleftrightarrow>
    media_by_id d (plan_mediaID plan) \<noteq> None \<and>
    (\<forall>s \<in> set (steps d). s_run s = runID \<longrightarrow> s_type s \<notin> set ss) \<and>
    (\<forall>q \<in> set (posts d). q_media q = plan_mediaID plan \<longrightarrow> q_generation q = Some gen \<longrightarrow>
       q_type q \<notin> executionTaskType ` set ss)"

text \<open>The prepare planner serves the media rows that exist.\<close>

definition prepare_serves :: "PlanOptions \<Rightarrow> bool" where
  "prepare_serves opts \<longleftrightarrow>
    (\<exists>p. opt_PreparePlanner opts = Some p \<and>
      (\<forall>d m r s g. media_by_id d m \<noteq> None \<longrightarrow> p d m r s g \<noteq> None))"

lemma enqueue_step_some:
  assumes m: "media_by_id d (plan_mediaID plan) \<noteq> None"
    and new: "\<And>q. q \<in> set (posts d) \<Longrightarrow> q_media q = plan_mediaID plan \<Longrightarrow> q_generation q = Some gen \<Longrightarrow>
       q_type q \<noteq> executionTaskType step"
    and prep: "step = StepPrepare \<Longrightarrow> prepare_serves opts"
  shows "\<exists>d'. enqueue_step opts now plan gen runID n step d = Inr d'"
proof -
  consider "step = StepPrepare" | "step = StepScrape" "step \<noteq> StepPrepare"
    | "\<not> queueBacked step" "step \<noteq> StepPrepare" "step \<noteq> StepScrape" | "is_post step"
    by (auto simp: is_post_def)
  then show ?thesis
  proof cases
    case 1
    then obtain p where p: "opt_PreparePlanner opts = Some p"
      "p d (plan_mediaID plan) runID n gen \<noteq> None"
      using prep m unfolding prepare_serves_def by blast
    then show ?thesis by (auto simp: enqueue_step_def 1)
  next
    case 2 then show ?thesis by (simp add: enqueue_step_def)
  next
    case 3 then show ?thesis by (simp add: enqueue_step_def)
  next
    case 4
    let ?q = "new_post now plan gen runID n step (next_queue d)"
    let ?d = "d\<lparr>posts := posts d @ [?q], next_queue := next_queue d + 1\<rparr>"
    have "insert_post step ?q d = Inr ?d"
      using new by (auto simp: insert_post_def list_ex_iff new_post_def Let_def)
    moreover have "media_by_id ?d (plan_mediaID plan) \<noteq> None" using m by (simp add: media_by_id_def)
    from ensure_domain_some [OF this, of "executionTaskType step"]
    obtain d' where "EnsureDomainWaiting (executionTaskType step) (plan_mediaID plan) ?d = Some d'" by blast
    ultimately show ?thesis using 4 by (simp add: enqueue_step_def is_post_def)
  qed
qed

lemma insert_steps_some:
  assumes "fresh_for plan gen runID ss d" and "distinct ss" and "inj_on executionTaskType (set ss)"
    and "StepPrepare \<in> set ss \<Longrightarrow> prepare_serves opts" and frame: "prepare_frame opts"
  shows "\<exists>ids' d'. insert_steps opts now plan gen runID ss ids d = Inr (ids', d')"
  using assms(1-4)
proof (induction ss arbitrary: ids d)
  case (Cons s ss)
  let ?r = "new_step now plan gen runID (next_step d) s"
  let ?d1 = "d\<lparr>steps := steps d @ [?r], next_step := next_step d + 1\<rparr>"
  have f: "media_by_id d (plan_mediaID plan) \<noteq> None"
    "\<And>x. x \<in> set (steps d) \<Longrightarrow> s_run x = runID \<Longrightarrow> s_type x \<notin> set (s # ss)"
    "\<And>q. q \<in> set (posts d) \<Longrightarrow> q_media q = plan_mediaID plan \<Longrightarrow> q_generation q = Some gen \<Longrightarrow>
       q_type q \<notin> executionTaskType ` set (s # ss)"
    using Cons.prems(1) by (auto simp: fresh_for_def)
  have i: "insert_step ?r d = Inr ?d1" using f(2) by (auto simp: insert_step_def list_ex_iff)
  have "\<exists>d2. enqueue_step opts now plan gen runID (next_step d) s ?d1 = Inr d2"
    by (rule enqueue_step_some) (use f(1,3) Cons.prems(4) in \<open>auto simp: media_by_id_def\<close>)
  then obtain d2 where e: "enqueue_step opts now plan gen runID (next_step d) s ?d1 = Inr d2" ..
  note fr = enqueue_step_frame [OF e frame]
  have u: "medias d2 = medias d" using fr(1) unplanned_eq(1) [of d2 ?d1] by simp
  have st: "steps d2 = steps d @ [?r]" using fr(1) by simp
  have po: "\<exists>qs. posts d2 = posts d @ qs \<and> (\<forall>q \<in> set qs. q_type q = executionTaskType s)"
    using fr(2) by (auto simp: post_for_def split: if_splits)
  have ex: "executionTaskType s \<notin> executionTaskType ` set ss"
    using Cons.prems(2,3) by (auto dest: inj_onD)
  have "fresh_for plan gen runID ss d2"
    unfolding fresh_for_def
  proof (intro conjI ballI impI)
    show "media_by_id d2 (plan_mediaID plan) \<noteq> None" using f(1) by (simp add: media_by_id_def u)
    show "s_type x \<notin> set ss" if "x \<in> set (steps d2)" "s_run x = runID" for x
    proof (cases "x \<in> set (steps d)")
      case True
      with f(2) [OF _ that(2)] show ?thesis by auto
    next
      case False
      with that(1) have "s_type x = s" by (auto simp: st)
      with Cons.prems(2) show ?thesis by simp
    qed
    show "q_type q \<notin> executionTaskType ` set ss"
      if "q \<in> set (posts d2)" "q_media q = plan_mediaID plan" "q_generation q = Some gen" for q
    proof (cases "q \<in> set (posts d)")
      case True
      with f(3) [OF _ that(2,3)] show ?thesis by auto
    next
      case False
      with po that(1) have "q_type q = executionTaskType s" by auto
      with ex show ?thesis by simp
    qed
  qed
  then obtain ids' d' where "insert_steps opts now plan gen runID ss (gput s (next_step d) ids) d2 = Inr (ids', d')"
    using Cons.IH [of d2 "gput s (next_step d) ids"] Cons.prems(2-4) by auto
  then show ?case using i e by (simp add: Let_def)
qed simp

section \<open>Inserting the edges\<close>

text \<open>Edges over the steps \<open>S\<close>, all of which have rows of the run.\<close>

definition edges_over :: "StepType set \<Rightarrow> Dependency list \<Rightarrow> bool" where
  "edges_over S es \<longleftrightarrow>
    (\<forall>e \<in> set es. dep_Kind e \<in> {DependencySuccess, DependencyTerminal} \<and> dep_Step e \<in> S \<and>
       (\<exists>t \<in> S. dep_DependsOn e = Some t \<and> t \<noteq> dep_Step e)) \<and>
    distinct (map (\<lambda>e. (dep_Step e, dep_DependsOn e, dep_Kind e)) es) \<and>
    acyclic {(dep_Step e, the (dep_DependsOn e)) | e. e \<in> set es}"

definition step_rows_ok :: "(StepType, int) gmap \<Rightarrow> StepType set \<Rightarrow> int \<Rightarrow> int \<Rightarrow> int \<Rightarrow> db \<Rightarrow> bool" where
  "step_rows_ok ids S mediaID gen runID d \<longleftrightarrow>
    (\<forall>t \<in> S. \<exists>i s. gget ids t = Some i \<and> 0 < i \<and> step_by_id d i = Some s \<and> s_type s = t \<and>
       row_matches s runID mediaID gen)"

lemma insert_dependencies_some:
  assumes "edges_over S (es0 @ es)" and "step_rows_ok ids S mediaID gen runID d"
    and "deps d = D @ map (dep_row_of ids) es0"
    and D: "\<And>x s. x \<in> set D \<Longrightarrow> step_by_id d (d_step x) = Some s \<Longrightarrow> s_run s \<noteq> runID"
  shows "\<exists>d'. insertDependenciesTx es ids mediaID gen runID d = Inr d'"
  using assms
proof (induction es arbitrary: es0 d)
  case (Cons e es)
  define f where "f = (\<lambda>t. the (gget ids t))"
  have f: "gget ids t = Some (f t)" "0 < f t"
    "\<exists>s. step_by_id d (f t) = Some s \<and> s_type s = t \<and> row_matches s runID mediaID gen" if "t \<in> S" for t
  proof -
    obtain i s where "gget ids t = Some i" "0 < i" "step_by_id d i = Some s" "s_type s = t"
      "row_matches s runID mediaID gen"
      using Cons.prems(2) \<open>t \<in> S\<close> unfolding step_rows_ok_def by blast
    then show "gget ids t = Some (f t)" "0 < f t"
      "\<exists>s. step_by_id d (f t) = Some s \<and> s_type s = t \<and> row_matches s runID mediaID gen"
      by (simp_all add: f_def)
  qed
  have inj: "t = u" if eq: "f t = f u" "t \<in> S" "u \<in> S" for t u
  proof -
    obtain s1 s2 where "step_by_id d (f t) = Some s1" "s_type s1 = t" "step_by_id d (f u) = Some s2" "s_type s2 = u"
      using f(3) [OF eq(2)] f(3) [OF eq(3)] by blast
    then show ?thesis unfolding eq(1) by (metis option.inject)
  qed
  have over: "dep_Kind x \<in> {DependencySuccess, DependencyTerminal}" "dep_Step x \<in> S"
      "\<exists>t \<in> S. dep_DependsOn x = Some t \<and> t \<noteq> dep_Step x" if "x \<in> set (es0 @ e # es)" for x
    using Cons.prems(1) that unfolding edges_over_def by blast+
  have dist: "distinct (map (\<lambda>e. (dep_Step e, dep_DependsOn e, dep_Kind e)) (es0 @ e # es))"
    and ac: "acyclic {(dep_Step x, the (dep_DependsOn x)) | x. x \<in> set (es0 @ e # es)}"
    using Cons.prems(1) unfolding edges_over_def by blast+
  obtain t where t: "t \<in> S" "dep_DependsOn e = Some t" "t \<noteq> dep_Step e" using over(3) [of e] by auto
  have e: "dep_Step e \<in> S" "dep_Kind e \<in> {DependencySuccess, DependencyTerminal}" using over [of e] by auto
  let ?p = "\<lambda>x. (f (dep_Step x), f (the (dep_DependsOn x)))"
  have row: "d_step (dep_row_of ids x) = f (dep_Step x)" "d_on (dep_row_of ids x) = f (the (dep_DependsOn x))"
    "d_kind (dep_row_of ids x) = dep_Kind x" for x
    by (simp_all add: dep_row_of_def f_def)
  have edges: "set (run_edges d runID) \<subseteq> ?p ` set es0"
  proof
    fix y assume "y \<in> set (run_edges d runID)"
    then obtain x where x: "x \<in> set (deps d)" "y = (d_step x, d_on x)"
      "case step_by_id d (d_step x) of None \<Rightarrow> False | Some s \<Rightarrow> s_run s = runID"
      by (auto simp: run_edges_def)
    then have "x \<notin> set D" using Cons.prems(4) by (auto split: option.splits)
    with x(1) Cons.prems(3) obtain e' where "e' \<in> set es0" "x = dep_row_of ids e'" by auto
    with x(2) show "y \<in> ?p ` set es0" by (auto simp: row)
  qed
  define h where "h = inv_into S f"
  have h: "h (f u) = u" if "u \<in> S" for u
    unfolding h_def by (rule inv_into_f_f) (use that inj in \<open>auto intro: inj_onI\<close>)
  have "acyclic (set (run_edges d runID @ [?p e]))"
  proof (rule acyclic_pull [OF ac, of _ h])
    fix x y assume "(x, y) \<in> set (run_edges d runID @ [?p e])"
    then obtain e' where e': "e' \<in> set (es0 @ [e])" "(x, y) = ?p e'" using edges by auto
    then have m: "e' \<in> set (es0 @ e # es)" by auto
    obtain u where "u \<in> S" "dep_DependsOn e' = Some u" using over(3) [OF m] by blast
    then have "h x = dep_Step e'" "h y = the (dep_DependsOn e')"
      using e'(2) h over(2) [OF m] by simp_all
    with m show "(h x, h y) \<in> {(dep_Step x, the (dep_DependsOn x)) | x. x \<in> set (es0 @ e # es)}" by blast
  qed
  then have cyc: "\<not> has_cycle (run_edges d runID @ [(f (dep_Step e), f t)])"
    using t(2) by (simp add: has_cycle_iff)
  have ne: "f t \<noteq> f (dep_Step e)" using inj t(1,3) e(1) by blast
  have valid: "validateDependencyTx d (f (dep_Step e)) (Some (f t)) mediaID gen runID = None"
    using f(2,3) [OF e(1)] f(2,3) [OF t(1)] ne cyc by (auto simp: validateDependencyTx_def)
  have new: "\<not> list_ex (\<lambda>x. d_step x = f (dep_Step e) \<and> d_on x = f t \<and> d_kind x = dep_Kind e) (deps d)"
  proof
    assume "list_ex (\<lambda>x. d_step x = f (dep_Step e) \<and> d_on x = f t \<and> d_kind x = dep_Kind e) (deps d)"
    then obtain x where x: "x \<in> set (deps d)" "d_step x = f (dep_Step e)" "d_on x = f t" "d_kind x = dep_Kind e"
      by (auto simp: list_ex_iff)
    have "x \<notin> set D" using Cons.prems(4) [of x] f(3) [OF e(1)] x(2) by (auto simp: row_matches_def)
    with x(1) Cons.prems(3) obtain e' where e': "e' \<in> set es0" "x = dep_row_of ids e'" by auto
    then obtain u where u: "u \<in> S" "dep_DependsOn e' = Some u" "dep_Step e' \<in> S"
      using over(2,3) [of e'] by auto
    have "dep_Step e' = dep_Step e" "u = t"
      using x(2,3) e'(2) u inj e(1) t(1) by (auto simp: row)
    with u(2) t(2) x(4) e'(2) have
      "(dep_Step e', dep_DependsOn e', dep_Kind e') = (dep_Step e, dep_DependsOn e, dep_Kind e)"
      by (simp add: row)
    with dist e'(1) show False by (force simp: image_iff)
  qed
  let ?d = "d\<lparr>deps := deps d @ [\<lparr>d_step = f (dep_Step e), d_on = f t, d_kind = dep_Kind e\<rparr>]\<rparr>"
  have ins: "insert_dependency (f (dep_Step e)) (Some (f t)) (dep_Kind e) d = Inr ?d"
    using new e(2) by (auto simp: insert_dependency_def)
  have by_id: "step_by_id (d\<lparr>deps := X\<rparr>) i = step_by_id d i" for X i by (simp add: step_by_id_def)
  have "dep_row_of ids e = \<lparr>d_step = f (dep_Step e), d_on = f t, d_kind = dep_Kind e\<rparr>"
    using t(2) by (simp add: dep_row_of_def f_def)
  then have "deps ?d = D @ map (dep_row_of ids) (es0 @ [e])" using Cons.prems(3) by simp
  moreover have "step_rows_ok ids S mediaID gen runID ?d"
    using Cons.prems(2) by (simp add: step_rows_ok_def by_id)
  ultimately obtain d' where "insertDependenciesTx es ids mediaID gen runID ?d = Inr d'"
    using Cons.IH [of "es0 @ [e]" ?d] Cons.prems(1,4) by (auto simp: by_id)
  then show ?case
    using f(1,2) [OF e(1)] f(1,2) [OF t(1)] t(2) valid ins by (auto simp: Let_def)
qed simp

section \<open>A built plan is always stored\<close>

text \<open>A plan with a well-formed graph of one generation over its steps.\<close>

definition plan_ready :: "int \<Rightarrow> currentPlan \<Rightarrow> bool" where
  "plan_ready gen plan \<longleftrightarrow>
    distinct (plan_steps plan) \<and> plan_graph_ok allowedPhase1Edges (plan_graph plan) \<and>
    map node_key (Nodes (plan_graph plan)) = map (\<lambda>s. (s, gen)) (plan_steps plan) \<and>
    plan_dependencies plan = Edges (plan_graph plan)"

lemma build_ready:
  assumes "buildCurrentPolicyTx opts d mediaID scanTaskID reason preserve metadata = Inr (Some plan)"
  shows "plan_ready (generation (plan_policy plan) + 1) plan"
    and "\<exists>m. media_by_id d (plan_mediaID plan) = Some m \<and> m_generation m = generation (plan_policy plan)"
proof -
  obtain policy t where p: "read_policy d mediaID = Some policy"
    and a: "assemble_plan d opts mediaID scanTaskID reason preserve metadata policy
      (select_options opts policy) t = Inr plan"
    using assms by (rule build_Some)
  note A = assemble_plan_Inr [OF a]
  have ok: "plan_graph_ok allowedPhase1Edges (plan_graph plan)"
    using A(6) validate_None_iff by (simp add: ValidatePlanGraph_def)
  have n: "map node_key (Nodes (plan_graph plan)) = map (\<lambda>s. (s, generation policy + 1)) (plan_steps plan)"
    by (simp add: A(3,4) plan_graph_of_def del: map_append)
  then have "distinct (plan_steps plan)"
    using ok by (metis distinct_map nodes_ok_def plan_graph_ok_def)
  with ok n A(5,8) show "plan_ready (generation (plan_policy plan) + 1) plan" by (simp add: plan_ready_def)
  show "\<exists>m. media_by_id d (plan_mediaID plan) = Some m \<and> m_generation m = generation (plan_policy plan)"
    using p A(8,9) by (auto simp: read_policy_def split: option.splits)
qed

lemma execution_type_inj: "inj_on executionTaskType (set knownPhase1Nodes)"
  by (rule inj_onI) (simp add: knownPhase1Nodes_def executionTaskType_def step_names split: if_split_asm; elim disjE; simp)

lemma ready_steps:
  assumes "plan_ready gen plan"
  shows "set (plan_steps plan) \<subseteq> set knownPhase1Nodes"
    and "edges_over (set (plan_steps plan)) (plan_dependencies plan)"
proof -
  let ?g = "plan_graph plan"
  have g: "nodes_ok knownPhase1Nodes ?g" "distinct (map edge_key (Edges ?g))" "acyclic (graph_rel ?g)"
    "\<And>e. e \<in> set (Edges ?g) \<Longrightarrow> edge_shape_ok (map node_key (Nodes ?g)) e"
    and n: "map node_key (Nodes ?g) = map (\<lambda>s. (s, gen)) (plan_steps plan)"
    and deps: "plan_dependencies plan = Edges ?g"
    using assms by (auto simp: plan_ready_def plan_graph_ok_def)
  have "fst ` set (map node_key (Nodes ?g)) = set (plan_steps plan)" unfolding n by force
  moreover have "fst ` set (map node_key (Nodes ?g)) \<subseteq> set knownPhase1Nodes"
    using g(1) by (auto simp: nodes_ok_def node_key_def)
  ultimately show "set (plan_steps plan) \<subseteq> set knownPhase1Nodes" by simp
  have shape: "dep_Kind e \<in> {DependencySuccess, DependencyTerminal} \<and> dep_Step e \<in> set (plan_steps plan) \<and>
      (\<exists>t \<in> set (plan_steps plan). dep_DependsOn e = Some t \<and> t \<noteq> dep_Step e) \<and>
      dep_Generation e = gen \<and> dep_DependsOnGeneration e = gen"
    if "e \<in> set (Edges ?g)" for e
    using g(4) [OF that] unfolding edge_shape_ok_def n by auto
  have "inj_on (\<lambda>e. (dep_Step e, dep_DependsOn e, dep_Kind e)) (set (Edges ?g))"
  proof (rule inj_onI)
    fix e e' assume m: "e \<in> set (Edges ?g)" "e' \<in> set (Edges ?g)"
      and eq: "(dep_Step e, dep_DependsOn e, dep_Kind e) = (dep_Step e', dep_DependsOn e', dep_Kind e')"
    have "edge_key e = edge_key e'"
      using eq shape [OF m(1)] shape [OF m(2)] by (simp add: edge_key_def)
    then show "e = e'" using g(2) m by (metis distinct_map inj_on_def)
  qed
  moreover have "distinct (Edges ?g)" using g(2) by (metis distinct_map)
  moreover have "acyclic {(dep_Step e, the (dep_DependsOn e)) | e. e \<in> set (Edges ?g)}"
  proof (rule acyclic_pull [OF g(3), of _ "\<lambda>s. (s, gen)"])
    fix x y assume "(x, y) \<in> {(dep_Step e, the (dep_DependsOn e)) | e. e \<in> set (Edges ?g)}"
    then obtain e where e: "e \<in> set (Edges ?g)" "x = dep_Step e" "y = the (dep_DependsOn e)" by blast
    then have "edge_key e = ((x, gen), (y, gen), dep_Kind e)" using shape by (simp add: edge_key_def)
    with e(1) show "((x, gen), (y, gen)) \<in> graph_rel ?g" by (force simp: graph_rel_def image_iff)
  qed
  ultimately show "edges_over (set (plan_steps plan)) (plan_dependencies plan)"
    using shape by (simp add: edges_over_def deps distinct_map)
qed

text \<open>No run and no task of a media row is ahead of the generation of the row.\<close>

definition generations_current :: "db \<Rightarrow> bool" where
  "generations_current d \<longleftrightarrow>
    (\<forall>m \<in> set (medias d).
       (\<forall>r \<in> set (runs d). r_media r = m_id m \<longrightarrow> r_generation r \<le> m_generation m) \<and>
       (\<forall>q \<in> set (posts d). q_media q = m_id m \<longrightarrow>
          (case q_generation q of None \<Rightarrow> True | Some g \<Rightarrow> g \<le> m_generation m)))"

lemma persist_succeeds:
  assumes ready: "plan_ready (expected + 1) plan" and ok: "ingest_ok d" and cur: "generations_current d"
    and m: "media_by_id d (plan_mediaID plan) = Some m" "m_generation m = expected"
    and frame: "prepare_frame opts" and prep: "StepPrepare \<in> set (plan_steps plan) \<Longrightarrow> prepare_serves opts"
  shows "\<exists>run d'. persistPlanTx opts now plan expected d = Inr (run, d')"
proof -
  let ?gen = "expected + 1" and ?run = "next_run d" and ?ss = "plan_steps plan"
  define d1 where "d1 = d\<lparr>medias := sql_update (\<lambda>m. m_id m = plan_mediaID plan \<and> m_generation m = expected)
       (advance_generation plan expected) (medias d),
      runs := runs d @ [new_run plan ?gen ?run], next_run := next_run d + 1\<rparr>"
  have mm: "m \<in> set (medias d)" "m_id m = plan_mediaID plan"
    using m(1) by (auto simp: media_by_id_def dest: find_set)
  have aff: "sql_affected (\<lambda>m. m_id m = plan_mediaID plan \<and> m_generation m = expected) (medias d) \<noteq> 0"
    using mm m(2) by (auto simp: sql_affected_0)
  have norun: "\<not> list_ex (\<lambda>r. r_media r = plan_mediaID plan \<and> r_generation r = ?gen) (runs d)"
    using cur mm m(2) by (fastforce simp: generations_current_def list_ex_iff)
  have m1: "media_by_id d1 (plan_mediaID plan) \<noteq> None"
    using m(1) unfolding media_by_id_def d1_def
    by simp (subst find_update_other, simp_all add: advance_generation_def)
  have runid: "s_run s < ?run" if "s \<in> set (steps d)" for s
    using ok that unfolding ingest_ok_def by metis
  have freshp: "q_generation q \<noteq> Some ?gen" if "q \<in> set (posts d)" "q_media q = plan_mediaID plan" for q
    using cur mm m(2) that by (force simp: generations_current_def split: option.splits)
  have fresh: "fresh_for plan ?gen ?run ?ss d1"
    using m1 runid freshp by (force simp: fresh_for_def d1_def)
  have dist: "distinct ?ss" using ready by (simp add: plan_ready_def)
  have inj: "inj_on executionTaskType (set ?ss)"
    using execution_type_inj ready_steps(1) [OF ready] by (rule inj_on_subset)
  obtain ids d2 where i: "insert_steps opts now plan ?gen ?run ?ss [] d1 = Inr (ids, d2)"
    using insert_steps_some [OF fresh dist inj prep frame] by blast
  note I = insert_steps_inserted [OF i frame, unfolded inserted_def Let_def]
  let ?rows = "new_steps now plan ?gen ?run (next_step d) ?ss"
  have s2: "steps d2 = steps d @ ?rows" using I by (simp add: d1_def)
  have dd: "deps d2 = deps d" using I unplanned_eq(3) [of d2 d1] by (simp add: d1_def)
  have bound: "s_id s < next_step d" "0 < next_step d" if "s \<in> set (steps d)" for s
    using ok that by (auto simp: ingest_ok_def)
  have D: "s_run s \<noteq> ?run" if x: "x \<in> set (deps d)" "step_by_id d2 (d_step x) = Some s" for x s
  proof -
    have "\<exists>s \<in> set (steps d). s_id s = d_step x" using ok x(1) by (simp add: ingest_ok_def)
    then have "find (\<lambda>s. s_id s = d_step x) (steps d) = Some s"
      using x(2) find_append_left [of "steps d"] by (simp add: step_by_id_def s2)
    then have "s \<in> set (steps d)" by (auto dest: find_set)
    then show ?thesis using runid by fastforce
  qed
  have dids: "distinct (map s_id (steps d @ ?rows))"
  proof -
    have "distinct (map s_id ?rows)" unfolding new_steps_ids by (simp add: distinct_map inj_on_def)
    moreover have "set (map s_id (steps d)) \<inter> set (map s_id ?rows) = {}"
      using new_steps_id(1) bound(1) by fastforce
    ultimately show ?thesis using ok by (simp add: ingest_ok_def)
  qed
  have rows: "step_rows_ok ids (set ?ss) (plan_mediaID plan) ?gen ?run d2"
    unfolding step_rows_ok_def
  proof
    fix t assume "t \<in> set ?ss"
    then have "t \<in> set (map s_type ?rows)" by simp
    then obtain r where r: "r \<in> set ?rows" "s_type r = t" unfolding set_map by blast
    have "\<forall>r \<in> set ?rows. gget ids (s_type r) = Some (s_id r)" using I dist by (simp add: d1_def)
    with r have "gget ids t = Some (s_id r)" by blast
    moreover have "0 < s_id r"
      using new_steps_id(1) [OF r(1)] ok by (simp add: ingest_ok_def)
    moreover have "step_by_id d2 (s_id r) = Some r"
      using find_key_distinct [OF dids, of r] r(1) by (simp add: step_by_id_def s2)
    ultimately show "\<exists>i s. gget ids t = Some i \<and> 0 < i \<and> step_by_id d2 i = Some s \<and> s_type s = t \<and>
        row_matches s ?run (plan_mediaID plan) ?gen"
      using r(2) new_steps_mem [OF r(1)] by (simp add: row_matches_def)
  qed
  obtain d' where "insertDependenciesTx (plan_dependencies plan) ids (plan_mediaID plan) ?gen ?run d2 = Inr d'"
    using insert_dependencies_some [of "set ?ss" "[]" "plan_dependencies plan", OF _ rows, of "deps d"]
      ready_steps(2) [OF ready] D dd by auto
  then show ?thesis
    using aff norun i by (simp add: persistPlanTx_def Let_def d1_def)
qed

lemma built_prepare:
  assumes "buildCurrentPolicyTx opts d mediaID scanTaskID reason preserve metadata = Inr (Some plan)"
    and "StepPrepare \<in> set (plan_steps plan)"
  shows "opt_PreparePlanner opts \<noteq> None"
proof -
  obtain policy t where t: "lookupTemplate (fileType policy) = Some t"
    and a: "assemble_plan d opts mediaID scanTaskID reason preserve metadata policy
      (select_options opts policy) t = Inr plan"
    using assms(1) by (rule build_Some)
  note A = assemble_plan_Inr [OF a]
  have "StepPrepare \<notin> set (enabledSteps t e)" for e
    using enabledSteps_Cons [OF t, of e] by (auto simp: step_names)
  moreover have "StepPrepare \<notin> set (required_steps t e)" for e
    using template_shape(1) [OF t] by (auto simp: required_steps_def step_names)
  ultimately have "prepare_enabled opts policy"
    using assms(2) by (auto simp: A(1-3) optional_steps_eq [OF t] split: if_splits)
  then show ?thesis by (simp add: prepare_enabled_def)
qed


lemma sample_current: "generations_current sample_db"
  by (simp add: generations_current_def sample_db_def)

lemma sample_frame: "prepare_frame sample_options" "opt_PreparePlanner sample_options = None"
  by (simp_all add: prepare_frame_def sample_options_def)


lemma persisted_ids:
  assumes p: "persistPlanTx opts now plan expected d = Inr (run, d')" and frame: "prepare_frame opts"
    and dist: "distinct (plan_steps plan)" and ok: "ingest_ok d"
  shows "distinct (step_ids d')"
proof -
  let ?rows = "new_steps now plan (expected + 1) (next_run d) (next_step d) (plan_steps plan)"
  have "distinct (map s_id ?rows)" unfolding new_steps_ids by (simp add: distinct_map inj_on_def)
  moreover have "s_id s < next_step d" if "s \<in> set (steps d)" for s
    using ok that by (simp add: ingest_ok_def)
  then have "set (map s_id (steps d)) \<inter> set (map s_id ?rows) = {}"
    using new_steps_id(1) by fastforce
  moreover have "distinct (map s_id (steps d))" using ok by (simp add: ingest_ok_def)
  ultimately show ?thesis unfolding step_ids_def persist_rows(1) [OF p frame dist] by simp
qed



section \<open>Planning keeps the tables consistent\<close>

lemma persist_counters:
  assumes "persistPlanTx opts now plan expected d = Inr (run, d')" and "prepare_frame opts"
  shows "next_step d' = next_step d + int (length (plan_steps plan))" "next_run d' = next_run d + 1"
proof -
  obtain d1 ids d2 where d1: "d1 = d\<lparr>medias := sql_update (\<lambda>m. m_id m = plan_mediaID plan \<and> m_generation m = expected)
       (advance_generation plan expected) (medias d),
      runs := runs d @ [new_run plan (expected + 1) (next_run d)], next_run := next_run d + 1\<rparr>"
    and i: "insert_steps opts now plan (expected + 1) (next_run d) (plan_steps plan) [] d1 = Inr (ids, d2)"
    and e: "insertDependenciesTx (plan_dependencies plan) ids (plan_mediaID plan) (expected + 1) (next_run d) d2 = Inr d'"
    by (rule persist_cases [OF assms(1)]) blast
  note I = insert_steps_inserted [OF i assms(2), unfolded inserted_def Let_def]
  have d': "d' = d2\<lparr>deps := deps d2 @ map (dep_row_of ids) (plan_dependencies plan)\<rparr>"
    using insert_dependencies_result [OF e] by blast
  show "next_step d' = next_step d + int (length (plan_steps plan))" using I by (simp add: d' d1)
  show "next_run d' = next_run d + 1" using I unplanned_eq(4) [of d2 d1] by (simp add: d' d1)
qed

lemma stored_edge_ends:
  assumes "list_all2 (stores_edge rows) es xs" and "x \<in> set xs"
  shows "\<exists>s \<in> set rows. s_id s = d_step x" and "\<exists>s \<in> set rows. s_id s = d_on x"
proof -
  obtain e where "stores_edge rows e x"
    using assms by (metis in_set_conv_nth list_all2_conv_all_nth)
  then show "\<exists>s \<in> set rows. s_id s = d_step x" "\<exists>s \<in> set rows. s_id s = d_on x"
    by (auto simp: stores_edge_def)
qed

lemma new_steps_status_ok:
  assumes "s \<in> set (new_steps now plan gen runID n ss)"
  shows "step_status_ok s" "s_status s = planned_status plan (s_type s)"
proof -
  show "s_status s = planned_status plan (s_type s)"
    using new_steps_row [OF assms] new_step_status by metis
  then show "step_status_ok s"
    by (simp add: step_status_ok_def planned_status_def active_statuses_def terminal_statuses_def)
qed

lemma persist_ingest_ok:
  assumes p: "persistPlanTx opts now plan expected d = Inr (run, d')" and frame: "prepare_frame opts"
    and dist: "distinct (plan_steps plan)" and ok: "ingest_ok d" and pos: "0 \<le> expected"
  shows "ingest_ok d'"
proof -
  let ?rows = "new_steps now plan (expected + 1) (next_run d) (next_step d) (plan_steps plan)"
  let ?r = "new_run plan (expected + 1) (next_run d)"
  note R = persist_rows [OF p frame dist]
  note C = persist_counters [OF p frame]
  obtain xs where xs: "deps d' = deps d @ xs" "list_all2 (stores_edge ?rows) (plan_dependencies plan) xs"
    using R(4) by blast
  have new: "\<not> list_ex (\<lambda>r. r_media r = plan_mediaID plan \<and> r_generation r = expected + 1) (runs d)"
    by (rule persist_cases [OF p]) blast
  have O: "distinct (map m_id (medias d))" "distinct (map r_id (runs d))" "distinct (map s_id (steps d))"
    "distinct (map (\<lambda>r. (r_media r, r_generation r)) (runs d))"
    "distinct (map (\<lambda>s. (s_run s, s_type s)) (steps d))"
    "\<And>s. s \<in> set (steps d) \<Longrightarrow> step_status_ok s \<and> 0 < s_id s \<and> s_id s < next_step d \<and>
       (\<exists>r \<in> set (runs d). r_id r = s_run s \<and> r_media r = s_media s \<and> r_generation r = s_generation s)"
    "\<And>r. r \<in> set (runs d) \<Longrightarrow> 0 < r_id r \<and> r_id r < next_run d \<and> 0 < r_generation r"
    "\<And>e. e \<in> set (deps d) \<Longrightarrow> \<exists>s \<in> set (steps d). s_id s = d_step e"
    "\<And>e. e \<in> set (deps d) \<Longrightarrow> \<exists>s \<in> set (steps d). s_id s = d_on e"
    "0 < next_run d" "0 < next_step d"
    using ok unfolding ingest_ok_def by auto
  have old_run: "s_run s < next_run d" if "s \<in> set (steps d)" for s
    using O(6,7) that by metis
  have "map m_id (medias d') = map m_id (medias d)"
    by (simp add: R(3) sql_update_def advance_generation_def)
  then have 1: "distinct (map m_id (medias d'))" using O(1) by simp
  have 2: "distinct (map r_id (runs d'))"
    using O(2) O(7) [THEN conjunct2, THEN conjunct1] by (fastforce simp: R(2) new_run_def)
  have 3: "distinct (map s_id (steps d'))"
    using persisted_ids [OF p frame dist ok] by (simp add: step_ids_def)
  have 4: "distinct (map (\<lambda>r. (r_media r, r_generation r)) (runs d'))"
    using O(4) new by (auto simp: R(2) new_run_def list_ex_iff)
  have 5: "distinct (map (\<lambda>s. (s_run s, s_type s)) (steps d'))"
  proof -
    have "distinct (map s_type ?rows)" using dist by simp
    then have "distinct (map (\<lambda>s. (s_run s, s_type s)) ?rows)"
      unfolding distinct_map by (auto simp: inj_on_def)
    moreover have "set (map (\<lambda>s. (s_run s, s_type s)) (steps d)) \<inter>
        set (map (\<lambda>s. (s_run s, s_type s)) ?rows) = {}"
      using new_steps_mem(1) old_run by fastforce
    ultimately show ?thesis using O(5) by (simp add: R(1))
  qed
  have 6: "step_status_ok s \<and> 0 < s_id s \<and> s_id s < next_step d' \<and>
       (\<exists>r \<in> set (runs d'). r_id r = s_run s \<and> r_media r = s_media s \<and> r_generation r = s_generation s)"
    if s: "s \<in> set (steps d')" for s
  proof (cases "s \<in> set (steps d)")
    case True
    then show ?thesis using O(6) [OF True] by (auto simp: C(1) R(2))
  next
    case False
    then have r: "s \<in> set ?rows" using s by (simp add: R(1))
    have "0 < s_id s" "s_id s < next_step d'"
      using new_steps_id [OF r] O(11) by (simp_all add: C(1))
    then show ?thesis
      using new_steps_status_ok(1) [OF r] new_steps_mem [OF r] by (simp add: R(2) new_run_def)
  qed
  have 7: "0 < r_id r \<and> r_id r < next_run d' \<and> 0 < r_generation r" if "r \<in> set (runs d')" for r
  proof (cases "r \<in> set (runs d)")
    case True
    then show ?thesis using O(7) [OF True] by (simp add: C(2))
  next
    case False
    then have "r = ?r" using that by (simp add: R(2))
    then show ?thesis using O(10) pos by (simp add: C(2) new_run_def)
  qed
  have 8: "(\<exists>s \<in> set (steps d'). s_id s = d_step e) \<and> (\<exists>s \<in> set (steps d'). s_id s = d_on e)"
    if e: "e \<in> set (deps d')" for e
  proof (cases "e \<in> set (deps d)")
    case True
    then show ?thesis using O(8,9) unfolding R(1) set_append by blast
  next
    case False
    then have "e \<in> set xs" using e xs(1) by simp
    then show ?thesis using stored_edge_ends [OF xs(2)] unfolding R(1) set_append by blast
  qed
  show ?thesis
    unfolding ingest_ok_def
    using 1 2 3 4 5 6 7 8 O(10,11) by (simp add: C)
qed

lemma persist_current:
  assumes p: "persistPlanTx opts now plan expected d = Inr (run, d')" and frame: "prepare_frame opts"
    and dist: "distinct (plan_steps plan)" and ids: "distinct (map m_id (medias d))"
    and cur: "generations_current d"
  shows "generations_current d'"
proof -
  let ?rows = "new_steps now plan (expected + 1) (next_run d) (next_step d) (plan_steps plan)"
  let ?P = "\<lambda>m :: media_row. m_id m = plan_mediaID plan \<and> m_generation m = expected"
  note R = persist_rows [OF p frame dist]
  obtain qs where qs: "posts d' = posts d @ qs"
    "list_all2 (\<lambda>r q. post_for plan (expected + 1) (next_run d) (s_id r) (s_type r) q)
      (filter (\<lambda>r. is_post (s_type r)) ?rows) qs"
    using R(5) by blast
  have newq: "q_media q = plan_mediaID plan \<and> q_generation q = Some (expected + 1)" if q: "q \<in> set qs" for q
  proof -
    obtain k where k: "k < length qs" "q = qs ! k" using q by (auto simp: in_set_conv_nth)
    from list_all2_nthD2 [OF qs(2) k(1)] k(2) show ?thesis by (simp add: post_for_def linked_def)
  qed
  have "sql_affected ?P (medias d) \<noteq> 0" by (rule persist_cases [OF p]) blast
  then obtain m0 where m0: "m0 \<in> set (medias d)" "?P m0" by (auto simp: sql_affected_0)
  have only: "?P m" if "m \<in> set (medias d)" "m_id m = plan_mediaID plan" for m
    using that m0 ids by (metis eq_key_imp_eq_value distinct_map inj_on_def)
  have one: "(\<forall>r \<in> set (runs d'). r_media r = m_id m' \<longrightarrow> r_generation r \<le> m_generation m') \<and>
       (\<forall>q \<in> set (posts d'). q_media q = m_id m' \<longrightarrow>
          (case q_generation q of None \<Rightarrow> True | Some g \<Rightarrow> g \<le> m_generation m'))"
    if m': "m' \<in> set (medias d')" for m'
  proof -
    obtain m where m: "m \<in> set (medias d)" "m' = (if ?P m then advance_generation plan expected m else m)"
      using m' unfolding R(3) sql_update_def set_map by blast
    have same: "m_id m' = m_id m" and le: "m_generation m \<le> m_generation m'"
      and new: "m_id m = plan_mediaID plan \<Longrightarrow> expected + 1 \<le> m_generation m'"
      using only [OF m(1)] by (auto simp: m(2) advance_generation_def)
    have c: "\<And>r. r \<in> set (runs d) \<Longrightarrow> r_media r = m_id m \<Longrightarrow> r_generation r \<le> m_generation m"
      "\<And>q g. q \<in> set (posts d) \<Longrightarrow> q_media q = m_id m \<Longrightarrow> q_generation q = Some g \<Longrightarrow> g \<le> m_generation m"
      using cur m(1) by (fastforce simp: generations_current_def)+
    have "r_generation r \<le> m_generation m'" if "r \<in> set (runs d')" "r_media r = m_id m'" for r
      using that c(1) [of r] le new by (force simp: R(2) same new_run_def)
    moreover have "g \<le> m_generation m'" if "q \<in> set (posts d')" "q_media q = m_id m'" "q_generation q = Some g" for q g
      using that c(2) [of q g] le new newq by (force simp: qs(1) same)
    ultimately show ?thesis by (auto split: option.splits)
  qed
  then show ?thesis unfolding generations_current_def by blast
qed

lemma persist_safe:
  assumes p: "persistPlanTx opts now plan expected d = Inr (run, d')" and frame: "prepare_frame opts"
    and dist: "distinct (plan_steps plan)" and ok: "ingest_ok d" and safe: "safe d"
  shows "safe d'" and "distinct (step_ids d')"
proof -
  let ?rows = "new_steps now plan (expected + 1) (next_run d) (next_step d) (plan_steps plan)"
  note R = persist_rows [OF p frame dist]
  show "distinct (step_ids d')" by (rule persisted_ids [OF p frame dist ok])
  obtain xs where xs: "deps d' = deps d @ xs" "list_all2 (stores_edge ?rows) (plan_dependencies plan) xs"
    using R(4) by blast
  have below: "s_id s < next_step d" if "s \<in> set (steps d)" for s using ok that by (simp add: ingest_ok_def)
  have "s_type s = StepMediaVisible \<or> deps_done d' (s_id s)"
    if s: "s \<in> set (steps d')" "s_status s = S_running \<or> s_status s = S_done" for s
  proof (cases "s \<in> set (steps d)")
    case True
    have "e \<in> set (deps d)" if e: "e \<in> set (deps d')" "d_step e = s_id s" for e
    proof (rule ccontr)
      assume "e \<notin> set (deps d)"
      then have "e \<in> set xs" using e(1) xs(1) by simp
      from stored_edge_ends(1) [OF xs(2) this] obtain r where "r \<in> set ?rows" "s_id r = s_id s"
        unfolding e(2) by blast
      then show False using new_steps_id(1) below [OF True] by fastforce
    qed
    moreover have "s_type s = StepMediaVisible \<or> deps_done d (s_id s)"
      using safe True s(2) unfolding safe_def by blast
    ultimately show ?thesis unfolding deps_done_def R(1) set_append by blast
  next
    case False
    then have "s \<in> set ?rows" using s(1) by (simp add: R(1))
    from new_steps_status_ok(2) [OF this] s(2) show ?thesis
      by (auto simp: planned_status_def split: if_splits)
  qed
  then show "safe d'" unfolding safe_def by blast
qed

section \<open>Histories with planning\<close>

lemma new_media_persists:
  assumes "PlanNewMediaTx opts now media d = Inr (r, d')"
  obtains "d' = d"
  | plan scan reason preserve md run where "buildCurrentPolicyTx opts d (nm_MediaID media) scan reason preserve md = Inr (Some plan)"
    "persistPlanTx opts now (plan\<lparr>plan_ingestItemID := nm_IngestItemID media\<rparr>) (generation (plan_policy plan)) d = Inr (run, d')"
proof -
  let ?reason = "if nm_ScanTaskID media \<le> 0 \<and> 0 < nm_IngestItemID media then PlanReasonUpload else PlanReasonScan"
  have ids: "\<not> (nm_ScanTaskID media \<le> 0 \<and> nm_IngestItemID media \<le> 0)"
    using assms by (auto simp: PlanNewMediaTx_def)
  obtain b where b: "buildCurrentPolicyTx opts d (nm_MediaID media) (nm_ScanTaskID media) ?reason False
      (nm_Metadata media) = Inr b"
    and rest: "(case b of None \<Rightarrow> Inr (None, d)
          | Some plan \<Rightarrow>
              if TrimSpace (nm_FileType media) = [] then Inl EmptyFileType
              else if TrimSpace (nm_FileType media) \<noteq> fileType (plan_policy plan)
              then Inl (FileTypeMismatch (TrimSpace (nm_FileType media)) (fileType (plan_policy plan)))
              else
                and_then
                  (persistPlanTx opts now (plan\<lparr>plan_ingestItemID := nm_IngestItemID media\<rparr>)
                    (generation (plan_policy plan)) d)
                  (\<lambda>(run, d). Inr (Some run, d))) = Inr (r, d')"
    using assms [unfolded PlanNewMediaTx_def Let_def if_not_P [OF ids] and_then_Inr_iff] by blast
  show thesis
  proof (cases b)
    case None
    with rest that(1) show ?thesis by simp
  next
    case (Some plan)
    from rest obtain run where "persistPlanTx opts now (plan\<lparr>plan_ingestItemID := nm_IngestItemID media\<rparr>)
        (generation (plan_policy plan)) d = Inr (run, d')"
      by (auto simp: Some and_then_Inr_iff split: if_split_asm)
    with b Some that(2) show ?thesis by blast
  qed
qed

lemma replacement_persists:
  assumes "planReplacement opts now mediaID ro d = Inr (r, d')"
  obtains "d' = d"
  | plan run d1 where "buildCurrentPolicyTx opts d mediaID 0 (ro_PlanReason ro) (ro_PreserveVisibility ro)
        \<lparr>Attempted = False, Fields = [], Errors = []\<rparr> = Inr (Some plan)"
    "generation (plan_policy plan) = ro_OldGeneration ro"
    "persistPlanTx opts now plan (ro_OldGeneration ro) d = Inr (run, d1)"
    "supersedeGeneration now mediaID (ro_OldGeneration ro) (run_Generation run) d1 = Inr d'"
proof -
  have reason: "\<not> ro_PlanReason ro \<notin> {PlanReasonRepair, PlanReasonManualRetry, PlanReasonSourceReplaced}"
  proof
    assume "ro_PlanReason ro \<notin> {PlanReasonRepair, PlanReasonManualRetry, PlanReasonSourceReplaced}"
    from assms [unfolded planReplacement_def if_P [OF this]] show False by simp
  qed
  obtain b where b: "buildCurrentPolicyTx opts d mediaID 0 (ro_PlanReason ro) (ro_PreserveVisibility ro)
        \<lparr>Attempted = False, Fields = [], Errors = []\<rparr> = Inr b"
    and rest: "(case b of None \<Rightarrow> Inr (None, d)
          | Some plan \<Rightarrow>
              if generation (plan_policy plan) \<noteq> ro_OldGeneration ro then Inl GenerationConflict
              else
                and_then (persistPlanTx opts now plan (ro_OldGeneration ro) d)
                  (\<lambda>(run, d). case supersedeGeneration now mediaID (ro_OldGeneration ro)
                                     (run_Generation run) d of
                     Inl e \<Rightarrow> Inl (supersede_error e)
                   | Inr d' \<Rightarrow> Inr (Some run, d'))) = Inr (r, d')"
    using assms [unfolded planReplacement_def if_not_P [OF reason] and_then_Inr_iff] by blast
  show thesis
  proof (cases b)
    case None
    with rest that(1) show ?thesis by simp
  next
    case (Some plan)
    have g: "generation (plan_policy plan) = ro_OldGeneration ro"
      using rest by (simp add: Some split: if_split_asm)
    have "and_then (persistPlanTx opts now plan (ro_OldGeneration ro) d)
        (\<lambda>(run, d). case supersedeGeneration now mediaID (ro_OldGeneration ro) (run_Generation run) d of
           Inl e \<Rightarrow> Inl (supersede_error e) | Inr d' \<Rightarrow> Inr (Some run, d')) = Inr (r, d')"
      using rest g by (simp add: Some)
    then obtain run d1 where p: "persistPlanTx opts now plan (ro_OldGeneration ro) d = Inr (run, d1)"
      and s: "(case supersedeGeneration now mediaID (ro_OldGeneration ro) (run_Generation run) d1 of
          Inl e \<Rightarrow> Inl (supersede_error e) | Inr d' \<Rightarrow> Inr (Some run, d')) = Inr (r, d')"
      unfolding and_then_Inr_iff by auto
    from s have "supersedeGeneration now mediaID (ro_OldGeneration ro) (run_Generation run) d1 = Inr d'"
      by (simp split: sum.split_asm)
    with b p Some g that(2) show ?thesis by blast
  qed
qed

text \<open>One committed transaction: planning a new media, replacing the plan of an old one, or a
  transition of a run. The constraints of the schema hold whenever a plan is inserted.\<close>

inductive ingest_step :: "db \<Rightarrow> db \<Rightarrow> bool" where
  planned: "PlanNewMediaTx opts now media d = Inr (r, d') \<Longrightarrow> ingest_ok d \<Longrightarrow> prepare_frame opts \<Longrightarrow>
    ingest_step d d'"
| replaced: "planReplacement opts now mediaID ro d = Inr (r, d') \<Longrightarrow> ingest_ok d \<Longrightarrow> prepare_frame opts \<Longrightarrow>
    ingest_step d d'"
| ran: "run_step d d' \<Longrightarrow> ingest_step d d'"

lemma build_distinct:
  "buildCurrentPolicyTx opts d mediaID scanTaskID reason preserve metadata = Inr (Some plan) \<Longrightarrow>
   distinct (plan_steps plan)"
  using build_ready(1) by (auto simp: plan_ready_def)

lemma ingest_step_safe:
  assumes "ingest_step d d'" and "distinct (step_ids d)" and "safe d"
  shows "distinct (step_ids d') \<and> safe d'"
  using assms
proof (induction rule: ingest_step.induct)
  case (planned opts now media d r d')
  from planned(1) show ?case
  proof (rule new_media_persists)
    fix plan scan reason preserve md run
    assume b: "buildCurrentPolicyTx opts d (nm_MediaID media) scan reason preserve md = Inr (Some plan)"
      and p: "persistPlanTx opts now (plan\<lparr>plan_ingestItemID := nm_IngestItemID media\<rparr>)
        (generation (plan_policy plan)) d = Inr (run, d')"
    have "distinct (plan_steps (plan\<lparr>plan_ingestItemID := nm_IngestItemID media\<rparr>))"
      using build_distinct [OF b] by simp
    from persist_safe [OF p planned(3) this planned(2,5)] show ?thesis by simp
  qed (use planned in simp)
next
  case (replaced opts now mediaID ro d r d')
  from replaced(1) show ?case
  proof (rule replacement_persists)
    fix plan run d1
    assume b: "buildCurrentPolicyTx opts d mediaID 0 (ro_PlanReason ro) (ro_PreserveVisibility ro)
        \<lparr>Attempted = False, Fields = [], Errors = []\<rparr> = Inr (Some plan)"
      and p: "persistPlanTx opts now plan (ro_OldGeneration ro) d = Inr (run, d1)"
      and s: "supersedeGeneration now mediaID (ro_OldGeneration ro) (run_Generation run) d1 = Inr d'"
    note P = persist_safe [OF p replaced(3) build_distinct [OF b] replaced(2,5)]
    from P supersede.keeps_safe [of "(now, mediaID, ro_OldGeneration ro, run_Generation run)" d1 d']
      supersede.keeps_ids [of "(now, mediaID, ro_OldGeneration ro, run_Generation run)" d1 d'] s
    show ?thesis by simp
  qed (use replaced in simp)
next
  case (ran d d')
  from run_step_preserves [OF ran(1)] ran(2,3) same_step_ids show ?case by (auto simp: preserves_def)
qed

lemma ingest_history_safe:
  assumes "ingest_step\<^sup>*\<^sup>* d d'" and "distinct (step_ids d)" and "safe d"
  shows "distinct (step_ids d') \<and> safe d'"
  using assms by (induction rule: rtranclp_induct) (auto dest: ingest_step_safe)

lemma planned_some:
  assumes "buildCurrentPolicyTx opts d (nm_MediaID media) (nm_ScanTaskID media) PlanReasonScan False
      (nm_Metadata media) = Inr (Some plan)"
    and "0 < nm_ScanTaskID media" and "TrimSpace (nm_FileType media) = fileType (plan_policy plan)"
    and "fileType (plan_policy plan) \<noteq> []"
    and "persistPlanTx opts now (plan\<lparr>plan_ingestItemID := nm_IngestItemID media\<rparr>)
        (generation (plan_policy plan)) d = Inr (run, d')"
  shows "PlanNewMediaTx opts now media d = Inr (Some run, d')"
  using assms by (simp add: PlanNewMediaTx_def)

definition sample_new_media :: NewMedia where
  "sample_new_media = \<lparr>nm_MediaID = 1, nm_ScanTaskID = 5, nm_IngestItemID = 0,
    nm_FileType = ''video'', nm_Metadata = no_metadata\<rparr>"

lemma sample_planned:
  "\<exists>plan run d'. buildCurrentPolicyTx sample_options sample_db 1 5 PlanReasonScan False no_metadata =
      Inr (Some plan) \<and> PlanNewMediaTx sample_options 9 sample_new_media sample_db = Inr (Some run, d') \<and>
    steps d' = new_steps 9 (plan\<lparr>plan_ingestItemID := 0\<rparr>) 1 1 1 (plan_steps plan)"
proof -
  obtain plan where b: "buildCurrentPolicyTx sample_options sample_db 1 5 PlanReasonScan False
      no_metadata = Inr (Some plan)" using sample_build by blast
  then obtain t where "assemble_plan sample_db sample_options 1 5 PlanReasonScan False no_metadata
      sample_policy (select_options sample_options sample_policy) t = Inr plan"
    by (rule build_Some) (auto simp: sample_read_policy)
  note A = assemble_plan_Inr [OF this]
  have ft: "fileType (plan_policy plan) = ''video''" and g: "generation (plan_policy plan) = 0"
    by (simp_all add: A(8) sample_policy_def)
  let ?plan = "plan\<lparr>plan_ingestItemID := 0\<rparr>"
  have ready: "plan_ready (0 + 1) ?plan" using build_ready(1) [OF b] by (simp add: plan_ready_def g)
  obtain run d' where p: "persistPlanTx sample_options 9 ?plan 0 sample_db = Inr (run, d')"
    using persist_succeeds [OF ready sample_ok sample_current _ _ sample_frame(1), of sample_media 9]
      sample_lookups(1) built_prepare [OF b] sample_frame(2) A(9) by (auto simp: sample_media_def)
  have "TrimSpace ''video'' = ''video''" by code_simp
  then have "PlanNewMediaTx sample_options 9 sample_new_media sample_db = Inr (Some run, d')"
    by (intro planned_some [where plan = plan]) (use b p ft g in \<open>simp_all add: sample_new_media_def\<close>)
  moreover have "distinct (plan_steps ?plan)" using build_distinct [OF b] by simp
  from persist_rows(1) [OF p sample_frame(1) this]
  have "steps d' = new_steps 9 ?plan 1 1 1 (plan_steps plan)" by (simp add: sample_db_def)
  ultimately show ?thesis using b by blast
qed

text \<open>C0: No step ever runs early, from planning to publication. Whatever sequence of plans,
  replacements, claims, finalisations, cancellations, supersessions, prepare completions and
  reopenings takes a safe database (an empty one, for instance) to another one, a step that is
  running or done there has every step it depends on for success done. The publication barrier
  itself, which is completed by publishing, is the only exception.\<close>

theorem ingest_never_runs_early:
  assumes "ingest_step\<^sup>*\<^sup>* d d'" and "distinct (step_ids d)" and "safe d"
    and "s \<in> set (steps d')" and "s_status s = S_running \<or> s_status s = S_done"
    and "s_type s \<noteq> StepMediaVisible"
    and "e \<in> set (deps d')" and "d_step e = s_id s" and "d_kind e = DependencySuccess"
  shows "\<exists>p \<in> set (steps d'). s_id p = d_on e \<and> s_status p = S_done"
proof -
  from ingest_history_safe [OF assms(1-3)] have "safe d'" by blast
  with assms(4-6) have "deps_done d' (s_id s)" unfolding safe_def by blast
  with assms(7-9) show ?thesis unfolding deps_done_def by blast
qed

theorem ingest_never_runs_early_witness:
  "\<exists>d'. ingest_step\<^sup>*\<^sup>* sample_ready_db d' \<and>
     (\<exists>s \<in> set (steps d'). s_id s = 4 \<and> s_status s = S_running) \<and>
     (\<exists>p \<in> set (steps d'). s_id p = 3 \<and> s_status p = S_done)"
proof -
  obtain got d' s where c: "updateFamilyClaim QueuePostIngest StepAIAnalysis 9 3 ''w'' sample_ready_db = Inr (got, d')"
    and s: "s \<in> set (steps d')" "s_id s = 4" "s_status s = S_running" "s_type s = StepAIAnalysis"
    and e: "\<lparr>d_step = 4, d_on = 3, d_kind = DependencySuccess\<rparr> \<in> set (deps d')"
    using sample_ready_claim by blast
  have r: "ingest_step\<^sup>*\<^sup>* sample_ready_db d'"
    using ingest_step.ran [OF run_step.claimed [OF c]] by blast
  from ingest_never_runs_early [OF r sample_ready_safe s(1) _ _ e] s r show ?thesis
    by (auto simp: step_names)
qed

lemma build_steps:
  assumes "buildCurrentPolicyTx opts d mediaID scanTaskID reason preserve metadata = Inr (Some plan)"
  shows "plan_steps plan \<noteq> []"
proof -
  obtain policy t where t: "lookupTemplate (fileType policy) = Some t"
    and a: "assemble_plan d opts mediaID scanTaskID reason preserve metadata policy
      (select_options opts policy) t = Inr plan"
    using assms by (rule build_Some)
  then show ?thesis
    using template_shape(1) [OF t] by (auto simp: assemble_plan_Inr(1,3) [OF a] required_steps_def)
qed

lemma build_positive:
  assumes "buildCurrentPolicyTx opts d mediaID scanTaskID reason preserve metadata = Inr (Some plan)"
  shows "0 \<le> generation (plan_policy plan)"
proof -
  obtain s where s: "s \<in> set (plan_steps plan)"
    using build_steps [OF assms] by (cases "plan_steps plan") auto
  have r: "plan_ready (generation (plan_policy plan) + 1) plan" by (rule build_ready(1) [OF assms])
  then have "(s, generation (plan_policy plan) + 1) \<in> set (map node_key (Nodes (plan_graph plan)))"
    using s by (simp add: plan_ready_def)
  then show ?thesis
    using r by (auto simp: plan_ready_def plan_graph_ok_def nodes_ok_def node_key_def)
qed



end
