(* ===== verification/Queue_Mirror.thy ===== *)
theory Queue_Mirror
  imports Plan_Success
begin

text \<open>
  The two projections of a piece of work: the row of \<open>media_ingest_step\<close> in the plan, and the row
  of \<open>post_ingest_task\<close> the workers claim. The code changes both in every transition, each with
  statements of its own; \<open>mirrored\<close> says that they agree, and every operation of \<open>Plan_Build\<close>,
  \<open>Run_Lifecycle\<close> and \<open>Run_Transitions\<close> is shown to keep it. The worker operations of
  \<open>Queue_Worker\<close>, which copy a task onto its step, rely on it.
\<close>

section \<open>The invariant\<close>

text \<open>A queue row is tied to a step by the step's id.\<close>

definition tied :: "queue_row \<Rightarrow> step_row \<Rightarrow> bool" where
  "tied q s \<longleftrightarrow> q_step q = Some (s_id s)"

definition tied_ids :: "queue_row list \<Rightarrow> int list" where
  "tied_ids qs = map the (filter (\<lambda>i. i \<noteq> None) (map q_step qs))"

text \<open>The links, which no transition changes: a tied row belongs to the run and generation of its
  step, the tables hold the tasks of their own step types, and a step has one post-ingest task
  at most.\<close>

definition links_ok :: "db \<Rightarrow> bool" where
  "links_ok d \<longleftrightarrow>
    (\<forall>q \<in> set (posts d). \<forall>s \<in> set (steps d). tied q s \<longrightarrow>
       q_run q = Some (s_run s) \<and> q_generation q = Some (s_generation s) \<and> is_post (s_type s)) \<and>
    (\<forall>q \<in> set (scrapes d). \<forall>s \<in> set (steps d). tied q s \<longrightarrow> s_type s = StepScrape) \<and>
    (\<forall>q \<in> set (transcodes d). \<forall>s \<in> set (steps d). tied q s \<longrightarrow> s_type s = StepPrepare) \<and>
    (\<forall>q \<in> set (posts d) \<union> set (scrapes d) \<union> set (transcodes d). \<forall>i. q_step q = Some i \<longrightarrow> i \<in> set (step_ids d)) \<and>
    distinct (tied_ids (posts d)) \<and> distinct (map q_id (posts d)) \<and> distinct (step_ids d) \<and>
    (\<forall>q \<in> set (posts d). q_id q < next_queue d)"

text \<open>A post-ingest task that waits or runs mirrors its step.\<close>

definition mirrors :: "queue_row \<Rightarrow> step_row \<Rightarrow> bool" where
  "mirrors q s \<longleftrightarrow>
    (q_status q \<in> {S_waiting, S_running} \<longrightarrow>
       s_status s = q_status q \<and> s_retry_round s = q_retry_round q)"

definition mirrored :: "db \<Rightarrow> bool" where
  "mirrored d \<longleftrightarrow> links_ok d \<and>
    (\<forall>q \<in> set (posts d). \<forall>s \<in> set (steps d). tied q s \<longrightarrow> mirrors q s)"

text \<open>The columns of a link.\<close>

definition link_of :: "queue_row \<Rightarrow> int \<times> int option \<times> int option \<times> int option" where
  "link_of q = (q_id q, q_step q, q_run q, q_generation q)"

definition step_key :: "step_row \<Rightarrow> int \<times> int \<times> int \<times> StepType" where
  "step_key s = (s_id s, s_run s, s_generation s, s_type s)"

text \<open>What the statements of a transition do to the rows: the links stay, and tied rows that
  mirrored each other still do.\<close>

definition mirror_step :: "db \<Rightarrow> db \<Rightarrow> bool" where
  "mirror_step d d' \<longleftrightarrow>
    (mirrored d \<longrightarrow> mirrored d')"

lemma mirror_step_refl [simp]: "mirror_step d d" by (simp add: mirror_step_def)

lemma mirror_step_trans [trans]: "mirror_step d d' \<Longrightarrow> mirror_step d' d'' \<Longrightarrow> mirror_step d d''"
  by (simp add: mirror_step_def)

lemma q_step_link: "map q_step qs = map (fst \<circ> snd) (map link_of qs)"
  by (simp add: link_of_def comp_def)

lemma q_id_link: "map q_id qs = map fst (map link_of qs)"
  by (simp add: link_of_def comp_def)

lemma links_step:
  assumes "links_ok d"
    and "map link_of (posts d') = map link_of (posts d)"
    and "map q_step (scrapes d') = map q_step (scrapes d)"
    and "map q_step (transcodes d') = map q_step (transcodes d)"
    and "map step_key (steps d') = map step_key (steps d)" and "next_queue d' = next_queue d"
  shows "links_ok d'"
proof -
  have q: "\<exists>q \<in> set (posts d). link_of q = link_of q'" if "q' \<in> set (posts d')" for q'
    using assms(2) that by (metis imageE image_eqI image_set)
  have sc: "\<exists>q \<in> set (scrapes d). q_step q = q_step q'" if "q' \<in> set (scrapes d')" for q'
    using assms(3) that by (metis imageE image_eqI image_set)
  have tr: "\<exists>q \<in> set (transcodes d). q_step q = q_step q'" if "q' \<in> set (transcodes d')" for q'
    using assms(4) that by (metis imageE image_eqI image_set)
  have s: "\<exists>s \<in> set (steps d). step_key s = step_key s'" if "s' \<in> set (steps d')" for s'
    using assms(5) that by (metis imageE image_eqI image_set)
  have "distinct (tied_ids (posts d')) \<and> distinct (map q_id (posts d'))"
    using assms(1) by (simp add: links_ok_def tied_ids_def q_step_link q_id_link assms(2) del: map_map)
  moreover have ids: "step_ids d' = step_ids d"
    using arg_cong [OF assms(5), of "map fst"] by (simp add: step_key_def comp_def step_ids_def)
  then have "distinct (step_ids d')" using assms(1) by (simp add: links_ok_def)
  moreover have "i \<in> set (step_ids d')"
    if m: "q' \<in> set (posts d') \<union> set (scrapes d') \<union> set (transcodes d')" "q_step q' = Some i" for q' i
  proof -
    have "\<exists>q \<in> set (posts d) \<union> set (scrapes d) \<union> set (transcodes d). q_step q = q_step q'"
      using m(1) q sc tr by (auto simp: link_of_def) (metis Un_iff)+
    with assms(1) m(2) show ?thesis unfolding links_ok_def ids by metis
  qed
  moreover have "q_id q' < next_queue d'" if "q' \<in> set (posts d')" for q'
    using q [OF that] assms(1,6) by (auto simp: links_ok_def link_of_def)
  moreover have "q_run q' = Some (s_run s') \<and> q_generation q' = Some (s_generation s') \<and> is_post (s_type s')"
    if m: "q' \<in> set (posts d')" "s' \<in> set (steps d')" "tied q' s'" for q' s'
  proof -
    obtain q0 s0 where "q0 \<in> set (posts d)" "link_of q0 = link_of q'" "s0 \<in> set (steps d)" "step_key s0 = step_key s'"
      using q [OF m(1)] s [OF m(2)] by blast
    moreover then have "tied q0 s0" using m(3) by (simp add: tied_def link_of_def step_key_def)
    ultimately show ?thesis using assms(1) unfolding links_ok_def
      by (metis link_of_def prod.inject step_key_def)
  qed
  moreover have "s_type s' = StepScrape"
    if m: "q' \<in> set (scrapes d')" "s' \<in> set (steps d')" "tied q' s'" for q' s'
  proof -
    obtain q0 s0 where "q0 \<in> set (scrapes d)" "q_step q0 = q_step q'" "s0 \<in> set (steps d)" "step_key s0 = step_key s'"
      using sc [OF m(1)] s [OF m(2)] by blast
    moreover then have "tied q0 s0" using m(3) by (simp add: tied_def step_key_def)
    ultimately show ?thesis using assms(1) unfolding links_ok_def by (metis prod.inject step_key_def)
  qed
  moreover have "s_type s' = StepPrepare"
    if m: "q' \<in> set (transcodes d')" "s' \<in> set (steps d')" "tied q' s'" for q' s'
  proof -
    obtain q0 s0 where "q0 \<in> set (transcodes d)" "q_step q0 = q_step q'" "s0 \<in> set (steps d)" "step_key s0 = step_key s'"
      using tr [OF m(1)] s [OF m(2)] by blast
    moreover then have "tied q0 s0" using m(3) by (simp add: tied_def step_key_def)
    ultimately show ?thesis using assms(1) unfolding links_ok_def by (metis prod.inject step_key_def)
  qed
  ultimately show ?thesis unfolding links_ok_def by blast
qed

text \<open>A transition given row by row.\<close>

lemma mirror_map:
  assumes "posts d' = map g (posts d)" and "steps d' = map f (steps d)"
    and "map q_step (scrapes d') = map q_step (scrapes d)"
    and "map q_step (transcodes d') = map q_step (transcodes d)"
    and "next_queue d' = next_queue d"
    and "\<And>q. q \<in> set (posts d) \<Longrightarrow> link_of (g q) = link_of q"
    and "\<And>s. s \<in> set (steps d) \<Longrightarrow> step_key (f s) = step_key s"
    and pair: "\<And>q s. mirrored d \<Longrightarrow> q \<in> set (posts d) \<Longrightarrow> s \<in> set (steps d) \<Longrightarrow> tied q s \<Longrightarrow> mirrors q s \<Longrightarrow>
      q_run q = Some (s_run s) \<Longrightarrow> q_generation q = Some (s_generation s) \<Longrightarrow> is_post (s_type s) \<Longrightarrow>
      mirrors (g q) (f s)"
  shows "mirror_step d d'"
  unfolding mirror_step_def
proof
  assume m: "mirrored d"
  then have l: "links_ok d" by (simp add: mirrored_def)
  have "links_ok d'"
    by (rule links_step [OF l _ assms(3,4) _ assms(5)]) (use assms(1,2,6,7) in \<open>simp_all add: comp_def cong: map_cong\<close>)
  moreover have "mirrors q' s'" if q': "q' \<in> set (posts d')" and s': "s' \<in> set (steps d')" and t: "tied q' s'" for q' s'
  proof -
    obtain q s where q: "q \<in> set (posts d)" "q' = g q" and s: "s \<in> set (steps d)" "s' = f s"
      using q' s' assms(1,2) by auto
    have "tied q s"
      using t assms(6) [OF q(1)] assms(7) [OF s(1)] by (simp add: tied_def q(2) s(2) link_of_def step_key_def)
    moreover have "mirrors q s" using m q(1) s(1) \<open>tied q s\<close> by (simp add: mirrored_def)
    moreover have "q_run q = Some (s_run s) \<and> q_generation q = Some (s_generation s) \<and> is_post (s_type s)"
      using l q(1) s(1) \<open>tied q s\<close> unfolding links_ok_def by blast
    ultimately show ?thesis using pair [OF m q(1) s(1)] q(2) s(2) by blast
  qed
  ultimately show "mirrored d'" by (simp add: mirrored_def)
qed

lemma mirror_same:
  assumes "posts d' = posts d" "steps d' = steps d" "scrapes d' = scrapes d" "transcodes d' = transcodes d"
    "next_queue d' = next_queue d"
  shows "mirror_step d d'"
  by (rule mirror_map [where f = "\<lambda>s. s" and g = "\<lambda>q. q"]) (simp_all add: assms)

text \<open>One \<open>UPDATE\<close> of each table.\<close>

lemma mirror_update:
  assumes "posts d' = sql_update v g (posts d)" and "steps d' = sql_update w f (steps d)"
    and "map q_step (scrapes d') = map q_step (scrapes d)"
    and "map q_step (transcodes d') = map q_step (transcodes d)"
    and "next_queue d' = next_queue d"
    and "\<And>q. link_of (g q) = link_of q" and "\<And>s. step_key (f s) = step_key s"
    and "\<And>q s. mirrored d \<Longrightarrow> q \<in> set (posts d) \<Longrightarrow> s \<in> set (steps d) \<Longrightarrow> tied q s \<Longrightarrow> mirrors q s \<Longrightarrow>
      q_run q = Some (s_run s) \<Longrightarrow> q_generation q = Some (s_generation s) \<Longrightarrow> is_post (s_type s) \<Longrightarrow>
      mirrors (if v q then g q else q) (if w s then f s else s)"
  shows "mirror_step d d'"
  by (rule mirror_map [where g = "\<lambda>q. if v q then g q else q" and f = "\<lambda>s. if w s then f s else s", OF _ _ assms(3,4,5)])
    (use assms in \<open>simp_all add: sql_update_def\<close>)

lemma update_q_step [simp]:
  "(\<And>q. q_step (g q) = q_step q) \<Longrightarrow> map q_step (sql_update v g qs) = map q_step qs"
  by (simp add: sql_update_def comp_def)

lemma cancel_link [simp]: "link_of (cancel_queue now err prog q) = link_of q" "q_step (cancel_queue now err prog q) = q_step q"
  "step_key (cancel_step now err s) = step_key s"
  by (simp_all add: link_of_def cancel_queue_def step_key_def cancel_step_def)

lemma cancelled_mirrors: "mirrors (cancel_queue now err prog q) s"
  by (simp add: mirrors_def cancel_queue_def)

lemma not_post_types [simp]: "\<not> is_post StepScrape" "\<not> is_post StepPrepare" "\<not> is_post StepMediaVisible"
  by (simp_all add: is_post_def queueBacked_def step_names)

lemma cancel_pair:
  assumes "mirrors q s" and "w s \<Longrightarrow> q_status q \<in> {S_waiting, S_running} \<Longrightarrow> v q"
  shows "mirrors (if v q then cancel_queue now err prog q else q) (if w s then f s else s)"
  using assms cancelled_mirrors by (auto simp: mirrors_def)

section \<open>Transitions\<close>

lemma recompute_next: "RecomputePlanCompletionTx now run d = Inr d' \<Longrightarrow> next_queue d' = next_queue d"
  by (auto simp: RecomputePlanCompletionTx_def Let_def split: if_splits option.splits)

lemma frame_next [simp]:
  "next_queue (cancel_jobs p f d) = next_queue d" "next_queue (update_media d i h) = next_queue d"
  "next_queue (set_queue fam rows d) = next_queue d"
  by (simp_all add: cancel_jobs_def update_media_def set_queue_def split: QueueFamily.split)

lemma recompute_mirror: "RecomputePlanCompletionTx now run d = Inr d' \<Longrightarrow> mirror_step d d'"
  by (rule mirror_same) (auto dest: recompute_frame recompute_next)

lemma barrier_mirror: "completeVisibleBarrierTx now run media gen d = Inr d' \<Longrightarrow> mirror_step d d'"
proof -
  assume a: "completeVisibleBarrierTx now run media gen d = Inr d'"
  let ?w = "\<lambda>s. s_run s = run \<and> s_media s = media \<and> s_generation s = gen \<and>
                  s_type s = StepMediaVisible \<and> s_status s = S_waiting \<and>
                  list_ex (\<lambda>m. m_id m = media \<and> m_generation m = gen \<and> m_published_at m \<noteq> None \<and>
                        m_state m \<in> {StatePublished, StateDegraded}) (medias d)"
  let ?d1 = "d\<lparr>steps := sql_update ?w (\<lambda>s. s\<lparr>s_status := S_done, s_finished := coalesce (s_finished s) now\<rparr>)
                     (steps d)\<rparr>"
  have "mirror_step d ?d1"
    by (rule mirror_update [where v = "\<lambda>_. False" and g = id and w = ?w and
          f = "\<lambda>s. s\<lparr>s_status := S_done, s_finished := coalesce (s_finished s) now\<rparr>"])
      (auto simp: sql_update_def step_key_def)
  moreover have "d' = d \<or> RecomputePlanCompletionTx now run ?d1 = Inr d'"
    using a by (simp add: completeVisibleBarrierTx_def Let_def split: if_split_asm)
  ultimately show ?thesis by (auto dest: recompute_mirror mirror_step_trans)
qed

lemma blocked_mirror: "mirror_step d (cancelBlockedRequiredWaiting now run d)"
proof -
  let ?w = "\<lambda>s. s_run s = run \<and> s_required s \<and> s_status s = S_waiting"
  let ?err = "if_blank blockedRequiredCancelMessage"
  let ?steps = "sql_update ?w (cancel_step now ?err) (steps d)"
  let ?dead = "map s_id (filter (\<lambda>s. s_run s = run \<and> s_required s \<and> s_status s = S_cancelled) ?steps)"
  have dead: "s_id s \<in> set ?dead" if "s \<in> set (steps d)" "?w s" for s
  proof -
    have "cancel_step now ?err s \<in> set ?steps" using that by (force simp: sql_update_def)
    then show ?thesis using that(2)
      by (auto simp: cancel_step_def intro!: image_eqI [of _ _ "cancel_step now ?err s"])
  qed
  show ?thesis
  proof (rule mirror_update [where w = ?w and f = "cancel_step now ?err" and g = "cancel_queue now ?err id"
      and v = "\<lambda>q. q_run q = Some run \<and> q_status q \<in> {S_waiting, S_running} \<and>
        (\<exists>i. q_step q = Some i \<and> i \<in> set ?dead)"])
    fix q s
    assume a: "s \<in> set (steps d)" "tied q s" "mirrors q s" "q_run q = Some (s_run s)"
    show "mirrors (if q_run q = Some run \<and> q_status q \<in> {S_waiting, S_running} \<and>
        (\<exists>i. q_step q = Some i \<and> i \<in> set ?dead) then cancel_queue now ?err id q else q)
        (if ?w s then cancel_step now ?err s else s)"
      by (rule cancel_pair [OF a(3)]) (use a dead in \<open>auto simp: tied_def\<close>)
  qed (simp_all add: cancelBlockedRequiredWaiting_def Let_def)
qed

lemma converge_mirror: "convergeTerminalRunTx now run gen st d = Inr d' \<Longrightarrow> mirror_step d d'"
proof -
  assume a: "convergeTerminalRunTx now run gen st d = Inr d'"
  let ?err = "\<lambda>_. Text (if st = StateCancelled then parentRunCancelledReason else parentRunFailedReason)"
  show ?thesis
  proof (rule mirror_update [where v = "active_of run gen" and g = "cancel_queue now ?err id" and
        w = "active_step_of run gen" and f = "cancel_step now ?err"])
    fix q s
    assume p: "s \<in> set (steps d)" "mirrors q s" "q_run q = Some (s_run s)" "q_generation q = Some (s_generation s)"
    show "mirrors (if active_of run gen q then cancel_queue now ?err id q else q)
        (if active_step_of run gen s then cancel_step now ?err s else s)"
      by (rule cancel_pair [OF p(2)]) (use p in \<open>auto simp: active_of_def active_step_of_def\<close>)
  qed (use a in \<open>auto simp: convergeTerminalRunTx_def Let_def split: if_split_asm\<close>)
qed

lemma cancel_work_mirror: "mirror_step d (cancel_work now run reason d)"
proof (rule mirror_update [where v = "of_run_in run {S_waiting, S_running}" and g = "cancel_queue now (if_empty reason) id" and
      w = "\<lambda>s. s_run s = run \<and> s_status s \<in> {S_waiting, S_running}" and f = "cancel_step now (if_empty reason)"])
  fix q s
  assume p: "s \<in> set (steps d)" "mirrors q s" "q_run q = Some (s_run s)"
  show "mirrors (if of_run_in run {S_waiting, S_running} q then cancel_queue now (if_empty reason) id q else q)
      (if s_run s = run \<and> s_status s \<in> {S_waiting, S_running} then cancel_step now (if_empty reason) s else s)"
    by (rule cancel_pair [OF p(2)]) (use p in \<open>auto simp: of_run_in_def\<close>)
qed (simp_all add: cancel_work_def Let_def)

lemma supersede_mirror: "supersedeGeneration now media old new d = Inr d' \<Longrightarrow> mirror_step d d'"
proof -
  assume a: "supersedeGeneration now media old new d = Inr d'"
  show ?thesis
  proof (cases "find (\<lambda>r. r_media r = media \<and> r_generation r = old) (runs d)")
    case None
    with a have "d' = d" by (simp add: supersedeGeneration_def split: if_split_asm)
    then show ?thesis by simp
  next
    case (Some r)
    show ?thesis
    proof (cases "d' = d")
      case False
      show ?thesis
      proof (rule mirror_update [where v = "active_of (r_id r) old" and g = "cancel_queue now id id" and
            w = "active_step_of (r_id r) old" and f = "cancel_step now id"])
        fix q s
        assume p: "s \<in> set (steps d)" "mirrors q s" "q_run q = Some (s_run s)" "q_generation q = Some (s_generation s)"
        show "mirrors (if active_of (r_id r) old q then cancel_queue now id id q else q)
            (if active_step_of (r_id r) old s then cancel_step now id s else s)"
          by (rule cancel_pair [OF p(2)]) (use p in \<open>auto simp: active_of_def active_step_of_def\<close>)
      qed (use a False Some in \<open>auto simp: supersedeGeneration_def Let_def split: if_split_asm\<close>)
    qed simp
  qed
qed

lemma sync_skipped_mirror:
  assumes "syncSkippedQueueForStepTx now s reason (d\<lparr>steps := sql_update w (skip_step now reason) (steps d)\<rparr>) = Inr d'"
    and w: "w = (\<lambda>x. s_id x = s_id s \<and> s_run x = run \<and> s_generation x = s_generation s \<and> s_status x = S_waiting)"
    and s: "step_key s \<in> step_key ` set (steps d)" "s_run s = run"
  shows "mirror_step d d'"
proof (cases "s_type s = StepMediaVisible \<or> queueFamilyForStep (s_type s) \<noteq> Some QueuePostIngest")
  case True
  have only: "s_type x = s_type s" if x: "x \<in> set (steps d)" "s_id x = s_id s" "mirrored d" for x
  proof -
    obtain y where y: "y \<in> set (steps d)" "step_key y = step_key s" using s(1) by auto
    have "distinct (step_ids d)" using x(3) by (simp add: mirrored_def links_ok_def)
    then have inj: "inj_on s_id (set (steps d))" by (simp add: step_ids_def distinct_map)
    have "s_id x = s_id y" using x(2) y(2) by (simp add: step_key_def)
    then have "x = y" using inj_onD [OF inj _ x(1) y(1)] by simp
    with y(2) show ?thesis by (simp add: step_key_def)
  qed
  have np: "\<not> is_post (s_type s)"
    using True assms(1) by (auto simp: syncSkippedQueueForStepTx_def queueFamilyForStep_def is_post_def queueBacked_def step_names split: if_split_asm)
  show ?thesis
  proof (rule mirror_update [where v = "\<lambda>_. False" and g = id and w = w and f = "skip_step now reason"])
    fix q x assume x: "x \<in> set (steps d)" "mirrors q x" "is_post (s_type x)" "mirrored d"
    have "\<not> w x" using only [OF x(1) _ x(4)] np x(3) by (auto simp: w)
    with x(2) show "mirrors (if False then id q else q) (if w x then skip_step now reason x else x)" by simp
  qed (use assms(1) True in \<open>auto simp: syncSkippedQueueForStepTx_def Let_def set_queue_def queue_rows_def sql_update_def
      step_key_def skip_step_def skip_queue_row_def split: if_split_asm option.split_asm QueueFamily.split_asm\<close>)
next
  case False
  let ?v = "\<lambda>q. linked (s_id s) (s_run s) (s_generation s) q \<and> q_status q = S_waiting"
  show ?thesis
  proof (rule mirror_update [where v = ?v and g = "skip_queue_row now reason" and w = w and f = "skip_step now reason"])
    fix q x assume x: "x \<in> set (steps d)" "tied q x" "mirrors q x" "q_run q = Some (s_run x)" "q_generation q = Some (s_generation x)"
    show "mirrors (if ?v q then skip_queue_row now reason q else q) (if w x then skip_step now reason x else x)"
      using x s(2) by (auto simp: mirrors_def w linked_def tied_def skip_queue_row_def skip_step_def)
  qed (use assms(1) False in \<open>auto simp: syncSkippedQueueForStepTx_def Let_def set_queue_def queue_rows_def
      step_key_def skip_step_def skip_queue_row_def link_of_def split: if_split_asm\<close>)
qed

lemma sync_steps:
  assumes "syncSkippedQueueForStepTx now s reason d = Inr d'"
  shows "steps d' = steps d"
  using assms by (auto simp: syncSkippedQueueForStepTx_def Let_def set_queue_def split: if_split_asm option.split_asm QueueFamily.split_asm)

lemma skip_batch_mirror:
  assumes "skip_batch now run rows d = Inr d'"
    and "\<And>s e p. (s, e, p) \<in> set rows \<Longrightarrow> step_key s \<in> step_key ` set (steps d) \<and> s_run s = run"
  shows "mirror_step d d'"
  using assms
proof (induction rows arbitrary: d)
  case (Cons r rows)
  obtain s e p where r: "r = (s, e, p)" by (cases r)
  let ?reason = "Impossible (dependencyReason s p (d_kind e))"
  let ?w = "\<lambda>x. s_id x = s_id s \<and> s_run x = run \<and> s_generation x = s_generation s \<and> s_status x = S_waiting"
  let ?d = "d\<lparr>steps := sql_update ?w (skip_step now ?reason) (steps d)\<rparr>"
  show ?case
  proof (cases "sql_affected ?w (steps d) = 0")
    case True
    with Cons.prems(1) have "skip_batch now run rows d = Inr d'" by (simp add: r Let_def)
    then show ?thesis by (rule Cons.IH) (metis Cons.prems(2) list.set_intros(2))
  next
    case False
    with Cons.prems(1) obtain d1 where d1: "syncSkippedQueueForStepTx now s ?reason ?d = Inr d1"
      and rest: "skip_batch now run rows d1 = Inr d'"
      by (auto simp: r Let_def split: sum.split_asm)
    have s: "step_key s \<in> step_key ` set (steps d)" "s_run s = run"
      using Cons.prems(2) [of s e p] unfolding r by (metis list.set_intros(1))+
    have "map step_key (steps d1) = map step_key (steps d)"
      unfolding sync_steps [OF d1] by (simp add: sql_update_def step_key_def skip_step_def)
    then have keys: "step_key ` set (steps d1) = step_key ` set (steps d)" by (metis image_set)
    have "mirror_step d d1" by (rule sync_skipped_mirror [OF d1 refl s])
    moreover have "mirror_step d1 d'"
    proof (rule Cons.IH [OF rest])
      fix s' e' p' assume "(s', e', p') \<in> set rows"
      then show "step_key s' \<in> step_key ` set (steps d1) \<and> s_run s' = run"
        using Cons.prems(2) [of s' e' p'] unfolding keys by simp
    qed
    ultimately show ?thesis by (rule mirror_step_trans)
  qed
qed simp

lemma propagate_rounds_mirror: "propagate fuel now run d = Some (Inr d') \<Longrightarrow> mirror_step d d'"
proof (induction fuel arbitrary: d)
  case (Suc fuel)
  show ?case
  proof (cases "impossible_rows run d = []")
    case False
    with Suc.prems obtain d1 where d1: "skip_batch now run (impossible_rows run d) d = Inr d1"
      and rest: "propagate fuel now run d1 = Some (Inr d')"
      by (auto split: sum.split_asm)
    have "mirror_step d d1"
      by (rule skip_batch_mirror [OF d1]) (auto simp: impossible_rows_def)
    also have "mirror_step d1 d'" by (rule Suc.IH [OF rest])
    finally show ?thesis .
  qed (use Suc.prems in simp)
qed simp

lemma propagate_mirror: "PropagateImpossibleDependenciesTx now run d = Inr d' \<Longrightarrow> mirror_step d d'"
  by (auto simp: PropagateImpossibleDependenciesTx_def simp del: propagate.simps
      split: if_split_asm option.split_asm intro: propagate_rounds_mirror)

lemma enter_mirror: "enter_state marshal now r d = (st, diag, d') \<Longrightarrow> mirror_step d d'"
proof -
  assume a: "enter_state marshal now r d = (st, diag, d')"
  obtain d1 where "next_state now r d = (st, d1)" and d': "posts d' = posts d1" "steps d' = steps d1"
    "scrapes d' = scrapes d1" "transcodes d' = transcodes d1" "next_queue d' = next_queue d1"
    using a by (auto simp: enter_state_def Let_def split: prod.split_asm)
  then have "mirror_step d d1"
    using blocked_mirror by (auto simp: next_state_def split: if_split_asm)
  also have "mirror_step d1 d'" using d' by (rule mirror_same)
  finally show ?thesis .
qed

lemma settle_mirror: "settle_terminal now r next d = Inr d' \<Longrightarrow> mirror_step d d'"
  by (auto simp: settle_terminal_def and_then_Inr_iff split: if_split_asm
      dest!: converge_mirror recompute_mirror intro: mirror_step_trans)

lemma update_media_mirror: "mirror_step d (update_media d i f)"
  by (rule mirror_same) simp_all

lemma project_mirror: "project_current now r next diag d = Inr d' \<Longrightarrow> mirror_step d d'"
  by (auto simp: project_current_def project_media_def Let_def update_media_mirror split: option.split_asm if_split_asm State.split_asm
      dest!: barrier_mirror intro: mirror_step_trans [OF update_media_mirror])

lemma aggregate_mirror: "AggregateTx marshal now run d = Inr d' \<Longrightarrow> mirror_step d d'"
  by (auto simp: AggregateTx_def and_then_Inr_iff split: if_split_asm option.split_asm prod.split_asm
      dest!: enter_mirror settle_mirror project_mirror intro: mirror_step_trans)

lemma finalize_mirror: "FinalizeNodeTransitionTx marshal None now run d = Inr d' \<Longrightarrow> mirror_step d d'"
  by (auto simp: FinalizeNodeTransitionTx_def projectNodeTransitionTx_def RecomputeRetirementBarrierTx_def
      and_then_Inr_iff split: if_split_asm
      dest!: propagate_mirror recompute_mirror aggregate_mirror intro: mirror_step_trans)

lemma cancel_run_mirror: "CancelRunTx marshal None now run reason d = Inr (ok, d') \<Longrightarrow> mirror_step d d'"
proof -
  assume a: "CancelRunTx marshal None now run reason d = Inr (ok, d')"
  let ?d = "d\<lparr>runs := sql_update (cancellable_run d run)
                    (\<lambda>r. r\<lparr>r_status := StateCancelled, r_terminal_reason := reason,
                           r_finished := coalesce (r_finished r) now\<rparr>) (runs d)\<rparr>"
  have "d' = d \<or> FinalizeNodeTransitionTx marshal None now run (cancel_work now run reason ?d) = Inr d'"
    using a by (auto simp: CancelRunTx_def and_then_Inr_iff Let_def split: if_split_asm)
  moreover have "mirror_step d ?d" by (rule mirror_same) simp_all
  then have "mirror_step d (cancel_work now run reason ?d)"
    using cancel_work_mirror by (rule mirror_step_trans)
  ultimately show ?thesis using finalize_mirror mirror_step_trans mirror_step_refl by blast
qed

lemma complete_prepare_mirror:
  assumes "CompletePrepareTx marshal None now p success err d = Inr d'"
  shows "mirror_step d d'"
proof -
  obtain st e d1 where d1: "d1 = d\<lparr>transcodes := sql_update (prepare_parent d p) (finish_prepare_task now st e) (transcodes d)\<rparr>"
    and f: "FinalizeNodeTransitionTx marshal None now (pp_RunID p)
            (d1\<lparr>steps := sql_update (prepare_step p) (finish_prepare_step now st e) (steps d1)\<rparr>) = Inr d'"
    using assms by (auto simp: CompletePrepareTx_def Let_def split: if_split_asm)
  have "mirror_step d (d1\<lparr>steps := sql_update (prepare_step p) (finish_prepare_step now st e) (steps d1)\<rparr>)"
    by (rule mirror_update [where v = "\<lambda>_. False" and g = id and w = "prepare_step p" and f = "finish_prepare_step now st e"])
      (auto simp: d1 sql_update_def step_key_def finish_prepare_task_def finish_prepare_step_def prepare_step_def)
  with finalize_mirror [OF f] show ?thesis using mirror_step_trans by blast
qed

lemma tied_unique:
  assumes "links_ok d" and "q \<in> set (posts d)" "q' \<in> set (posts d)" and "tied q s" "tied q' s"
  shows "q = q'"
proof -
  let ?qs = "filter (\<lambda>q. q_step q \<noteq> None) (posts d)"
  have "distinct (map (the \<circ> q_step) ?qs)"
    using assms(1) by (simp add: links_ok_def tied_ids_def filter_map comp_def)
  then have inj: "inj_on (the \<circ> q_step) (set ?qs)" by (simp add: distinct_map)
  show ?thesis by (rule inj_onD [OF inj]) (use assms(2-5) in \<open>simp_all add: tied_def\<close>)
qed

lemma post_id_unique:
  assumes "links_ok d" and "q \<in> set (posts d)" "q' \<in> set (posts d)" and "q_id q = q_id q'"
  shows "q = q'"
  using assms by (auto simp: links_ok_def distinct_map dest: inj_onD)

text \<open>The step of a claimed row and the row itself change together.\<close>

lemma claim_pair:
  assumes l: "links_ok d" and q0: "q0 \<in> set (posts d)" and q: "q \<in> set (posts d)" and t: "tied q s"
    and m: "mirrors q s" and v: "v q0" "\<And>x. v x \<Longrightarrow> q_id x = q_id q0"
    and wait: "q_status q0 = S_waiting"
    and g: "q_status (g q0) = S_running" "q_retry_round (g q0) = q_retry_round q0"
    and f: "s_status (f s) = S_running" "s_retry_round (f s) = s_retry_round s"
    and w: "w s \<longleftrightarrow> tied q0 s \<and> s_status s = S_waiting"
  shows "mirrors (if v q then g q else q) (if w s then f s else s)"
proof (cases "q = q0")
  case True
  with m wait have "s_status s = S_waiting" "s_retry_round s = q_retry_round q0" by (simp_all add: mirrors_def)
  with True t w v(1) g f show ?thesis by (simp add: mirrors_def)
next
  case False
  then have "\<not> v q" using v(2) post_id_unique [OF l q q0] by blast
  moreover have "\<not> tied q0 s" using tied_unique [OF l q q0 t] False by blast
  ultimately show ?thesis using w m by simp
qed

lemma claim_mirror:
  assumes "updateFamilyClaim fam typ now qid owner d = Inr (got, d')"
  shows "mirror_step d d'"
proof -
  let ?p = "\<lambda>q. q_id q = qid \<and> claimable fam typ now d q"
  let ?g = "claim_row fam now owner"
  show ?thesis
  proof (cases "find ?p (queue_rows fam d)")
    case None
    with assms show ?thesis by (simp add: updateFamilyClaim_def)
  next
    case (Some q0)
    have q0: "q0 \<in> set (queue_rows fam d)" "?p q0" using find_set [OF Some] by auto
    let ?d1 = "set_queue fam (sql_update ?p ?g (queue_rows fam d)) d"
    let ?w = "\<lambda>s. tied q0 s \<and> s_status s = S_waiting"
    let ?f = "claim_step now owner (claim_attempts fam (?g q0)) (q_lease_until (?g q0))"
    let ?d2 = "?d1\<lparr>steps := sql_update ?w ?f (steps ?d1)\<rparr>"
    have g [simp]: "link_of (claim_row fm now owner q) = link_of q" "q_step (claim_row fm now owner q) = q_step q"
      "q_status (claim_row fm now owner q) = S_running"
      "q_retry_round (claim_row fm now owner q) = q_retry_round q" "q_run (claim_row fm now owner q) = q_run q" for q fm
      by (simp_all add: claim_row_def link_of_def Let_def split: QueueFamily.split)
    have f [simp]: "step_key (claim_step now owner a l s) = step_key s" "s_status (claim_step now owner a l s) = S_running"
      "s_retry_round (claim_step now owner a l s) = s_retry_round s" for a l s
      by (simp_all add: claim_step_def step_key_def)
    have m: "mirror_step d ?d2"
    proof (cases "fam = QueuePostIngest")
      case True
      show ?thesis
      proof (rule mirror_update [where v = ?p and g = ?g and w = ?w and f = ?f])
        fix q s assume x: "mirrored d" "q \<in> set (posts d)" "s \<in> set (steps d)" "tied q s" "mirrors q s"
        have l: "links_ok d" using x(1) by (simp add: mirrored_def)
        have wt: "q_status q0 = S_waiting" using q0(2) True by (simp add: claimable_def familyDue_def)
        show "mirrors (if ?p q then ?g q else q) (if ?w s then ?f s else s)"
          by (rule claim_pair [OF l _ x(2,4,5)]) (use q0 True wt in \<open>auto simp: queue_rows_def\<close>)
      qed (simp_all add: True set_queue_def queue_rows_def)
    next
      case False
      show ?thesis
      proof (rule mirror_update [where v = "\<lambda>_. False" and g = id and w = ?w and f = ?f])
        fix q s assume x: "mirrored d" "s \<in> set (steps d)" "is_post (s_type s)" "mirrors q s"
        have "s_type s \<in> {StepScrape, StepPrepare}" if "tied q0 s"
          using x(1,2) q0(1) that False by (cases fam) (auto simp: mirrored_def links_ok_def queue_rows_def)
        then have w: "\<not> ?w s" using x(3) by auto
        from x(4) show "mirrors (if False then id q else q) (if ?w s then ?f s else s)"
          by (simp only: if_not_P [OF w] if_False)
      qed (use False in \<open>cases fam; simp add: set_queue_def queue_rows_def sql_update_def\<close>)+
    qed
    have w_eq: "(\<lambda>s. s_id s = i \<and> s_status s = S_waiting) = ?w" if "q_step q0 = Some i" for i
      using that by (auto simp: tied_def)
    have "d' = ?d1 \<and> q_step q0 = None \<or> d' = ?d2 \<or> (\<exists>run. RecomputePlanCompletionTx now run ?d2 = Inr d')"
      using assms by (auto simp: updateFamilyClaim_def Let_def Some FinalizeClaimTransitionTx_def and_then_Inr_iff w_eq
          split: option.split_asm if_split_asm)
    then show ?thesis
    proof (elim disjE exE conjE)
      assume "d' = ?d1" and n: "q_step q0 = None"
      have "\<not> tied q0 s" for s using n by (simp add: tied_def)
      then have "?d2 = ?d1" by (simp add: sql_update_def)
      with \<open>d' = ?d1\<close> m show ?thesis by simp
    next
      assume "d' = ?d2"
      with m show ?thesis by simp
    next
      fix run assume "RecomputePlanCompletionTx now run ?d2 = Inr d'"
      from m recompute_mirror [OF this] show ?thesis by (rule mirror_step_trans)
    qed
  qed
qed

lemma reopen_one_mirror:
  assumes "reopenStepAndQueue now req fam q s d = Inr d'" and st: "s \<in> set (steps d)" "reopenable (s_status s)"
    and id: "s_id s = ro_StepID req" and fam: "queueFamilyForStep (s_type s) = Some fam"
  shows "mirror_step d d'"
proof -
  let ?gen = "s_generation s" and ?round = "s_retry_round s"
  let ?w = "\<lambda>x. s_id x = ro_StepID req \<and> s_run x = ro_RunID req \<and> s_generation x = ?gen \<and>
                     reopenable (s_status x) \<and> s_retry_round x = ?round"
  let ?v = "\<lambda>x. q_id x = q_id q \<and> linked (ro_StepID req) (ro_RunID req) ?gen x \<and>
                     reopenable (q_status x) \<and> q_retry_round x = q_retry_round q"
  let ?d = "writeReopenAudit req fam q s (?round + 1) d"
  have d': "d' = set_queue fam (sql_update ?v (reopen_queue fam now (?round + 1)) (queue_rows fam ?d))
               (?d\<lparr>steps := sql_update ?w (reopen_step (?round + 1)) (steps ?d)\<rparr>)"
    and w1: "sql_affected ?w (steps ?d) = 1"
    using assms(1) by (auto simp: reopenStepAndQueue_def Let_def split: if_split_asm)
  have audit: "steps (writeReopenAudit req fm q s n d) = steps d"
    "queue_rows g (writeReopenAudit req fm q s n d) = queue_rows g d"
    "posts (writeReopenAudit req fm q s n d) = posts d"
    "scrapes (writeReopenAudit req fm q s n d) = scrapes d"
    "transcodes (writeReopenAudit req fm q s n d) = transcodes d"
    "next_queue (writeReopenAudit req fm q s n d) = next_queue d" for fm g n
    by (simp_all add: writeReopenAudit_def queue_rows_def split: QueueFamily.split)
  have only: "x = s" if "mirrored d" "x \<in> set (steps d)" "?w x" for x
  proof -
    have "distinct (step_ids d)" using that(1) by (simp add: mirrored_def links_ok_def)
    then have inj: "inj_on s_id (set (steps d))" by (simp add: step_ids_def distinct_map)
    from inj_onD [OF inj _ that(2) st(1)] that(3) id show ?thesis by simp
  qed
  have r [simp]: "q_step (reopen_queue f now n y) = q_step y" "link_of (reopen_queue f now n y) = link_of y"
    "step_key (reopen_step n x) = step_key x" for f n y x
    by (simp_all add: reopen_queue_def link_of_def reopen_step_def step_key_def)
  have dead: "\<not> q_status y \<in> {S_waiting, S_running}" if "mirrors y s" for y
    using that st(2) by (auto simp: mirrors_def reopenable_def)
  show ?thesis
  proof (cases "fam = QueuePostIngest")
    case True
    show ?thesis
    proof (rule mirror_update [where v = ?v and g = "reopen_queue fam now (?round + 1)" and w = ?w and f = "reopen_step (?round + 1)"])
      fix y x assume x: "mirrored d" "x \<in> set (steps d)" "y \<in> set (posts d)" "tied y x" "mirrors y x"
        "q_run y = Some (s_run x)" "q_generation y = Some (s_generation x)"
      show "mirrors (if ?v y then reopen_queue fam now (?round + 1) y else y) (if ?w x then reopen_step (?round + 1) x else x)"
      proof (cases "?w x")
        case w: True
        then have "\<not> q_status y \<in> {S_waiting, S_running}" using only [OF x(1,2)] dead x(5) by blast
        with w show ?thesis by (simp add: mirrors_def reopen_queue_def reopen_step_def)
      next
        case w: False
        have nv: "\<not> ?v y"
        proof
          assume v: "?v y"
          then have "s_id x = s_id s" using x(4) id by (simp add: tied_def linked_def)
          moreover have "distinct (step_ids d)" using x(1) by (simp add: mirrored_def links_ok_def)
          then have inj: "inj_on s_id (set (steps d))" by (simp add: step_ids_def distinct_map)
          ultimately have "x = s" using inj_onD [OF inj _ x(2) st(1)] by blast
          with w v id st(2) x(6) show False by (auto simp: linked_def)
        qed
        from x(5) show ?thesis by (simp only: if_not_P [OF w] if_not_P [OF nv])
      qed
    qed (simp_all add: d' True set_queue_def queue_rows_def audit)
  next
    case False
    have np: "\<not> is_post (s_type s)"
      using fam False by (auto simp: queueFamilyForStep_def is_post_def split: if_split_asm)
    show ?thesis
    proof (rule mirror_update [where v = "\<lambda>_. False" and g = id and w = ?w and f = "reopen_step (?round + 1)"])
      fix y x assume x: "mirrored d" "x \<in> set (steps d)" "is_post (s_type x)" "mirrors y x"
      have w: "\<not> ?w x" using only [OF x(1,2)] np x(3) by blast
      from x(4) show "mirrors (if False then id y else y) (if ?w x then reopen_step (?round + 1) x else x)"
        by (simp only: if_not_P [OF w] if_False)
    qed (use False in \<open>cases fam; simp add: d' set_queue_def queue_rows_def audit sql_update_def\<close>)+
  qed
qed

lemma resolve_fam:
  "resolveQueueIdentity d stepID run gen typ = Inr (fam, q) \<Longrightarrow> queueFamilyForStep typ = Some fam"
  by (auto simp: resolveQueueIdentity_def split: option.split_asm list.split_asm)

lemma cascade_mirror:
  assumes "cascade_each now req rid gen cs d = Inr d'"
    and "\<And>c. c \<in> set cs \<Longrightarrow> reopenable (s_status c) \<and> s_type c = StepAIAnalysis"
    and "distinct (map s_id cs)" and "set cs \<subseteq> set (steps d)"
  shows "mirror_step d d'"
  using assms
proof (induction cs arbitrary: d)
  case (Cons c cs)
  show ?case
  proof (cases "cascade_reason c rid gen")
    case False
    with Cons.prems(1) have "cascade_each now req rid gen cs d = Inr d'" by simp
    then show ?thesis by (rule Cons.IH) (use Cons.prems(2-4) in auto)
  next
    case True
    let ?req = "req\<lparr>ro_StepID := s_id c, ro_Target := StepAIAnalysis, ro_ExpectedRetryRound := s_retry_round c\<rparr>"
    from Cons.prems(1) True obtain fam q d1 where
      r: "resolveQueueIdentity d (s_id c) (ro_RunID req) gen StepAIAnalysis = Inr (fam, q)"
      and one: "reopenStepAndQueue now ?req fam q c d = Inr d1"
      and rest: "cascade_each now req rid gen cs d1 = Inr d'"
      by (auto simp: and_then_Inr_iff)
    have c: "c \<in> set (steps d)" "reopenable (s_status c)" "s_type c = StepAIAnalysis" using Cons.prems(2,4) by auto
    have "mirror_step d d1"
      by (rule reopen_one_mirror [OF one c(1,2)]) (use resolve_fam [OF r] c(3) in simp_all)
    moreover have "mirror_step d1 d'"
    proof (rule Cons.IH [OF rest])
      have d1: "steps d1 = sql_update (\<lambda>x. s_id x = s_id c \<and> s_run x = ro_RunID req \<and> s_generation x = s_generation c \<and>
                     reopenable (s_status x) \<and> s_retry_round x = s_retry_round c)
            (reopen_step (s_retry_round c + 1)) (steps d)"
        using one by (auto simp: reopenStepAndQueue_def Let_def writeReopenAudit_def set_queue_def
            split: if_split_asm QueueFamily.split_asm)
      show "set cs \<subseteq> set (steps d1)"
      proof
        fix x assume x: "x \<in> set cs"
        then have "s_id x \<in> set (map s_id cs)" by simp
        then have "s_id x \<noteq> s_id c" using Cons.prems(3) by auto
        moreover have "x \<in> set (steps d)" using x Cons.prems(4) by auto
        ultimately show "x \<in> set (steps d1)" unfolding d1 by (force simp: sql_update_def)
      qed
    qed (use Cons.prems(2,3) in auto)
    ultimately show ?thesis by (rule mirror_step_trans)
  qed
qed simp

lemma reopen_mirror:
  assumes "ReopenNodeTx marshal None now req d = Inr d'"
  shows "mirror_step d d'"
  unfolding mirror_step_def
proof
  assume m: "mirrored d"
  show "mirrored d'"
    using assms
  proof (cases rule: reopen_cases)
    case (1 s fam q d1 d2)
    have s: "s \<in> set (steps d)" "s_id s = ro_StepID req" using find_set [OF 1(1)] by auto
    have "mirror_step d d1" by (rule reopen_one_mirror [OF 1(8) s(1) 1(4) s(2) resolve_fam [OF 1(7)]])
    with m have m1: "mirrored d1" by (simp add: mirror_step_def)
    have "mirror_step d1 d2"
    proof (cases "d2 = d1")
      case False
      let ?cs = "sort_key s_id (filter (\<lambda>x. s_run x = ro_RunID req \<and> s_generation x = s_generation s \<and>
            s_type x = StepAIAnalysis \<and> s_status x = S_skipped \<and>
            list_ex (\<lambda>e. d_step e = s_id x \<and> d_on e = ro_StepID req \<and> d_kind e = DependencySuccess) (deps d1))
          (steps d1))"
      have c: "cascade_each now req (ro_StepID req) (s_generation s) ?cs d1 = Inr d2"
        using 1(9) False by (simp add: cascadeRecognitionSkippedAI_def)
      have dist: "distinct (map s_id ?cs)"
      proof -
        have "distinct (step_ids d1)" using m1 by (simp add: mirrored_def links_ok_def)
        then have "distinct (map s_id (filter P (steps d1)))" for P by (simp add: step_ids_def distinct_map_filter)
        then show ?thesis by (simp add: distinct_map)
      qed
      show ?thesis by (rule cascade_mirror [OF c _ dist]) (auto simp: reopenable_def)
    qed simp
    with m1 finalize_mirror [OF 1(10)] show ?thesis by (simp add: mirror_step_def)
  qed
qed

lemma run_step_mirror: "run_step d d' \<Longrightarrow> mirror_step d d'"
  by (erule run_stepE) (blast intro: finalize_mirror aggregate_mirror cancel_run_mirror supersede_mirror
      complete_prepare_mirror claim_mirror reopen_mirror)+

section \<open>Planning\<close>

text \<open>The ids of steps are below the next one.\<close>

definition ids_below :: "db \<Rightarrow> bool" where
  "ids_below d \<longleftrightarrow> (\<forall>i \<in> set (step_ids d). i < next_step d)"

text \<open>A new step with its rows.\<close>

lemma mirror_extend:
  assumes m: "mirrored d" and b: "ids_below d"
    and st: "steps d' = steps d @ [s]" "s_id s = next_step d" "next_step d' = next_step d + 1"
    and po: "posts d' = posts d @ qs" "scrapes d' = scrapes d @ ss" "transcodes d' = transcodes d @ ts"
    and nq: "next_queue d \<le> next_queue d'"
    and step: "\<And>q. q \<in> set qs \<union> set ss \<union> set ts \<Longrightarrow> q_step q = Some (s_id s)"
    and qs: "qs = [] \<or> (\<exists>q. qs = [q] \<and> q_run q = Some (s_run s) \<and> q_generation q = Some (s_generation s) \<and>
      is_post (s_type s) \<and> mirrors q s \<and> q_id q = next_queue d \<and> q_id q < next_queue d')"
    and ss: "ss \<noteq> [] \<Longrightarrow> s_type s = StepScrape" and ts: "ts \<noteq> [] \<Longrightarrow> s_type s = StepPrepare"
  shows "mirrored d' \<and> ids_below d'"
proof -
  have l: "links_ok d" using m by (simp add: mirrored_def)
  have ids: "step_ids d' = step_ids d @ [s_id s]" by (simp add: step_ids_def st(1))
  have fresh: "s_id s \<notin> set (step_ids d)" using b st(2) by (auto simp: ids_below_def)
  have old: "\<not> tied q s" if "q \<in> set (posts d) \<union> set (scrapes d) \<union> set (transcodes d)" for q
  proof
    assume "tied q s"
    then have "s_id s \<in> set (step_ids d)" using l that unfolding links_ok_def tied_def by blast
    with fresh show False by simp
  qed
  have new: "s' = s" if "q \<in> set qs \<union> set ss \<union> set ts" "s' \<in> set (steps d')" "tied q s'" for q s'
  proof -
    have "s_id s' = s_id s" using step [OF that(1)] that(3) by (simp add: tied_def)
    have "s' \<notin> set (steps d)"
    proof
      assume "s' \<in> set (steps d)"
      then have "s_id s' \<in> set (step_ids d)" by (simp add: step_ids_def)
      with \<open>s_id s' = s_id s\<close> fresh show False by simp
    qed
    with that(2) show ?thesis by (simp add: st(1))
  qed
  have 1: "q_run q = Some (s_run x) \<and> q_generation q = Some (s_generation x) \<and> is_post (s_type x) \<and> mirrors q x"
    if a: "q \<in> set (posts d')" "x \<in> set (steps d')" "tied q x" for q x
  proof (cases "q \<in> set (posts d)")
    case True
    then have "x \<in> set (steps d)" using old a by (auto simp: st(1))
    with True a(3) m l show ?thesis unfolding mirrored_def links_ok_def by blast
  next
    case False
    then have q: "q \<in> set qs" using a(1) by (simp add: po(1))
    then have "x = s" using new a(2,3) by blast
    with qs q show ?thesis by auto
  qed
  have 2: "s_type x = StepScrape" if a: "q \<in> set (scrapes d')" "x \<in> set (steps d')" "tied q x" for q x
  proof (cases "q \<in> set (scrapes d)")
    case True
    then have "x \<in> set (steps d)" using old a by (auto simp: st(1))
    with True a(3) l show ?thesis unfolding links_ok_def by blast
  next
    case False
    then have q: "q \<in> set ss" using a(1) by (simp add: po(2))
    then have "x = s" using new a(2,3) by blast
    then show ?thesis using ss q by (cases ss) simp_all
  qed
  have 3: "s_type x = StepPrepare" if a: "q \<in> set (transcodes d')" "x \<in> set (steps d')" "tied q x" for q x
  proof (cases "q \<in> set (transcodes d)")
    case True
    then have "x \<in> set (steps d)" using old a by (auto simp: st(1))
    with True a(3) l show ?thesis unfolding links_ok_def by blast
  next
    case False
    then have q: "q \<in> set ts" using a(1) by (simp add: po(3))
    then have "x = s" using new a(2,3) by blast
    then show ?thesis using ts q by (cases ts) simp_all
  qed
  have 4: "i \<in> set (step_ids d')"
    if a: "q \<in> set (posts d') \<union> set (scrapes d') \<union> set (transcodes d')" "q_step q = Some i" for q i
  proof (cases "q \<in> set (posts d) \<union> set (scrapes d) \<union> set (transcodes d)")
    case True
    then have "i \<in> set (step_ids d)" using l a(2) unfolding links_ok_def by blast
    then show ?thesis by (simp add: ids)
  next
    case False
    then have "q_step q = Some (s_id s)" using a(1) by (intro step) (auto simp: po)
    with a(2) show ?thesis by (simp add: ids)
  qed
  have 5: "distinct (tied_ids (posts d'))"
  proof -
    have sub: "set (tied_ids (posts d)) \<subseteq> set (step_ids d)"
    proof
      fix i assume "i \<in> set (tied_ids (posts d))"
      then obtain q where "q \<in> set (posts d)" "q_step q = Some i" by (auto simp: tied_ids_def)
      then show "i \<in> set (step_ids d)" using l unfolding links_ok_def by blast
    qed
    have t: "tied_ids (posts d') = tied_ids (posts d) @ tied_ids qs" by (simp add: tied_ids_def po(1))
    have D: "distinct (tied_ids (posts d))" using l by (simp add: links_ok_def)
    have nil: "tied_ids [] = []" by (simp add: tied_ids_def)
    from qs show ?thesis
    proof (elim disjE exE conjE)
      assume "qs = []" then show ?thesis using D by (simp add: t nil)
    next
      fix q assume q: "qs = [q]"
      then have "tied_ids qs = [s_id s]" using step [of q] by (simp add: tied_ids_def)
      then show ?thesis using D sub fresh by (auto simp: t)
    qed
  qed
  have 6: "distinct (map q_id (posts d')) \<and> (\<forall>q \<in> set (posts d'). q_id q < next_queue d')"
    using qs l nq by (force simp: po(1) links_ok_def)
  have 7: "distinct (step_ids d')" using l fresh by (simp add: ids links_ok_def)
  have "links_ok d'" unfolding links_ok_def using 1 2 3 4 5 6 7 by blast
  then have "mirrored d'" using 1 by (simp add: mirrored_def)
  moreover have "ids_below d'" using b st(2) unfolding ids_below_def ids st(3) by force
  ultimately show ?thesis by blast
qed

lemma insert_scrape_cases:
  "insert_scrape q d = d \<or> insert_scrape q d = d\<lparr>scrapes := scrapes d @ [q], next_queue := next_queue d + 1\<rparr>"
  by (simp add: insert_scrape_def)

lemma insert_step_mirror:
  assumes i: "insert_step (new_step now plan gen runID (next_step d) step) d = Inr d1"
    and e: "enqueue_step opts now plan gen runID (next_step d) step d1 = Inr d2"
    and frame: "prepare_frame opts" and m: "mirrored d" "ids_below d"
  shows "mirrored d2 \<and> ids_below d2"
proof -
  let ?s = "new_step now plan gen runID (next_step d) step"
  have d1: "d1 = d\<lparr>steps := steps d @ [?s], next_step := next_step d + 1\<rparr>"
    using i by (simp add: insert_step_def split: if_split_asm)
  note X = mirror_extend [OF m, where s = ?s and d' = d2]
  consider "step = StepPrepare" | "step = StepScrape" "step \<noteq> StepPrepare"
    | "\<not> queueBacked step" "step \<noteq> StepPrepare" "step \<noteq> StepScrape" | "is_post step"
    by (auto simp: is_post_def)
  then show ?thesis
  proof cases
    case 1
    obtain f where f: "opt_PreparePlanner opts = Some f"
      "f d1 (plan_mediaID plan) runID (next_step d) gen = Some d2"
      using e 1 by (auto simp: enqueue_step_def split: option.splits)
    then obtain ts js n where d2: "d2 = d1\<lparr>transcodes := transcodes d1 @ ts, jobs := js, next_queue := n\<rparr>"
      "next_queue d1 \<le> n" "\<forall>t \<in> set ts. q_step t = Some (next_step d)"
      using frame unfolding prepare_frame_def by metis
    show ?thesis by (rule X [where qs = "[]" and ss = "[]" and ts = ts]) (use d2 1 in \<open>simp_all add: d1\<close>)
  next
    case 2
    let ?q = "new_scrape now plan gen runID (next_step d) (next_queue d1)"
    have E: "d2 = insert_scrape ?q d1" using e 2 by (simp add: enqueue_step_def)
    have "d2 = d1 \<or> d2 = d1\<lparr>scrapes := scrapes d1 @ [?q], next_queue := next_queue d1 + 1\<rparr>"
      unfolding E by (rule insert_scrape_cases)
    then show ?thesis
    proof
      assume same: "d2 = d1"
      show ?thesis by (rule X [where qs = "[]" and ss = "[]" and ts = "[]"], unfold same d1) simp_all
    next
      assume more: "d2 = d1\<lparr>scrapes := scrapes d1 @ [?q], next_queue := next_queue d1 + 1\<rparr>"
      show ?thesis by (rule X [where qs = "[]" and ss = "[?q]" and ts = "[]"], unfold more d1)
        (simp_all add: new_scrape_def 2)
    qed
  next
    case 3
    then have same: "d2 = d1" using e by (simp add: enqueue_step_def)
    show ?thesis by (rule X [where qs = "[]" and ss = "[]" and ts = "[]"], unfold same d1) simp_all
  next
    case 4
    let ?q = "new_post now plan gen runID (next_step d) step (next_queue d1)"
    let ?d = "d1\<lparr>posts := posts d1 @ [?q], next_queue := next_queue d1 + 1\<rparr>"
    have "and_then (insert_post step ?q d1)
        (\<lambda>d. case EnsureDomainWaiting (executionTaskType step) (plan_mediaID plan) d of
                None \<Rightarrow> Inl (EnqueueConflict step) | Some d' \<Rightarrow> Inr d') = Inr d2"
      using e 4 by (simp add: enqueue_step_def is_post_def)
    then have dom: "EnsureDomainWaiting (executionTaskType step) (plan_mediaID plan) ?d = Some d2"
      by (auto simp: insert_post_def and_then_Inr_iff split: if_split_asm option.split_asm)
    have "d2 = ?d \<or> (\<exists>t. d2 = insert_domain t ?d)"
      using dom unfolding EnsureDomainWaiting_def Let_def
      by (simp split: if_split_asm option.split_asm prod.split_asm) blast+
    then have d2: "transcodes d2 = transcodes d" "next_queue d2 = next_queue d + 1"
      by (auto simp: d1 insert_domain_def)
    have "s_status ?s = S_waiting" using 4 by (auto simp: new_step_status planned_status_def)
    moreover have "s_retry_round ?s = 0" by (simp add: new_step_def Let_def)
    ultimately have mir: "mirrors ?q ?s" by (simp add: mirrors_def new_post_def Let_def)
    show ?thesis by (rule X [where qs = "[?q]" and ss = "[]" and ts = "[]"])
      (use 4 d2 mir ensure_domain_frame [OF dom] in \<open>simp_all add: d1 new_post_def Let_def\<close>)
  qed
qed

lemma insert_steps_mirror:
  assumes "insert_steps opts now plan gen runID ss ids d = Inr (ids', d')"
    and "prepare_frame opts" and "mirrored d" "ids_below d"
  shows "mirrored d' \<and> ids_below d'"
  using assms(1,3,4)
proof (induction ss arbitrary: ids d)
  case (Cons s ss)
  from Cons.prems(1) obtain d1 d2 where i: "insert_step (new_step now plan gen runID (next_step d) s) d = Inr d1"
    and e: "enqueue_step opts now plan gen runID (next_step d) s d1 = Inr d2"
    and rest: "insert_steps opts now plan gen runID ss (gput s (next_step d) ids) d2 = Inr (ids', d')"
    by (auto simp: Let_def and_then_Inr_iff)
  from insert_step_mirror [OF i e assms(2) Cons.prems(2,3)] Cons.IH [OF rest] show ?case by blast
qed simp

lemma mirrored_cong:
  assumes "posts d' = posts d" "steps d' = steps d" "scrapes d' = scrapes d" "transcodes d' = transcodes d"
    "next_queue d' = next_queue d"
  shows "mirrored d' = mirrored d"
  by (simp add: mirrored_def links_ok_def step_ids_def assms)

lemma persist_mirror:
  assumes p: "persistPlanTx opts now plan expected d = Inr (run, d')" and frame: "prepare_frame opts"
    and ok: "ingest_ok d" and m: "mirrored d"
  shows "mirrored d'"
proof -
  obtain d1 ids d2 where d1: "d1 = d\<lparr>medias := sql_update (\<lambda>m. m_id m = plan_mediaID plan \<and> m_generation m = expected)
       (advance_generation plan expected) (medias d),
      runs := runs d @ [new_run plan (expected + 1) (next_run d)], next_run := next_run d + 1\<rparr>"
    and i: "insert_steps opts now plan (expected + 1) (next_run d) (plan_steps plan) [] d1 = Inr (ids, d2)"
    and e: "insertDependenciesTx (plan_dependencies plan) ids (plan_mediaID plan) (expected + 1) (next_run d) d2 = Inr d'"
    by (rule persist_cases [OF p]) blast
  have "mirrored d1" using m by (subst mirrored_cong [of d1 d]) (simp_all add: d1)
  moreover have "ids_below d1" using ok by (auto simp: d1 ids_below_def step_ids_def ingest_ok_def)
  ultimately have "mirrored d2" using insert_steps_mirror [OF i frame] by blast
  moreover have "d' = d2\<lparr>deps := deps d2 @ map (dep_row_of ids) (plan_dependencies plan)\<rparr>"
    using insert_dependencies_result [OF e] by blast
  ultimately show ?thesis by (subst mirrored_cong [of d' d2]) simp_all
qed

lemma ingest_step_mirror: "ingest_step d d' \<Longrightarrow> mirrored d \<Longrightarrow> mirrored d'"
proof (induction rule: ingest_step.induct)
  case (planned opts now media d r d')
  from planned(1) show ?case
    by (rule new_media_persists) (use planned persist_mirror in blast)+
next
  case (replaced opts now mediaID ro d r d')
  from replaced(1) show ?case
  proof (rule replacement_persists)
    fix plan run d1
    assume p: "persistPlanTx opts now plan (ro_OldGeneration ro) d = Inr (run, d1)"
      and s: "supersedeGeneration now mediaID (ro_OldGeneration ro) (run_Generation run) d1 = Inr d'"
    from persist_mirror [OF p replaced(3,2,4)] supersede_mirror [OF s] show ?thesis
      by (simp add: mirror_step_def)
  qed (use replaced in simp)
next
  case (ran d d')
  then show ?case using run_step_mirror by (simp add: mirror_step_def)
qed


lemma ingest_history_mirror: "ingest_step\<^sup>*\<^sup>* d d' \<Longrightarrow> mirrored d \<Longrightarrow> mirrored d'"
  by (induction rule: rtranclp_induct) (auto dest: ingest_step_mirror)

text \<open>C0: The queue mirrors the plan. Whatever sequence of plans, replacements, claims,
  finalisations, cancellations, supersessions, prepare completions and reopenings is executed, a
  post-ingest task that waits or runs belongs to the run and generation of its step, and the step
  has the same status and the same retry round: there is no active task of a step that was
  cancelled, skipped, superseded or reopened behind its back.\<close>

theorem queue_mirrors_steps:
  assumes "ingest_step\<^sup>*\<^sup>* d d'" and "mirrored d"
    and "q \<in> set (posts d')" and "q_status q = S_waiting \<or> q_status q = S_running"
    and "s \<in> set (steps d')" and "q_step q = Some (s_id s)"
  shows "s_status s = q_status q \<and> s_retry_round s = q_retry_round q \<and>
    q_run q = Some (s_run s) \<and> q_generation q = Some (s_generation s)"
proof -
  have "mirrored d'" by (rule ingest_history_mirror [OF assms(1,2)])
  moreover have "tied q s" using assms(6) by (simp add: tied_def)
  ultimately show ?thesis
    using assms(3-5) unfolding mirrored_def links_ok_def mirrors_def by blast
qed

lemma sample_ready_mirrored: "mirrored sample_ready_db"
  by (simp add: mirrored_def links_ok_def tied_def tied_ids_def mirrors_def step_ids_def is_post_def
      sample_ready_db_def sample_defs step_names queueBacked_def)

lemma sample_ready_claimed:
  "\<exists>got d'. updateFamilyClaim QueuePostIngest StepAIAnalysis 9 3 ''w'' sample_ready_db = Inr (Some got, d') \<and>
     (\<exists>q \<in> set (posts d'). q_step q = Some 4 \<and> q_status q = S_running) \<and>
     (\<exists>s \<in> set (steps d'). s_id s = 4)"
proof -
  have f: "find (\<lambda>q. q_id q = 3 \<and> claimable QueuePostIngest StepAIAnalysis 9 sample_ready_db q)
      (queue_rows QueuePostIngest sample_ready_db) = Some (sample_queue 3 4 StepAIAnalysis S_waiting)"
    using sample_ready_claimable
    by (simp add: queue_rows_def sample_ready_db_def sample_defs)
  show ?thesis
    unfolding updateFamilyClaim_def Let_def f option.case
    using sample_ready_claimable
    by (simp add: claim_row_def sample_ready_db_def sample_defs
        sql_affected_def sql_update_def set_queue_def queue_rows_def claim_step_def
        FinalizeClaimTransitionTx_def RecomputePlanCompletionTx_def run_by_id_def
        completion_of_def malformed_counts_def count_status_def terminal_statuses_def step_names)
qed

theorem queue_mirrors_steps_witness:
  "\<exists>d'. ingest_step\<^sup>*\<^sup>* sample_ready_db d' \<and>
     (\<exists>q \<in> set (posts d'). \<exists>s \<in> set (steps d'). s_id s = 4 \<and> q_step q = Some 4 \<and>
        q_status q = S_running \<and> s_status s = S_running \<and> q_generation q = Some (s_generation s))"
proof -
  obtain got d' where c: "updateFamilyClaim QueuePostIngest StepAIAnalysis 9 3 ''w'' sample_ready_db = Inr (got, d')"
    and q: "\<exists>q \<in> set (posts d'). q_step q = Some 4 \<and> q_status q = S_running"
    and s: "\<exists>s \<in> set (steps d'). s_id s = 4"
    using sample_ready_claimed by blast
  have r: "ingest_step\<^sup>*\<^sup>* sample_ready_db d'"
    using ingest_step.ran [OF run_step.claimed [OF c]] by blast
  from q s obtain q s where "q \<in> set (posts d')" "q_step q = Some 4" "q_status q = S_running"
    "s \<in> set (steps d')" "s_id s = 4" by blast
  with queue_mirrors_steps [OF r sample_ready_mirrored, of q s] r show ?thesis by auto
qed

end
