(* ===== verification/Queue_Worker.thy ===== *)
theory Queue_Worker
  imports Sched_Admission Queue_Mirror
begin

text \<open>
  The workers' side of the post-ingest queue (\<open>internal/postingest/types.go\<close>, \<open>queue.go\<close>):
  enqueueing a task, the task built from a claim, renewing its lease, completing it, failing it,
  recovering the tasks of lost workers and cancelling those of a scan, each on the ingest tables
  and the scheduler's reservations together (\<open>work\<close>).

  A worker statement carries an ownership fence (\<open>task_fence\<close>); after it the code copies the task
  onto its step (\<open>mirrorLinkedStepTx\<close>) and finalises the run. The locale \<open>worker_contract\<close> is what
  such an operation has to keep, on tables in which tasks and steps agree (\<open>kept\<close>); it is
  interpreted on every operation. \<open>work_step\<close> is the relation of all transactions, the planner's,
  the claims' and the workers'.

  \<open>uuid_ok\<close> stands for the parser of the \<open>uuid\<close> package, and \<open>lapsed\<close> for the comparison of a lease
  the database driver stored with the text of the current time. The hooks that tests install
  (\<open>renewLeaseAttempt\<close>, \<open>beforeFailTransition\<close>) are absent. A statement that the database
  refuses for other reasons than a constraint is outside the model, as is \<open>WithBusyRetry\<close>, which
  repeats a transaction that was rolled back.
\<close>

section \<open>Tasks\<close>

definition TaskPoster :: string where "TaskPoster = ''poster''"
definition TaskPosterRepair :: string where "TaskPosterRepair = ''poster_repair''"
definition TaskThumbnail :: string where "TaskThumbnail = ''thumbnail''"
definition TaskPreview :: string where "TaskPreview = ''preview''"
definition TaskKeyframe :: string where "TaskKeyframe = ''keyframe''"
definition TaskSubtitle :: string where "TaskSubtitle = ''subtitle''"
definition TaskAtrack :: string where "TaskAtrack = ''atrack''"
definition TaskEncrypt :: string where "TaskEncrypt = ''encrypt''"
definition TaskSubtitleRecognize :: string where "TaskSubtitleRecognize = ''subtitle_recognize''"
definition TaskAIAnalysis :: string where "TaskAIAnalysis = ''ai_analysis''"

lemmas task_names = TaskPoster_def TaskPosterRepair_def TaskThumbnail_def TaskPreview_def
  TaskKeyframe_def TaskSubtitle_def TaskAtrack_def TaskEncrypt_def TaskSubtitleRecognize_def
  TaskAIAnalysis_def

definition FailureRetryable :: int where "FailureRetryable = 0"
definition FailurePermanent :: int where "FailurePermanent = 1"
definition FailureCancelled :: int where "FailureCancelled = 2"
definition FailureShutdown :: int where "FailureShutdown = 3"

lemmas failure_kinds = FailureRetryable_def FailurePermanent_def FailureCancelled_def
  FailureShutdown_def

text \<open>The columns of a \<open>Task\<close> that the queue operations read.\<close>

record Task =
  task_ID :: int
  task_MediaID :: int
  task_ScanTaskID :: "int option"
  task_RunID :: "int option"
  task_StepID :: "int option"
  task_Type :: string
  task_Status :: status
  task_Attempts :: int
  task_MaxAttempts :: int
  task_Generation :: int
  task_RetryRound :: int
  task_LeaseOwner :: string
  task_LeaseUntil :: "int option"
  task_SourceClass :: int
  task_BasePriority :: int
  task_LibraryID :: "int option"
  task_ExecutionID :: string

text \<open>What the workers share: the ingest tables, the scheduler tables, and the trace of the
  plaintext temporary files given back, by media, generation and task.\<close>

record work =
  work_db :: db
  work_sched :: SchedDB
  work_temps :: "(int \<times> int \<times> int) list"

datatype QueueError =
    OwnerNotConfigured
  | OwnerInvalid string
  | MediaIDInvalid int
  | TaskTypeInvalid string
  | ScanTaskIDInvalid int
  | TaskIDInvalid int
  | AttemptsInvalid int int
  | TokenForeign int string string
  | TokenMalformed int string
  | FailureKindInvalid int
  | ScanMissing int
  | TaskMissing int
  | CannotInStatus string int status
  | TokenMismatch string int "string option" string
  | PublicationFailed IngestError
  | SchedulerFailed store_error

section \<open>Validation\<close>

definition validate :: "bool \<Rightarrow> string \<Rightarrow> QueueError + unit" where
  "validate needOwner queueOwner =
    (if \<not> needOwner then Inr ()
     else
       (let owner = TrimSpace queueOwner in
        if owner = [] then Inl OwnerNotConfigured
        else if owner \<noteq> queueOwner \<or> CHR ''/'' \<in> set owner then Inl (OwnerInvalid queueOwner)
        else Inr ()))"

definition validTaskType :: "string \<Rightarrow> bool" where
  "validTaskType typ \<longleftrightarrow> typ \<in> set [TaskPoster, TaskPosterRepair, TaskThumbnail, TaskPreview,
     TaskKeyframe, TaskSubtitle, TaskAtrack, TaskEncrypt, TaskSubtitleRecognize, TaskAIAnalysis]"

definition validateTaskType :: "string \<Rightarrow> QueueError + unit" where
  "validateTaskType typ = (if validTaskType typ then Inr () else Inl (TaskTypeInvalid typ))"

definition validateScanTaskID :: "int option \<Rightarrow> QueueError + unit" where
  "validateScanTaskID i =
    (case i of None \<Rightarrow> Inr () | Some n \<Rightarrow> if n \<le> 0 then Inl (ScanTaskIDInvalid n) else Inr ())"

text \<open>\<open>strings.Cut(s, /)\<close>\<close>

definition cut_slash :: "string \<Rightarrow> string \<times> string \<times> bool" where
  "cut_slash s =
    (case dropWhile (\<lambda>c. c \<noteq> CHR ''/'') s of
       [] \<Rightarrow> (s, [], False)
     | _ # after \<Rightarrow> (takeWhile (\<lambda>c. c \<noteq> CHR ''/'') s, after, True))"

text \<open>\<open>uuid_ok token\<close>: \<open>uuid.Parse\<close> accepts the token and prints it back unchanged.\<close>

definition validateClaimedTask :: "(string \<Rightarrow> bool) \<Rightarrow> string \<Rightarrow> Task \<Rightarrow> QueueError + unit" where
  "validateClaimedTask uuid_ok queueOwner t =
    (if task_ID t \<le> 0 then Inl (TaskIDInvalid (task_ID t))
     else if task_Attempts t \<le> 0 then Inl (AttemptsInvalid (task_ID t) (task_Attempts t))
     else
       (case cut_slash (task_LeaseOwner t) of
          (owner, token, found) \<Rightarrow>
            if \<not> found \<or> owner \<noteq> queueOwner \<or> token = [] \<or> CHR ''/'' \<in> set token
            then Inl (TokenForeign (task_ID t) (task_LeaseOwner t) queueOwner)
            else if \<not> uuid_ok token then Inl (TokenMalformed (task_ID t) (task_LeaseOwner t))
            else Inr ()))"

text \<open>The checks at the head of \<open>Renew\<close>, \<open>Complete\<close> and \<open>Fail\<close>.\<close>

definition check_claimed :: "(string \<Rightarrow> bool) \<Rightarrow> string \<Rightarrow> Task \<Rightarrow> QueueError + unit" where
  "check_claimed uuid_ok queueOwner t =
    and_then (validate True queueOwner) (\<lambda>_. validateClaimedTask uuid_ok queueOwner t)"

section \<open>The ownership fence\<close>

text \<open>The subquery of the worker statements: the linked step runs under the same lease, its run
  was not superseded, and the media is still in the generation of the task.\<close>

definition linked_running :: "db \<Rightarrow> queue_row \<Rightarrow> bool" where
  "linked_running d q \<longleftrightarrow>
    list_ex (\<lambda>st. q_step q = Some (s_id st) \<and> s_status st = S_running \<and>
       q_lease_owner q \<noteq> None \<and> s_lease_owner st = q_lease_owner q \<and>
       q_run q = Some (s_run st) \<and> s_media st = q_media q \<and> q_generation q = Some (s_generation st) \<and>
       list_ex (\<lambda>r. r_id r = s_run st \<and> r_superseded_at r = None \<and> r_superseded_by r = None) (runs d) \<and>
       list_ex (\<lambda>m. m_id m = s_media st \<and> q_generation q = Some (m_generation m)) (medias d))
     (steps d)"

definition task_fence :: "db \<Rightarrow> Task \<Rightarrow> queue_row \<Rightarrow> bool" where
  "task_fence d t q \<longleftrightarrow>
    q_id q = task_ID t \<and> q_status q = S_running \<and> q_lease_owner q = Some (task_LeaseOwner t) \<and>
    ((q_run q = None \<and> q_step q = None \<and> task_RunID t = None \<and> task_StepID t = None) \<or>
     (task_RunID t \<noteq> None \<and> q_run q = task_RunID t \<and> task_StepID t \<noteq> None \<and>
      q_step q = task_StepID t \<and> q_generation q = Some (task_Generation t) \<and>
      q_retry_round q = task_RetryRound t \<and> q_media q = task_MediaID t \<and> linked_running d q))"

definition posterRepairTask :: "Task \<Rightarrow> bool" where
  "posterRepairTask t \<longleftrightarrow> task_Type t = TaskPosterRepair \<and> task_RunID t \<noteq> None \<and>
     task_StepID t = None \<and> 0 < task_Generation t"

definition posterRepairLifecyclePredicate :: "db \<Rightarrow> Task \<Rightarrow> queue_row \<Rightarrow> bool" where
  "posterRepairLifecyclePredicate d t q \<longleftrightarrow>
    q_id q = task_ID t \<and> q_media q = task_MediaID t \<and> q_type q = TaskPosterRepair \<and>
    q_status q = S_running \<and> q_lease_owner q = Some (task_LeaseOwner t) \<and>
    q_attempts q = task_Attempts t \<and> task_RunID t \<noteq> None \<and> q_run q = task_RunID t \<and>
    q_step q = None \<and> q_generation q = Some (task_Generation t) \<and>
    list_ex (\<lambda>m. m_id m = q_media q \<and> q_generation q = Some (m_generation m) \<and>
        m_state m \<in> {StatePublished, StateDegraded} \<and> m_published_at m \<noteq> None) (medias d) \<and>
    list_ex (\<lambda>r. q_run q = Some (r_id r) \<and> r_media r = q_media q \<and>
        q_generation q = Some (r_generation r) \<and> r_superseded_at r = None \<and>
        r_superseded_by r = None) (runs d)"

definition post_by_id :: "db \<Rightarrow> int \<Rightarrow> queue_row option" where
  "post_by_id d i = find (\<lambda>q. q_id q = i) (posts d)"

definition ownerWriteError :: "db \<Rightarrow> int \<Rightarrow> string \<Rightarrow> string \<Rightarrow> QueueError" where
  "ownerWriteError d taskID leaseToken operation =
    (case post_by_id d taskID of
       None \<Rightarrow> TaskMissing taskID
     | Some q \<Rightarrow>
         if q_status q \<noteq> S_running then CannotInStatus operation taskID (q_status q)
         else TokenMismatch operation taskID (q_lease_owner q) leaseToken)"

section \<open>The linked step\<close>

definition mirror_columns :: "queue_row \<Rightarrow> step_row \<Rightarrow> step_row" where
  "mirror_columns q s =
    s\<lparr>s_status := q_status q, s_attempts := q_attempts q, s_max_attempts := q_max_attempts q,
      s_retry_round := q_retry_round q, s_error := q_error q, s_lease_owner := q_lease_owner q,
      s_lease_until := q_lease_until q, s_started := q_started q, s_finished := q_finished q\<rparr>"

definition mirrorLinkedStepTx :: "int \<Rightarrow> db \<Rightarrow> QueueError + int option \<times> db" where
  "mirrorLinkedStepTx taskID d =
    (case post_by_id d taskID of
       None \<Rightarrow> Inl (TaskMissing taskID)
     | Some q \<Rightarrow>
         Inr (q_run q, d\<lparr>steps := sql_update (\<lambda>s. q_step q = Some (s_id s)) (mirror_columns q) (steps d)\<rparr>))"

definition syncLinkedStepLeaseTx :: "int \<Rightarrow> db \<Rightarrow> QueueError + db" where
  "syncLinkedStepLeaseTx taskID d = and_then (mirrorLinkedStepTx taskID d) (\<lambda>(_, d). Inr d)"

definition syncLinkedStepTx ::
  "(impossibleDependencyReason \<Rightarrow> string) \<Rightarrow> barrier_hook \<Rightarrow> int \<Rightarrow> int \<Rightarrow> db \<Rightarrow> QueueError + db" where
  "syncLinkedStepTx marshal hook now taskID d =
    and_then (mirrorLinkedStepTx taskID d)
      (\<lambda>(runID, d). case runID of None \<Rightarrow> Inr d
         | Some r \<Rightarrow> map_sum PublicationFailed id (FinalizeNodeTransitionTx marshal hook now r d))"

section \<open>Enqueueing\<close>

text \<open>A task without a plan, in the generation of its media.\<close>

definition Enqueue :: "int \<Rightarrow> int \<Rightarrow> int option \<Rightarrow> string \<Rightarrow> db \<Rightarrow> QueueError + bool \<times> db" where
  "Enqueue now mediaID scanTaskID typ d =
    (if mediaID \<le> 0 then Inl (MediaIDInvalid mediaID)
     else and_then (validateTaskType typ) (\<lambda>_. and_then (validateScanTaskID scanTaskID) (\<lambda>_.
       (case media_by_id d mediaID of
          None \<Rightarrow> Inr (False, d)
        | Some m \<Rightarrow>
            if list_ex (\<lambda>x. q_media x = mediaID \<and> q_generation x = Some (m_generation m) \<and> q_type x = typ)
                 (posts d)
            then Inr (False, d)
            else Inr (True, d\<lparr>posts := posts d @
                   [\<lparr>q_id = next_queue d, q_media = mediaID, q_scan_task = scanTaskID, q_run = None,
                     q_step = None, q_generation = Some (m_generation m), q_type = typ,
                     q_status = S_waiting, q_attempts = 0, q_max_attempts = DefaultMaxAttempts typ,
                     q_retry_round = 0, q_lease_owner = None, q_lease_until = None,
                     q_error = no_error, q_started = None, q_finished = None, q_available = now,
                     q_removed = None, q_priority = 0, q_source_class = 200, q_base_priority = 200,
                     q_library = Some (m_library m), q_progress = 0\<rparr>],
                 next_queue := next_queue d + 1\<rparr>)))))"

section \<open>From a claim to a task\<close>

text \<open>The check that the claimed row is still held, and the task built from the claimed row.\<close>

definition still_owned :: "db \<Rightarrow> queue_row \<Rightarrow> string \<Rightarrow> queue_row \<Rightarrow> bool" where
  "still_owned d p owner q \<longleftrightarrow>
    q_id q = q_id p \<and> q_status q = S_running \<and> q_lease_owner q = Some owner \<and>
    ((q_run q = None \<and> q_step q = None \<and> q_run p = None \<and> q_step p = None) \<or>
     (q_run p \<noteq> None \<and> q_run q = q_run p \<and> q_step p \<noteq> None \<and> q_step q = q_step p \<and>
      q_generation q = Some (case q_generation p of None \<Rightarrow> 0 | Some g \<Rightarrow> g) \<and>
      q_retry_round q = q_retry_round p \<and> q_media q = q_media p \<and> linked_running d q))"

definition repair_owned :: "db \<Rightarrow> queue_row \<Rightarrow> string \<Rightarrow> queue_row \<Rightarrow> bool" where
  "repair_owned d p owner q \<longleftrightarrow>
    q_id q = q_id p \<and> q_type q = TaskPosterRepair \<and> q_status q = S_running \<and>
    q_lease_owner q = Some owner \<and> q_step q = None \<and>
    list_ex (\<lambda>m. m_id m = q_media q \<and> q_generation q = Some (m_generation m) \<and>
        m_state m \<in> {StatePublished, StateDegraded} \<and> m_published_at m \<noteq> None) (medias d) \<and>
    list_ex (\<lambda>r. q_run q = Some (r_id r) \<and> r_media r = q_media q \<and>
        q_generation q = Some (r_generation r) \<and> r_superseded_at r = None \<and>
        r_superseded_by r = None) (runs d)"

definition taskFromClaimPayload :: "queue_row \<Rightarrow> string \<Rightarrow> string option \<Rightarrow> db \<Rightarrow> Task option" where
  "taskFromClaimPayload p owner admitted d =
    (let stillOwned = sql_affected (still_owned d p owner) (posts d);
         stillOwned = (if stillOwned \<noteq> 1 \<and> q_type p = TaskPosterRepair
                       then sql_affected (repair_owned d p owner) (posts d) else stillOwned)
     in
     if stillOwned \<noteq> 1 then None
     else Some
       \<lparr>task_ID = q_id p, task_MediaID = q_media p, task_ScanTaskID = q_scan_task p,
        task_RunID = q_run p, task_StepID = q_step p, task_Type = q_type p,
        task_Status = S_running, task_Attempts = q_attempts p, task_MaxAttempts = q_max_attempts p,
        task_Generation = (case q_generation p of None \<Rightarrow> 0 | Some g \<Rightarrow> g),
        task_RetryRound = q_retry_round p, task_LeaseOwner = owner,
        task_LeaseUntil = q_lease_until p, task_SourceClass = q_source_class p,
        task_BasePriority = q_base_priority p, task_LibraryID = q_library p,
        task_ExecutionID = (case admitted of None \<Rightarrow> [] | Some e \<Rightarrow> e)\<rparr>)"


section \<open>Renewing a lease\<close>

definition leaseDuration :: duration where "leaseDuration = 90 * second"

text \<open>The seconds of a point in time, which \<open>CURRENT_TIMESTAMP\<close> prints.\<close>

definition seconds :: "time \<Rightarrow> int" where "seconds now = now div second"

definition renew_row :: "time \<Rightarrow> queue_row \<Rightarrow> queue_row" where
  "renew_row now q = q\<lparr>q_lease_until := Some (seconds now + leaseDuration div second)\<rparr>"

definition set_posts :: "(queue_row \<Rightarrow> bool) \<Rightarrow> (queue_row \<Rightarrow> queue_row) \<Rightarrow> db \<Rightarrow> db" where
  "set_posts p f d = d\<lparr>posts := sql_update p f (posts d)\<rparr>"

definition renew_reservation :: "time \<Rightarrow> Task \<Rightarrow> SchedDB \<Rightarrow> SchedDB" where
  "renew_reservation now t s =
    (if task_ExecutionID t = [] then s else RenewReservationTx now (task_ExecutionID t) leaseDuration s)"

text \<open>The result tells whether the lease was renewed.\<close>

definition Renew ::
  "(string \<Rightarrow> bool) \<Rightarrow> string \<Rightarrow> time \<Rightarrow> Task \<Rightarrow> work \<Rightarrow> QueueError + bool \<times> work" where
  "Renew uuid_ok queueOwner now t w =
    and_then (check_claimed uuid_ok queueOwner t) (\<lambda>_.
      (let d = work_db w in
       if posterRepairTask t then
         (let p = posterRepairLifecyclePredicate d t;
              renewed = (sql_affected p (posts d) = 1);
              w = w\<lparr>work_db := set_posts p (renew_row now) d\<rparr>
          in
          Inr (renewed,
               if renewed then w\<lparr>work_sched := renew_reservation now t (work_sched w)\<rparr> else w))
       else
         (let p = task_fence d t;
              d' = set_posts p (renew_row now) d
          in
          if sql_affected p (posts d) = 1 then
            and_then (syncLinkedStepLeaseTx (task_ID t) d') (\<lambda>d'.
              Inr (True, w\<lparr>work_db := d', work_sched := renew_reservation now t (work_sched w)\<rparr>))
          else
            (case post_by_id d' (task_ID t) of
               None \<Rightarrow> Inl (TaskMissing (task_ID t))
             | Some q \<Rightarrow>
                 if q_status q = S_running then Inr (False, w\<lparr>work_db := d'\<rparr>)
                 else Inl (ownerWriteError d' (task_ID t) (task_LeaseOwner t) ''renew'')))))"

section \<open>Completing a task\<close>

text \<open>Releasing the reservation of a task. A reservation released before is no error.\<close>

definition releaseReservationIfNeeded ::
  "time \<Rightarrow> Task \<Rightarrow> string \<Rightarrow> SchedDB \<Rightarrow> QueueError + SchedDB" where
  "releaseReservationIfNeeded now t reason s =
    (if task_ExecutionID t = [] then Inr s
     else
       (case ReleaseReservationTx now (task_ExecutionID t) reason (task_LeaseOwner t) s of
          Inr s' \<Rightarrow> Inr s'
        | Inl (ReservationNotActive _) \<Rightarrow> Inr s
        | Inl e \<Rightarrow> Inl (SchedulerFailed e)))"

text \<open>\<open>releaseReservationDirect\<close> is the same in a transaction of its own; its callers drop the
  error.\<close>

definition releaseReservationDirect :: "time \<Rightarrow> Task \<Rightarrow> string \<Rightarrow> SchedDB \<Rightarrow> SchedDB" where
  "releaseReservationDirect now t reason s =
    (case releaseReservationIfNeeded now t reason s of Inl _ \<Rightarrow> s | Inr s' \<Rightarrow> s')"

definition releaseTaskPlaintextTemp :: "Task \<Rightarrow> work \<Rightarrow> work" where
  "releaseTaskPlaintextTemp t w =
    w\<lparr>work_temps := work_temps w @ [(task_MediaID t, task_Generation t, task_ID t)]\<rparr>"

definition scanCancelledMessage :: string where "scanCancelledMessage = ''scan cancelled''"

definition scan_cancelled :: "db \<Rightarrow> queue_row \<Rightarrow> bool" where
  "scan_cancelled d q \<longleftrightarrow> list_ex (\<lambda>s. q_scan_task q = Some (sc_id s) \<and> sc_cancelled s) (scans d)"

definition complete_row :: "time \<Rightarrow> db \<Rightarrow> queue_row \<Rightarrow> queue_row" where
  "complete_row now d q =
    q\<lparr>q_status := (if scan_cancelled d q then S_cancelled else S_done),
      q_lease_owner := None, q_lease_until := None,
      q_error := (if scan_cancelled d q then Text scanCancelledMessage else no_error),
      q_finished := Some (seconds now)\<rparr>"

definition complete_repair_row :: "time \<Rightarrow> queue_row \<Rightarrow> queue_row" where
  "complete_repair_row now q =
    q\<lparr>q_status := S_done, q_lease_owner := None, q_lease_until := None, q_error := no_error,
      q_finished := Some (seconds now)\<rparr>"

text \<open>A transaction that is rolled back leaves everything as it was: an error is returned with no
  state, and the caller keeps the old one.\<close>

definition Complete ::
  "(impossibleDependencyReason \<Rightarrow> string) \<Rightarrow> barrier_hook \<Rightarrow> (string \<Rightarrow> bool) \<Rightarrow> string \<Rightarrow> time \<Rightarrow> Task \<Rightarrow>
   work \<Rightarrow> QueueError + work" where
  "Complete marshal hook uuid_ok queueOwner now t w =
    and_then (check_claimed uuid_ok queueOwner t) (\<lambda>_.
      (let d = work_db w in
       if posterRepairTask t then
         (let p = posterRepairLifecyclePredicate d t;
              d' = set_posts p (complete_repair_row now) d
          in
          if sql_affected p (posts d) \<noteq> 1
          then Inl (ownerWriteError d' (task_ID t) (task_LeaseOwner t) ''complete'')
          else Inr ((releaseTaskPlaintextTemp t w)\<lparr>work_db := d',
                 work_sched := releaseReservationDirect now t ''complete'' (work_sched w)\<rparr>))
       else
         (let p = task_fence d t;
              d' = set_posts p (complete_row now d) d
          in
          if sql_affected p (posts d) \<noteq> 1
          then Inl (ownerWriteError d' (task_ID t) (task_LeaseOwner t) ''complete'')
          else
            and_then (releaseReservationIfNeeded now t ''complete'' (work_sched w)) (\<lambda>s.
              and_then (syncLinkedStepTx marshal hook (seconds now) (task_ID t) d') (\<lambda>d'.
                Inr (releaseTaskPlaintextTemp t (w\<lparr>work_db := d', work_sched := s\<rparr>)))))))"

section \<open>Failure texts\<close>

text \<open>\<open>utf8.ValidString\<close>.\<close>

definition byte :: "char \<Rightarrow> nat" where "byte c = of_char c"

definition cont :: "char \<Rightarrow> bool" where "cont c \<longleftrightarrow> 128 \<le> byte c \<and> byte c \<le> 191"

definition second_ok :: "nat \<Rightarrow> char \<Rightarrow> bool" where
  "second_ok b c \<longleftrightarrow>
    (if b = 224 then 160 \<le> byte c \<and> byte c \<le> 191
     else if b = 237 then 128 \<le> byte c \<and> byte c \<le> 159
     else if b = 240 then 144 \<le> byte c \<and> byte c \<le> 191
     else if b = 244 then 128 \<le> byte c \<and> byte c \<le> 143
     else cont c)"

text \<open>The number of bytes of the rune that starts with this byte; 0 when none does.\<close>

definition rune_size :: "char \<Rightarrow> nat" where
  "rune_size c =
    (if byte c < 128 then 1 else if byte c < 194 then 0 else if byte c < 224 then 2
     else if byte c < 240 then 3 else if byte c < 245 then 4 else 0)"

definition rune_ok :: "string \<Rightarrow> bool" where
  "rune_ok r \<longleftrightarrow>
    (case r of [] \<Rightarrow> False
     | [c] \<Rightarrow> rune_size c = 1
     | c # c1 # rest \<Rightarrow> rune_size c = length r \<and> second_ok (byte c) c1 \<and> list_all cont rest)"

function ValidString :: "string \<Rightarrow> bool" where
  "ValidString [] = True"
| "ValidString (c # cs) =
    (let n = rune_size c in
     0 < n \<and> rune_ok (take n (c # cs)) \<and> ValidString (drop (n - 1) cs))"
  by pat_completeness auto
termination by (relation "measure length") auto

function shrink_to_valid :: "string \<Rightarrow> string" where
  "shrink_to_valid s = (if ValidString s then s else shrink_to_valid (butlast s))"
  by pat_completeness auto
termination
proof (relation "measure length")
  fix s :: string assume "\<not> ValidString s"
  then have "s \<noteq> []" by auto
  then show "(butlast s, s) \<in> measure length" by simp
qed simp

declare shrink_to_valid.simps [simp del]

definition truncateUTF8 :: "string \<Rightarrow> nat \<Rightarrow> string" where
  "truncateUTF8 s n = (if length s \<le> n then s else shrink_to_valid (take n s))"

text \<open>A missing cause is \<open>None\<close>.\<close>

definition failureText :: "string option \<Rightarrow> string" where
  "failureText cause =
    (case cause of None \<Rightarrow> ''post-ingest task failed without an error''
     | Some s \<Rightarrow> truncateUTF8 s 4096)"

section \<open>Failing a task\<close>

definition failReservationReason :: "int \<Rightarrow> string" where
  "failReservationReason kind =
    (if kind = FailureRetryable then ''retryable_fail''
     else if kind = FailurePermanent then ''permanent_fail''
     else if kind = FailureCancelled then ''cancelled''
     else if kind = FailureShutdown then ''shutdown'' else ''failed'')"

definition fail_status :: "int \<Rightarrow> queue_row \<Rightarrow> status" where
  "fail_status kind q =
    (if kind = FailureCancelled then S_cancelled
     else if kind = FailureRetryable \<and> q_attempts q < q_max_attempts q then S_waiting
     else S_failed)"

definition fail_available :: "int \<Rightarrow> time \<Rightarrow> queue_row \<Rightarrow> int" where
  "fail_available kind now q =
    seconds now +
    (if kind \<noteq> FailureRetryable \<or> q_max_attempts q \<le> q_attempts q then 0
     else if q_attempts q = 1 then 5 else if q_attempts q = 2 then 30 else 120)"

definition fail_row :: "int \<Rightarrow> string \<Rightarrow> time \<Rightarrow> queue_row \<Rightarrow> queue_row" where
  "fail_row kind lastError now q =
    (if kind = FailureShutdown then q\<lparr>q_error := Text lastError\<rparr>
     else
       q\<lparr>q_status := fail_status kind q, q_available := fail_available kind now q,
         q_lease_owner := None, q_lease_until := None, q_error := Text lastError,
         q_finished := (if fail_status kind q = S_waiting then None else Some (seconds now))\<rparr>)"

definition fail_repair_row :: "int \<Rightarrow> string \<Rightarrow> time \<Rightarrow> queue_row \<Rightarrow> queue_row" where
  "fail_repair_row kind lastError now q =
    (let st = (if kind = FailureRetryable \<and> q_attempts q < q_max_attempts q then S_waiting
               else S_failed)
     in
     q\<lparr>q_status := st,
       q_available := seconds now + (if kind = FailureRetryable then 5 else 0),
       q_lease_owner := None, q_lease_until := None, q_error := Text lastError,
       q_finished := (if st = S_waiting then None else Some (seconds now))\<rparr>)"

text \<open>What the transaction writes as: cancelled when the scan of the task is.\<close>

definition effective_kind :: "db \<Rightarrow> Task \<Rightarrow> int \<Rightarrow> string \<Rightarrow> QueueError + int \<times> string" where
  "effective_kind d t kind lastError =
    (case task_ScanTaskID t of
       None \<Rightarrow> Inr (kind, lastError)
     | Some i \<Rightarrow>
         (case find (\<lambda>s. sc_id s = i) (scans d) of
            None \<Rightarrow> Inl (ScanMissing i)
          | Some s \<Rightarrow>
              if sc_cancelled s then Inr (FailureCancelled, scanCancelledMessage)
              else Inr (kind, lastError)))"

text \<open>The temporary file is given back by the kind that was asked for, not by the kind that was
  written.\<close>

definition Fail ::
  "(impossibleDependencyReason \<Rightarrow> string) \<Rightarrow> barrier_hook \<Rightarrow> (string \<Rightarrow> bool) \<Rightarrow> string \<Rightarrow> time \<Rightarrow> Task \<Rightarrow>
   int \<Rightarrow> string option \<Rightarrow> work \<Rightarrow> QueueError + work" where
  "Fail marshal hook uuid_ok queueOwner now t requestedKind cause w =
    and_then (check_claimed uuid_ok queueOwner t) (\<lambda>_.
      (let d = work_db w;
           temps = (\<lambda>w. if requestedKind \<noteq> FailureShutdown then releaseTaskPlaintextTemp t w else w)
       in
       if requestedKind < FailureRetryable \<or> requestedKind > FailureShutdown
       then Inl (FailureKindInvalid requestedKind)
       else if posterRepairTask t then
         (let p = posterRepairLifecyclePredicate d t;
              d' = set_posts p (fail_repair_row requestedKind (failureText cause) now) d
          in
          if sql_affected p (posts d) \<noteq> 1
          then Inl (ownerWriteError d' (task_ID t) (task_LeaseOwner t) ''fail'')
          else Inr ((temps w)\<lparr>work_db := d',
                 work_sched := releaseReservationDirect now t (failReservationReason requestedKind)
                   (work_sched w)\<rparr>))
       else
         and_then (effective_kind d t requestedKind (failureText cause)) (\<lambda>(kind, lastError).
           (let p = task_fence d t;
                d' = set_posts p (fail_row kind lastError now) d
            in
            if sql_affected p (posts d) \<noteq> 1
            then Inl (ownerWriteError d' (task_ID t) (task_LeaseOwner t) ''fail'')
            else
              and_then (if kind = FailureShutdown then Inr (work_sched w)
                        else releaseReservationIfNeeded now t (failReservationReason kind)
                               (work_sched w)) (\<lambda>s.
                and_then (if kind = FailureShutdown then syncLinkedStepLeaseTx (task_ID t) d'
                          else syncLinkedStepTx marshal hook (seconds now) (task_ID t) d') (\<lambda>d'.
                  Inr (temps (w\<lparr>work_db := d', work_sched := s\<rparr>))))))))"


section \<open>Recovering interrupted tasks\<close>

definition recoverExpiredLimit :: nat where "recoverExpiredLimit = 100"

text \<open>\<open>lease_until IS NULL OR lease_until<CURRENT_TIMESTAMP\<close>\<close>

definition lease_over :: "time \<Rightarrow> queue_row \<Rightarrow> bool" where
  "lease_over now q \<longleftrightarrow> (case q_lease_until q of None \<Rightarrow> True | Some l \<Rightarrow> l < seconds now)"

definition recoverable :: "bool \<Rightarrow> time \<Rightarrow> queue_row \<Rightarrow> bool" where
  "recoverable onlyExpired now q \<longleftrightarrow>
    q_status q = S_running \<and> (onlyExpired \<longrightarrow> lease_over now q)"

definition recover_row :: "string \<Rightarrow> time \<Rightarrow> db \<Rightarrow> queue_row \<Rightarrow> queue_row" where
  "recover_row exhaustedMsg now d q =
    (let exhausted = (q_max_attempts q \<le> q_attempts q) in
     q\<lparr>q_status := (if scan_cancelled d q then S_cancelled
                    else if exhausted then S_failed else S_waiting),
       q_error := (if exhausted then Text exhaustedMsg else q_error q),
       q_available := seconds now, q_lease_owner := None, q_lease_until := None,
       q_finished := (if exhausted \<or> scan_cancelled d q then Some (seconds now) else None)\<rparr>)"

text \<open>One selected row: the number of rows changed, with the new state.\<close>

definition recover_one ::
  "(impossibleDependencyReason \<Rightarrow> string) \<Rightarrow> barrier_hook \<Rightarrow> bool \<Rightarrow> time \<Rightarrow> int \<Rightarrow> db \<Rightarrow>
   QueueError + nat \<times> db" where
  "recover_one marshal hook onlyExpired now taskID d =
    (let msg = (if onlyExpired then ''lease expired and attempts exhausted''
                else ''interrupted and attempts exhausted'');
         p = (\<lambda>q. q_id q = taskID \<and> recoverable onlyExpired now q);
         changed = sql_affected p (posts d);
         d' = set_posts p (recover_row msg now d) d
     in
     if changed = 1
     then and_then (syncLinkedStepTx marshal hook (seconds now) taskID d') (\<lambda>d'. Inr (1, d'))
     else Inr (changed, d'))"

text \<open>The loop over the selected rows. It returns the total, and the rows whose files are given
  back after the commit.\<close>

fun recover_each ::
  "(impossibleDependencyReason \<Rightarrow> string) \<Rightarrow> barrier_hook \<Rightarrow> bool \<Rightarrow> time \<Rightarrow> (int \<times> int \<times> int) list \<Rightarrow> db \<Rightarrow>
   QueueError + nat \<times> (int \<times> int \<times> int) list \<times> db" where
  "recover_each marshal hook onlyExpired now [] d = Inr (0, [], d)"
| "recover_each marshal hook onlyExpired now ((mediaID, gen, taskID) # attempts) d =
    and_then (recover_one marshal hook onlyExpired now taskID d) (\<lambda>(changed, d).
      and_then (recover_each marshal hook onlyExpired now attempts d) (\<lambda>(n, batch, d).
        Inr (changed + n, (if changed = 1 then (mediaID, gen, taskID) # batch else batch), d)))"

text \<open>\<open>lapsed l now\<close>: the text the database driver stored for the lease \<open>l\<close> sorts before
  \<open>CURRENT_TIMESTAMP\<close>. The driver is not part of the repository.\<close>

definition orphaned_executions ::
  "(time \<Rightarrow> time \<Rightarrow> bool) \<Rightarrow> bool \<Rightarrow> time \<Rightarrow> string list \<Rightarrow> SchedDB \<Rightarrow> string list" where
  "orphaned_executions lapsed onlyExpired now skip s =
    map rv_ExecutionID (filter (\<lambda>r. rv_Status r = Active \<and>
        (onlyExpired \<longrightarrow> (case rv_LeaseUntil r of None \<Rightarrow> True | Some l \<Rightarrow> lapsed l now)) \<and>
        rv_ExecutionID r \<notin> set skip) (db_reservations s))"

definition recovery_batch :: "bool \<Rightarrow> time \<Rightarrow> int list \<Rightarrow> db \<Rightarrow> (int \<times> int \<times> int) list" where
  "recovery_batch onlyExpired now skip d =
    take recoverExpiredLimit
      (map (\<lambda>q. (q_media q, (case q_generation q of None \<Rightarrow> 0 | Some g \<Rightarrow> g), q_id q))
        (sort_key q_id (filter (\<lambda>q. recoverable onlyExpired now q \<and> q_id q \<notin> set skip) (posts d))))"

definition recoverRunning ::
  "(time \<Rightarrow> time \<Rightarrow> bool) \<Rightarrow> (impossibleDependencyReason \<Rightarrow> string) \<Rightarrow> barrier_hook \<Rightarrow> time \<Rightarrow> bool \<Rightarrow>
   int list \<Rightarrow> string list \<Rightarrow> work \<Rightarrow> QueueError + nat \<times> work" where
  "recoverRunning lapsed marshal hook now onlyExpired skipTasks skipExecutions w =
    (let reason = (if onlyExpired then ''expired_recovery'' else ''startup_interruption'');
         s = snd (release_each now reason ''recovery''
               (orphaned_executions lapsed onlyExpired now skipExecutions (work_sched w)) (work_sched w))
     in
     and_then (recover_each marshal hook onlyExpired now
         (recovery_batch onlyExpired now skipTasks (work_db w)) (work_db w))
       (\<lambda>(n, batch, d).
          Inr (n, w\<lparr>work_db := d, work_sched := s, work_temps := work_temps w @ batch\<rparr>)))"

definition RecoverExpired where
  "RecoverExpired lapsed marshal hook now w = recoverRunning lapsed marshal hook now True [] [] w"

definition RecoverExpiredSkipping where
  "RecoverExpiredSkipping lapsed marshal hook now skipTasks skipExecutions w =
    recoverRunning lapsed marshal hook now True skipTasks skipExecutions w"

definition RecoverInterrupted where
  "RecoverInterrupted lapsed marshal hook now w = recoverRunning lapsed marshal hook now False [] [] w"

section \<open>Cancelling the tasks of a scan\<close>

fun cancel_runs ::
  "(impossibleDependencyReason \<Rightarrow> string) \<Rightarrow> barrier_hook \<Rightarrow> int \<Rightarrow> int list \<Rightarrow> db \<Rightarrow> QueueError + db" where
  "cancel_runs marshal hook now [] d = Inr d"
| "cancel_runs marshal hook now (r # rs) d =
    and_then (map_sum PublicationFailed id (CancelRunTx marshal hook now r ''scan_cancelled'' d))
      (\<lambda>(_, d). cancel_runs marshal hook now rs d)"

definition scan_runs :: "int \<Rightarrow> db \<Rightarrow> int list" where
  "scan_runs i d =
    remdups (map r_id (filter (\<lambda>r. r_scan_task r = Some i \<and> r_status r = StateProcessing \<and>
        r_superseded_by r = None \<and> r_superseded_at r = None \<and>
        list_ex (\<lambda>m. m_id m = r_media r \<and> m_generation m = r_generation r) (medias d)) (runs d)))"

definition legacy_active :: "int \<Rightarrow> queue_row \<Rightarrow> bool" where
  "legacy_active i q \<longleftrightarrow>
    q_scan_task q = Some i \<and> q_run q = None \<and> q_status q \<in> {S_waiting, S_running}"

text \<open>The count it returns is taken before anything is cancelled.\<close>

definition CancelScan ::
  "(impossibleDependencyReason \<Rightarrow> string) \<Rightarrow> barrier_hook \<Rightarrow> time \<Rightarrow> int \<Rightarrow> work \<Rightarrow>
   QueueError + nat \<times> work" where
  "CancelScan marshal hook now i w =
    (if i \<le> 0 then Inl (ScanTaskIDInvalid i)
     else
       (let d = work_db w;
            n = sql_affected (\<lambda>q. q_scan_task q = Some i \<and> q_status q \<in> {S_waiting, S_running}) (posts d)
        in
        and_then (cancel_runs marshal hook (seconds now) (scan_runs i d) d) (\<lambda>d.
          Inr (n, w\<lparr>work_db := set_posts (legacy_active i)
                     (cancel_queue (seconds now) (\<lambda>_. Text scanCancelledMessage) id) d,
                    work_temps := work_temps w @
                      map (\<lambda>q. (q_media q, (case q_generation q of None \<Rightarrow> 0 | Some g \<Rightarrow> g), q_id q))
                        (filter (legacy_active i) (posts d))\<rparr>))))"


section \<open>A task and its step\<close>

lemma set_posts_simps [simp]:
  "posts (set_posts p f d) = sql_update p f (posts d)" "steps (set_posts p f d) = steps d"
  "deps (set_posts p f d) = deps d" "scrapes (set_posts p f d) = scrapes d"
  "transcodes (set_posts p f d) = transcodes d" "next_queue (set_posts p f d) = next_queue d"
  "runs (set_posts p f d) = runs d" "medias (set_posts p f d) = medias d"
  "scans (set_posts p f d) = scans d"
  by (simp_all add: set_posts_def)

lemma affected_1: "sql_affected p xs = 1 \<Longrightarrow> \<exists>x \<in> set xs. p x"
  by (metis sql_affected_0 zero_neq_one)

lemma affected_id:
  assumes "distinct (map q_id qs)" and "\<And>q. p q \<Longrightarrow> q_id q = i"
  shows "sql_affected p qs \<le> 1 \<and> (\<forall>q \<in> set qs. p q \<longrightarrow> sql_affected p qs = 1)"
proof -
  have le: "sql_affected p qs \<le> 1"
  proof -
    have "distinct (map q_id (filter p qs))" using assms(1) by (rule distinct_map_filter)
    moreover have "set (map q_id (filter p qs)) \<subseteq> {i}" using assms(2) by auto
    ultimately have "length (map q_id (filter p qs)) \<le> card {i}"
      by (metis card_mono distinct_card finite.emptyI finite.insertI)
    then show ?thesis by (simp add: sql_affected_def)
  qed
  moreover have "sql_affected p qs = 1" if "q \<in> set qs" "p q" for q
    using le that sql_affected_0 [of p qs] by (cases "sql_affected p qs") auto
  ultimately show ?thesis by blast
qed

text \<open>The statuses a worker may write onto a running task.\<close>

definition settled_statuses :: "status set" where
  "settled_statuses = {S_running, S_done, S_failed, S_waiting, S_cancelled}"

text \<open>An \<open>UPDATE\<close> of one running task that keeps its links.\<close>

definition task_update :: "int \<Rightarrow> (queue_row \<Rightarrow> bool) \<Rightarrow> (queue_row \<Rightarrow> queue_row) \<Rightarrow> bool" where
  "task_update i p f \<longleftrightarrow>
    (\<forall>q. p q \<longrightarrow> q_id q = i \<and> q_status q = S_running) \<and>
    (\<forall>q. link_of (f q) = link_of q \<and> q_retry_round (f q) = q_retry_round q \<and>
         (q_status q = S_running \<longrightarrow> q_status (f q) \<in> settled_statuses))"

lemma mirror_columns_simps [simp]:
  "step_key (mirror_columns q s) = step_key s" "s_status (mirror_columns q s) = q_status q"
  "s_retry_round (mirror_columns q s) = q_retry_round q"
  by (simp_all add: mirror_columns_def step_key_def)

lemma mirrored_row:
  assumes m: "mirrored d" and u: "task_update i p f" and q0: "q0 \<in> set (posts d)" "p q0"
  shows "post_by_id (set_posts p f d) i = Some (f q0)"
proof -
  have dist: "distinct (map q_id (posts d))" using m by (simp add: mirrored_def links_ok_def)
  have id: "q_id (f q) = q_id q" for q using u by (simp add: task_update_def link_of_def)
  have "q_id q0 = i" using u q0(2) by (simp add: task_update_def)
  then have "find (\<lambda>q. q_id q = i) (posts d) = Some q0"
    using find_key_distinct [OF dist q0(1)] by simp
  with q0(2) show ?thesis
    by (simp add: post_by_id_def find_update_other id)
qed

lemma mirror_linked:
  assumes m: "mirrored d" and u: "task_update i p f" and q0: "q0 \<in> set (posts d)" "p q0"
  shows "\<exists>d'. mirrorLinkedStepTx i (set_posts p f d) = Inr (q_run q0, d') \<and>
    posts d' = sql_update p f (posts d) \<and>
    steps d' = sql_update (\<lambda>s. q_step q0 = Some (s_id s)) (mirror_columns (f q0)) (steps d) \<and>
    preserves d d' \<and> mirrored d'"
proof -
  have link: "link_of (f q) = link_of q" for q using u by (simp add: task_update_def)
  have same: "q_step (f q0) = q_step q0" "q_run (f q0) = q_run q0" "q_retry_round (f q0) = q_retry_round q0"
    using u by (simp_all add: task_update_def link_of_def)
  have run: "q_status q0 = S_running" "q_status (f q0) \<in> settled_statuses"
    using u q0(2) by (auto simp: task_update_def)
  let ?w = "\<lambda>s. q_step q0 = Some (s_id s)"
  let ?d = "(set_posts p f d)\<lparr>steps := sql_update ?w (mirror_columns (f q0)) (steps d)\<rparr>"
  have l: "links_ok d" using m by (simp add: mirrored_def)
  have p_q0: "q = q0" if "q \<in> set (posts d)" "p q" for q
  proof -
    have "q_id q = q_id q0" using u that(2) q0(2) by (simp add: task_update_def)
    then show ?thesis using l that(1) q0(1) by (auto simp: links_ok_def distinct_map dest: inj_onD)
  qed
  have "mirror_step d ?d"
  proof (rule mirror_update [where v = p and g = f and w = ?w and f = "mirror_columns (f q0)"])
    fix q s assume q: "q \<in> set (posts d)" "s \<in> set (steps d)" "tied q s" and mir: "mirrors q s"
    show "mirrors (if p q then f q else q) (if ?w s then mirror_columns (f q0) s else s)"
    proof (cases "p q")
      case True
      then have "q = q0" using p_q0 q(1) by blast
      then show ?thesis using True q(3) by (simp add: mirrors_def tied_def)
    next
      case False
      have "\<not> ?w s"
      proof
        assume "?w s"
        then have "tied q0 s" by (simp add: tied_def)
        with tied_unique [OF l q(1) q0(1) q(3)] q0(2) False show False by blast
      qed
      with False mir show ?thesis by simp
    qed
  qed (use link in \<open>simp_all\<close>)
  then have mir: "mirrored ?d" using m by (simp add: mirror_step_def)
  have "preserves d ?d"
  proof (rule update_preserves [where w = ?w and f = "mirror_columns (f q0)"])
    fix s assume s: "s \<in> set (steps d)" "?w s"
    then have "mirrors q0 s" using m q0(1) by (simp add: mirrored_def tied_def)
    then have "s_status s = S_running" "s_retry_round s = q_retry_round q0"
      using run(1) by (simp_all add: mirrors_def)
    then show "step_change_ok d s (mirror_columns (f q0) s)"
      using run(2) same(3) unfolding step_change_ok_def same_step_def settled_statuses_def
      by (auto simp: mirror_columns_def intro: one_move)
  qed simp_all
  then show ?thesis
    using mir by (simp add: mirrorLinkedStepTx_def mirrored_row [OF m u q0] same)
qed


definition kept :: "db \<Rightarrow> db \<Rightarrow> bool" where
  "kept d d' \<longleftrightarrow> (mirrored d \<longrightarrow> preserves d d' \<and> mirrored d')"

lemma kept_refl [simp]: "kept d d" by (simp add: kept_def)

lemma kept_trans [trans]: "kept d d' \<Longrightarrow> kept d' d'' \<Longrightarrow> kept d d''"
  unfolding kept_def using preserves_trans by blast

lemma map_sum_Inr_iff [simp]: "map_sum f id r = Inr x \<longleftrightarrow> r = Inr x"
  by (cases r) auto

lemma finalize_kept: "FinalizeNodeTransitionTx marshal None now r d = Inr d' \<Longrightarrow> kept d d'"
  using finalize_preserves finalize_mirror by (auto simp: kept_def mirror_step_def)

lemma sync_kept:
  assumes u: "task_update i p f" and n: "sql_affected p (posts d) = 1"
    and s: "syncLinkedStepTx marshal None now i (set_posts p f d) = Inr d'"
  shows "kept d d'"
  unfolding kept_def
proof
  assume m: "mirrored d"
  obtain q0 where q0: "q0 \<in> set (posts d)" "p q0" using affected_1 [OF n] by blast
  obtain d1 where d1: "mirrorLinkedStepTx i (set_posts p f d) = Inr (q_run q0, d1)"
    "preserves d d1" "mirrored d1"
    using mirror_linked [OF m u q0] by blast
  have "kept d1 d'"
    using s d1(1) by (auto simp: syncLinkedStepTx_def and_then_Inr_iff dest: finalize_kept
        split: option.splits)
  with d1(2,3) show "preserves d d' \<and> mirrored d'" unfolding kept_def using preserves_trans by blast
qed

lemma sync_lease_kept:
  assumes u: "task_update i p f" and n: "sql_affected p (posts d) = 1"
    and s: "syncLinkedStepLeaseTx i (set_posts p f d) = Inr d'"
  shows "kept d d'"
  unfolding kept_def
proof
  assume m: "mirrored d"
  obtain q0 where q0: "q0 \<in> set (posts d)" "p q0" using affected_1 [OF n] by blast
  show "preserves d d' \<and> mirrored d'"
    using mirror_linked [OF m u q0] s by (auto simp: syncLinkedStepLeaseTx_def)
qed

text \<open>A statement that finds no row changes nothing; one that finds a row without a step leaves
  the plan alone.\<close>

lemma unaffected_kept:
  assumes u: "task_update i p f" and n: "sql_affected p (posts d) \<noteq> 1"
  shows "kept d (set_posts p f d)"
  unfolding kept_def
proof
  assume "mirrored d"
  then have "distinct (map q_id (posts d))" by (simp add: mirrored_def links_ok_def)
  from affected_id [OF this, of p i] n u have "sql_affected p (posts d) = 0"
    by (auto simp: task_update_def)
  then have "set_posts p f d = d" by (simp add: set_posts_def sql_update_unaffected)
  with \<open>mirrored d\<close> show "preserves d (set_posts p f d) \<and> mirrored (set_posts p f d)" by simp
qed

lemma stepless_kept:
  assumes u: "\<And>q. link_of (f q) = link_of q" and n: "\<And>q. p q \<Longrightarrow> q_step q = None"
  shows "kept d (set_posts p f d)"
proof -
  have "mirror_step d (set_posts p f d)"
    by (rule mirror_update [where v = p and g = f and w = "\<lambda>_. False" and f = id])
      (use u n in \<open>auto simp: tied_def sql_update_def\<close>)
  moreover have "preserves d (set_posts p f d)" by (rule preserves_same) simp_all
  ultimately show ?thesis by (simp add: kept_def mirror_step_def)
qed

text \<open>The updates of the worker operations are of this kind.\<close>

lemma fence_update:
  assumes "\<And>q. link_of (f q) = link_of q \<and> q_retry_round (f q) = q_retry_round q \<and>
    (q_status q = S_running \<longrightarrow> q_status (f q) \<in> settled_statuses)"
  shows "task_update (task_ID t) (task_fence d t) f"
  using assms by (auto simp: task_update_def task_fence_def)

lemma row_updates:
  "link_of (renew_row now q) = link_of q" "link_of (complete_row now d q) = link_of q"
  "link_of (complete_repair_row now q) = link_of q" "link_of (fail_row kind err now q) = link_of q"
  "link_of (fail_repair_row kind err now q) = link_of q" "link_of (recover_row msg now d q) = link_of q"
  "q_retry_round (renew_row now q) = q_retry_round q" "q_retry_round (complete_row now d q) = q_retry_round q"
  "q_retry_round (fail_row kind err now q) = q_retry_round q"
  "q_retry_round (recover_row msg now d q) = q_retry_round q"
  "q_status (renew_row now q) = q_status q" "q_status (complete_row now d q) \<in> settled_statuses"
  "q_status q = S_running \<longrightarrow> q_status (fail_row kind err now q) \<in> settled_statuses"
  "q_status (recover_row msg now d q) \<in> settled_statuses"
  by (simp_all add: link_of_def renew_row_def complete_row_def complete_repair_row_def fail_row_def
      fail_repair_row_def recover_row_def Let_def settled_statuses_def fail_status_def)

lemma fence_updates:
  "task_update (task_ID t) (task_fence d t) (renew_row now)"
  "task_update (task_ID t) (task_fence d t) (complete_row now d)"
  "task_update (task_ID t) (task_fence d t) (fail_row kind err now)"
  by (rule fence_update, simp add: row_updates, simp add: settled_statuses_def)
    (rule fence_update, simp add: row_updates)+

lemma recover_update:
  "task_update i (\<lambda>q. q_id q = i \<and> recoverable e now q) (recover_row msg now d)"
  by (simp add: task_update_def recoverable_def row_updates)

lemma repair_kept:
  assumes "\<And>q. link_of (f q) = link_of q"
  shows "kept d (set_posts (posterRepairLifecyclePredicate d t) f d)"
  by (rule stepless_kept) (use assms in \<open>auto simp: posterRepairLifecyclePredicate_def\<close>)


section \<open>The contract of a worker operation\<close>

locale worker_contract =
  fixes op :: "'i \<Rightarrow> work \<Rightarrow> QueueError + work"
  assumes keeps: "op i w = Inr w' \<Longrightarrow> kept (work_db w) (work_db w')"
begin

lemma keeps_plan: "op i w = Inr w' \<Longrightarrow> mirrored (work_db w) \<Longrightarrow> preserves (work_db w) (work_db w')"
  using keeps by (auto simp: kept_def)

lemma keeps_mirror: "op i w = Inr w' \<Longrightarrow> mirrored (work_db w) \<Longrightarrow> mirrored (work_db w')"
  using keeps by (auto simp: kept_def)

end

lemma releaseTaskPlaintextTemp_simps [simp]:
  "work_db (releaseTaskPlaintextTemp t w) = work_db w"
  "work_sched (releaseTaskPlaintextTemp t w) = work_sched w"
  by (simp_all add: releaseTaskPlaintextTemp_def)

lemma renew_kept:
  assumes "Renew uuid_ok owner now t w = Inr (renewed, w')"
  shows "kept (work_db w) (work_db w')"
proof (cases "posterRepairTask t")
  case True
  then have "work_db w' = set_posts (posterRepairLifecyclePredicate (work_db w) t) (renew_row now) (work_db w)"
    using assms by (auto simp: Renew_def Let_def and_then_Inr_iff)
  then show ?thesis by (simp add: repair_kept row_updates)
next
  case False
  let ?d = "set_posts (task_fence (work_db w) t) (renew_row now) (work_db w)"
  show ?thesis
  proof (cases "sql_affected (task_fence (work_db w) t) (posts (work_db w)) = 1")
    case True
    with False assms obtain d' where "syncLinkedStepLeaseTx (task_ID t) ?d = Inr d'" "work_db w' = d'"
      by (auto simp: Renew_def Let_def and_then_Inr_iff)
    with sync_lease_kept [OF fence_updates(1) True] show ?thesis by blast
  next
    case n: False
    with False assms have "work_db w' = ?d"
      by (auto simp: Renew_def Let_def and_then_Inr_iff split: option.split_asm if_split_asm)
    with unaffected_kept [OF fence_updates(1) n] show ?thesis by simp
  qed
qed

lemma complete_cases:
  assumes "Complete marshal hook uuid_ok owner now t w = Inr w'"
  obtains (repair) "posterRepairTask t"
      "sql_affected (posterRepairLifecyclePredicate (work_db w) t) (posts (work_db w)) = 1"
      "work_db w' = set_posts (posterRepairLifecyclePredicate (work_db w) t) (complete_repair_row now) (work_db w)"
      "work_sched w' = releaseReservationDirect now t ''complete'' (work_sched w)"
  | (linked) "\<not> posterRepairTask t"
      "sql_affected (task_fence (work_db w) t) (posts (work_db w)) = 1"
      "releaseReservationIfNeeded now t ''complete'' (work_sched w) = Inr (work_sched w')"
      "syncLinkedStepTx marshal hook (seconds now) (task_ID t)
        (set_posts (task_fence (work_db w) t) (complete_row now (work_db w)) (work_db w)) = Inr (work_db w')"
  using assms
  by (cases "posterRepairTask t") (auto simp: Complete_def Let_def and_then_Inr_iff split: if_split_asm)

lemma complete_kept:
  assumes "Complete marshal None uuid_ok owner now t w = Inr w'"
  shows "kept (work_db w) (work_db w')"
  using assms
proof (cases rule: complete_cases)
  case repair
  then show ?thesis by (simp add: repair_kept row_updates)
next
  case linked
  show ?thesis by (rule sync_kept [OF fence_updates(2) linked(2,4)])
qed

lemma fail_cases:
  assumes "Fail marshal hook uuid_ok owner now t requestedKind cause w = Inr w'"
  obtains (repair) "posterRepairTask t"
      "sql_affected (posterRepairLifecyclePredicate (work_db w) t) (posts (work_db w)) = 1"
      "work_db w' = set_posts (posterRepairLifecyclePredicate (work_db w) t)
        (fail_repair_row requestedKind (failureText cause) now) (work_db w)"
      "work_sched w' = releaseReservationDirect now t (failReservationReason requestedKind) (work_sched w)"
  | (linked) kind lastError where "\<not> posterRepairTask t"
      "effective_kind (work_db w) t requestedKind (failureText cause) = Inr (kind, lastError)"
      "sql_affected (task_fence (work_db w) t) (posts (work_db w)) = 1"
      "(if kind = FailureShutdown then Inr (work_sched w)
        else releaseReservationIfNeeded now t (failReservationReason kind) (work_sched w)) = Inr (work_sched w')"
      "(if kind = FailureShutdown
        then syncLinkedStepLeaseTx (task_ID t)
          (set_posts (task_fence (work_db w) t) (fail_row kind lastError now) (work_db w))
        else syncLinkedStepTx marshal hook (seconds now) (task_ID t)
          (set_posts (task_fence (work_db w) t) (fail_row kind lastError now) (work_db w))) = Inr (work_db w')"
proof (cases "posterRepairTask t")
  case True
  show ?thesis
    by (rule repair [OF True])
      (use True assms in \<open>auto simp: Fail_def Let_def and_then_Inr_iff split: if_split_asm\<close>)
next
  case False
  let ?d = "\<lambda>kind lastError. set_posts (task_fence (work_db w) t) (fail_row kind lastError now) (work_db w)"
  let ?temps = "\<lambda>w. if requestedKind \<noteq> FailureShutdown then releaseTaskPlaintextTemp t w else w"
  have "\<not> (requestedKind < FailureRetryable \<or> requestedKind > FailureShutdown)"
    using assms by (auto simp: Fail_def Let_def and_then_Inr_iff)
  with assms False obtain kind lastError where
    e: "effective_kind (work_db w) t requestedKind (failureText cause) = Inr (kind, lastError)"
    and r: "(if sql_affected (task_fence (work_db w) t) (posts (work_db w)) \<noteq> 1
      then Inl (ownerWriteError (?d kind lastError) (task_ID t) (task_LeaseOwner t) ''fail'')
      else and_then (if kind = FailureShutdown then Inr (work_sched w)
          else releaseReservationIfNeeded now t (failReservationReason kind) (work_sched w)) (\<lambda>s.
        and_then (if kind = FailureShutdown then syncLinkedStepLeaseTx (task_ID t) (?d kind lastError)
          else syncLinkedStepTx marshal hook (seconds now) (task_ID t) (?d kind lastError)) (\<lambda>d'.
          Inr (?temps (w\<lparr>work_db := d', work_sched := s\<rparr>))))) = Inr w'"
    unfolding Fail_def Let_def by (auto simp only: and_then_Inr_iff if_False split: prod.splits)
  have n: "sql_affected (task_fence (work_db w) t) (posts (work_db w)) = 1"
    using r by (metis Inl_Inr_False)
  with r obtain s d' where
    s: "(if kind = FailureShutdown then Inr (work_sched w)
        else releaseReservationIfNeeded now t (failReservationReason kind) (work_sched w)) = Inr s"
    and d: "(if kind = FailureShutdown then syncLinkedStepLeaseTx (task_ID t) (?d kind lastError)
        else syncLinkedStepTx marshal hook (seconds now) (task_ID t) (?d kind lastError)) = Inr d'"
    and w: "?temps (w\<lparr>work_db := d', work_sched := s\<rparr>) = w'"
    by (auto simp only: and_then_Inr_iff simp_thms if_False)
  have w': "work_db w' = d'" "work_sched w' = s" unfolding w [symmetric] by simp_all
  show ?thesis by (rule linked [OF False e n]) (use s d w' in simp_all)
qed

lemma fail_kept:
  assumes "Fail marshal None uuid_ok owner now t kind cause w = Inr w'"
  shows "kept (work_db w) (work_db w')"
  using assms
proof (cases rule: fail_cases)
  case repair
  then show ?thesis by (simp add: repair_kept row_updates)
next
  case (linked kind lastError)
  then show ?thesis
    using sync_kept [OF fence_updates(3) linked(3)] sync_lease_kept [OF fence_updates(3) linked(3)]
    by (cases "kind = FailureShutdown") auto
qed

lemma recover_one_kept:
  assumes "recover_one marshal None e now i d = Inr (n, d')"
  shows "kept d d'"
proof -
  let ?p = "\<lambda>q. q_id q = i \<and> recoverable e now q"
  obtain msg where m: "if sql_affected ?p (posts d) = 1
      then \<exists>n. and_then (syncLinkedStepTx marshal None (seconds now) i (set_posts ?p (recover_row msg now d) d))
        (\<lambda>d'. Inr (1 :: nat, d')) = Inr (n, d')
      else d' = set_posts ?p (recover_row msg now d) d"
    using assms by (fastforce simp: recover_one_def Let_def split: if_split_asm)
  show ?thesis
  proof (cases "sql_affected ?p (posts d) = 1")
    case True
    with m have "syncLinkedStepTx marshal None (seconds now) i (set_posts ?p (recover_row msg now d) d) = Inr d'"
      by (auto simp: and_then_Inr_iff)
    then show ?thesis by (rule sync_kept [OF recover_update True])
  next
    case False
    with m show ?thesis using unaffected_kept [OF recover_update False] by simp
  qed
qed

lemma recover_each_kept: "recover_each marshal None e now as d = Inr (n, b, d') \<Longrightarrow> kept d d'"
proof (induction as arbitrary: d n b)
  case (Cons a as)
  obtain m g i where a: "a = (m, g, i)" by (cases a)
  from Cons.prems obtain c d1 n' b' where "recover_one marshal None e now i d = Inr (c, d1)"
    "recover_each marshal None e now as d1 = Inr (n', b', d')"
    by (auto simp: a and_then_Inr_iff)
  then show ?case using recover_one_kept Cons.IH kept_trans by blast
qed simp

lemma recover_kept:
  "recoverRunning lapsed marshal None now e ts es w = Inr (n, w') \<Longrightarrow> kept (work_db w) (work_db w')"
  by (auto simp: recoverRunning_def Let_def and_then_Inr_iff dest: recover_each_kept)

lemma cancel_runs_kept: "cancel_runs marshal None now rs d = Inr d' \<Longrightarrow> kept d d'"
proof (induction rs arbitrary: d)
  case (Cons r rs)
  from Cons.prems obtain ok d1 where "CancelRunTx marshal None now r ''scan_cancelled'' d = Inr (ok, d1)"
    "cancel_runs marshal None now rs d1 = Inr d'"
    by (auto simp: and_then_Inr_iff)
  moreover then have "kept d d1" using cancel_run_preserves cancel_run_mirror by (auto simp: kept_def mirror_step_def)
  ultimately show ?case using Cons.IH kept_trans by blast
qed simp

lemma cancel_scan_kept:
  assumes "CancelScan marshal None now i w = Inr (n, w')"
  shows "kept (work_db w) (work_db w')"
proof -
  obtain d where d: "cancel_runs marshal None (seconds now) (scan_runs i (work_db w)) (work_db w) = Inr d"
    "work_db w' = set_posts (legacy_active i) (cancel_queue (seconds now) (\<lambda>_. Text scanCancelledMessage) id) d"
    using assms by (auto simp: CancelScan_def Let_def and_then_Inr_iff split: if_split_asm)
  have "mirror_step d (work_db w')"
    unfolding d(2)
    by (rule mirror_update [where v = "legacy_active i" and w = "\<lambda>_. False" and f = id and
          g = "cancel_queue (seconds now) (\<lambda>_. Text scanCancelledMessage) id"])
      (auto simp: sql_update_def legacy_active_def)
  moreover have "preserves d (work_db w')" unfolding d(2) by (rule preserves_same) simp_all
  ultimately have "kept d (work_db w')" by (simp add: kept_def mirror_step_def)
  with cancel_runs_kept [OF d(1)] show ?thesis by (rule kept_trans)
qed

interpretation renew: worker_contract
  "\<lambda>(uuid_ok, owner, now, t) w. and_then (Renew uuid_ok owner now t w) (\<lambda>(_, w). Inr w)"
  by unfold_locales (auto simp: and_then_Inr_iff dest: renew_kept)

interpretation complete: worker_contract
  "\<lambda>(marshal, uuid_ok, owner, now, t). Complete marshal None uuid_ok owner now t"
  by unfold_locales (auto dest: complete_kept)

interpretation fail: worker_contract
  "\<lambda>(marshal, uuid_ok, owner, now, t, kind, cause). Fail marshal None uuid_ok owner now t kind cause"
  by unfold_locales (auto dest: fail_kept)

interpretation recover: worker_contract
  "\<lambda>(lapsed, marshal, now, e, ts, es) w.
     and_then (recoverRunning lapsed marshal None now e ts es w) (\<lambda>(_, w). Inr w)"
  by unfold_locales (auto simp: and_then_Inr_iff dest: recover_kept)

interpretation cancel_scan: worker_contract
  "\<lambda>(marshal, now, i) w. and_then (CancelScan marshal None now i w) (\<lambda>(_, w). Inr w)"
  by unfold_locales (auto simp: and_then_Inr_iff dest: cancel_scan_kept)


lemma enqueue_kept:
  assumes "Enqueue now mediaID scanTaskID typ d = Inr (ok, d')"
  shows "kept d d'"
proof (cases "d' = d")
  case False
  obtain q where d': "d' = d\<lparr>posts := posts d @ [q], next_queue := next_queue d + 1\<rparr>"
    and q: "q_step q = None" "q_id q = next_queue d"
    using assms False by (auto simp: Enqueue_def and_then_Inr_iff split: option.split_asm if_split_asm)
  have "mirrored d'" if m: "mirrored d"
  proof -
    have l: "links_ok d" using m by (simp add: mirrored_def)
    have old: "x \<in> set (posts d)" if "x \<in> set (posts d')" "q_step x = Some i" for x i
      using that q(1) by (auto simp: d')
    have "set (posts d') = insert q (set (posts d))" by (simp add: d')
    then have id: "q_id x < next_queue d'" if "x \<in> set (posts d')" for x
      using l that q(2) by (force simp: d' links_ok_def)
    have "next_queue d \<notin> set (map q_id (posts d))" using l by (auto simp: links_ok_def)
    then have dist: "distinct (map q_id (posts d'))" using l by (simp add: d' q(2) links_ok_def)
    have "tied_ids (posts d') = tied_ids (posts d)" by (simp add: d' tied_ids_def q(1))
    moreover have same: "steps d' = steps d" "scrapes d' = scrapes d" "transcodes d' = transcodes d"
      by (simp_all add: d')
    moreover have "i \<in> set (step_ids d)"
      if a: "x \<in> set (posts d') \<union> set (scrapes d) \<union> set (transcodes d)" "q_step x = Some i" for x i
    proof -
      have "x \<in> set (posts d) \<union> set (scrapes d) \<union> set (transcodes d)" using a old by blast
      with l a(2) show ?thesis unfolding links_ok_def by blast
    qed
    moreover have "q_run x = Some (s_run s) \<and> q_generation x = Some (s_generation s) \<and> is_post (s_type s)"
      if a: "x \<in> set (posts d')" "s \<in> set (steps d)" "tied x s" for x s
    proof -
      have "x \<in> set (posts d)" using old [OF a(1)] a(3) by (simp add: tied_def)
      with l a(2,3) show ?thesis unfolding links_ok_def by blast
    qed
    moreover have "step_ids d' = step_ids d" by (simp add: step_ids_def same)
    ultimately have "links_ok d'"
      using id dist l unfolding links_ok_def same by simp
    moreover have "mirrors x s" if "x \<in> set (posts d')" "s \<in> set (steps d')" "tied x s" for x s
    proof -
      have "x \<in> set (posts d)" using old that(1,3) by (auto simp: tied_def)
      with m that(2,3) show ?thesis by (simp add: mirrored_def same)
    qed
    ultimately show ?thesis by (simp add: mirrored_def)
  qed
  moreover have "preserves d d'" by (rule preserves_same) (simp_all add: d')
  ultimately show ?thesis by (simp add: kept_def)
qed simp

section \<open>Plans and workers together\<close>

text \<open>One committed transaction of the planner, the claims, the operators or the workers.\<close>

inductive work_step :: "work \<Rightarrow> work \<Rightarrow> bool" where
  planned: "ingest_step (work_db w) d \<Longrightarrow> work_step w (w\<lparr>work_db := d\<rparr>)"
| enqueued: "Enqueue now mediaID scanTaskID typ (work_db w) = Inr (ok, d) \<Longrightarrow>
    work_step w (w\<lparr>work_db := d\<rparr>)"
| renewed: "Renew uuid_ok owner now t w = Inr (ok, w') \<Longrightarrow> work_step w w'"
| completed: "Complete marshal None uuid_ok owner now t w = Inr w' \<Longrightarrow> work_step w w'"
| failed: "Fail marshal None uuid_ok owner now t kind cause w = Inr w' \<Longrightarrow> work_step w w'"
| recovered: "recoverRunning lapsed marshal None now onlyExpired tasks execs w = Inr (n, w') \<Longrightarrow>
    work_step w w'"
| cancelled: "CancelScan marshal None now scanTask w = Inr (n, w') \<Longrightarrow> work_step w w'"

definition work_ok :: "work \<Rightarrow> bool" where
  "work_ok w \<longleftrightarrow> mirrored (work_db w) \<and> safe (work_db w)"

lemma kept_ok: "kept (work_db w) (work_db w') \<Longrightarrow> work_ok w \<Longrightarrow> work_ok w'"
proof -
  assume k: "kept (work_db w) (work_db w')" and ok: "work_ok w"
  have m: "mirrored (work_db w)" and f: "safe (work_db w)" using ok by (simp_all add: work_ok_def)
  have "distinct (step_ids (work_db w))" using m by (simp add: mirrored_def links_ok_def)
  with k m f show "work_ok w'" unfolding kept_def work_ok_def preserves_def by blast
qed

lemma work_step_ok: "work_step w w' \<Longrightarrow> work_ok w \<Longrightarrow> work_ok w'"
proof (induction rule: work_step.induct)
  case (planned w d)
  have m: "mirrored (work_db w)" and f: "safe (work_db w)" using planned(2) by (simp_all add: work_ok_def)
  have "distinct (step_ids (work_db w))" using m by (simp add: mirrored_def links_ok_def)
  with ingest_step_safe [OF planned(1) _ f] ingest_step_mirror [OF planned(1) m]
  show ?case by (simp add: work_ok_def)
next
  case (enqueued now mediaID scanTaskID taskType w ok d)
  have "kept (work_db w) (work_db (w\<lparr>work_db := d\<rparr>))" using enqueue_kept [OF enqueued(1)] by simp
  then show ?case using enqueued(2) by (rule kept_ok)
next
  case renewed
  then show ?case using renew_kept kept_ok by blast
next
  case completed
  then show ?case using complete_kept kept_ok by blast
next
  case failed
  then show ?case using fail_kept kept_ok by blast
next
  case recovered
  then show ?case using recover_kept kept_ok by blast
next
  case cancelled
  then show ?case using cancel_scan_kept kept_ok by blast
qed

lemma work_history_ok: "work_step\<^sup>*\<^sup>* w w' \<Longrightarrow> work_ok w \<Longrightarrow> work_ok w'"
  by (induction rule: rtranclp_induct) (auto dest: work_step_ok)

end
