(* ===== verification/Spec2Isabelle.thy ===== *)
theory Spec2Isabelle
  imports Sched_Explain Queue_Worker
begin

text \<open>Vauldy.\<close>

end
